theory Spec2Isabelle
  imports Complex_Main "HOL-Library.Log_Nat"
begin

section \<open>JavaScript numbers\<close>

text \<open>
  Every number of \<^verbatim>\<open>media.js\<close> is an IEEE 754 binary64 value. A finite value is kept
  as a sign and a magnitude, so that \<open>+0\<close> and \<open>-0\<close> are distinct; the operators compute
  the exact result over the reals and round it to the nearest representable value, ties
  to even, as the language definition prescribes.
\<close>

datatype number = NaN | Infinity bool | Finite bool real

text \<open>\<open>ilog2 q\<close> is the binary exponent of \<open>q > 0\<close>: \<open>2 ^ ilog2 q \<le> q < 2 ^ (ilog2 q + 1)\<close>.\<close>

definition ilog2 :: "real \<Rightarrow> int" where
  "ilog2 q = (if 1 \<le> q then bitlen \<lfloor>q\<rfloor> - 1 else - bitlen (\<lceil>1 / q\<rceil> - 1))"

definition round_half_even :: "real \<Rightarrow> int" where
  "round_half_even r =
     (let f = \<lfloor>r\<rfloor>; d = r - of_int f
      in if d < 1 / 2 then f else if 1 / 2 < d then f + 1 else if even f then f else f + 1)"

text \<open>
  Rounding of an exact magnitude \<open>q \<ge> 0\<close> with sign \<open>s\<close>: 53 significant bits, the
  exponent bounded below by \<open>-1022\<close> (subnormal values are multiples of \<open>2 ^ -1074\<close>),
  overflow to infinity from \<open>2 ^ 1024\<close> on.
\<close>

definition rnd :: "bool \<Rightarrow> real \<Rightarrow> number" where
  "rnd s q =
     (if q = 0 then Finite s 0
      else let u = 2 powi (max (ilog2 q) (- 1022) - 52);
               r = of_int (round_half_even (q / u)) * u
           in if 2 ^ 1024 \<le> r then Infinity s else Finite s r)"

definition signed :: "bool \<Rightarrow> real \<Rightarrow> real" where
  "signed s q = (if s then - q else q)"

text \<open>A finite value is a double when rounding leaves it as it is.\<close>

fun is_double :: "number \<Rightarrow> bool" where
  "is_double (Finite s q) = (0 \<le> q \<and> rnd s q = Finite s q)"
| "is_double (Infinity s) = True"
| "is_double NaN = True"

fun is_finite :: "number \<Rightarrow> bool" where
  "is_finite (Finite s q) = True"
| "is_finite (Infinity s) = False"
| "is_finite NaN = False"

fun is_zero :: "number \<Rightarrow> bool" where
  "is_zero (Finite s q) = (q = 0)"
| "is_zero (Infinity s) = False"
| "is_zero NaN = False"

fun js_neg :: "number \<Rightarrow> number" where
  "js_neg (Finite s q) = Finite (\<not> s) q"
| "js_neg (Infinity s) = Infinity (\<not> s)"
| "js_neg NaN = NaN"

fun js_add :: "number \<Rightarrow> number \<Rightarrow> number" where
  "js_add (Finite s1 q1) (Finite s2 q2) =
     (let r = signed s1 q1 + signed s2 q2
      in if r = 0 then Finite (s1 \<and> s2) 0 else rnd (r < 0) \<bar>r\<bar>)"
| "js_add (Infinity s1) (Infinity s2) = (if s1 = s2 then Infinity s1 else NaN)"
| "js_add (Infinity s1) (Finite s2 q2) = Infinity s1"
| "js_add (Finite s1 q1) (Infinity s2) = Infinity s2"
| "js_add NaN b = NaN"
| "js_add a NaN = NaN"

definition js_sub :: "number \<Rightarrow> number \<Rightarrow> number" where
  "js_sub a b = js_add a (js_neg b)"

fun js_mul :: "number \<Rightarrow> number \<Rightarrow> number" where
  "js_mul (Finite s1 q1) (Finite s2 q2) = rnd (s1 \<noteq> s2) (q1 * q2)"
| "js_mul (Infinity s1) (Infinity s2) = Infinity (s1 \<noteq> s2)"
| "js_mul (Infinity s1) (Finite s2 q2) = (if q2 = 0 then NaN else Infinity (s1 \<noteq> s2))"
| "js_mul (Finite s1 q1) (Infinity s2) = (if q1 = 0 then NaN else Infinity (s1 \<noteq> s2))"
| "js_mul NaN b = NaN"
| "js_mul a NaN = NaN"

fun js_div :: "number \<Rightarrow> number \<Rightarrow> number" where
  "js_div (Finite s1 q1) (Finite s2 q2) =
     (if q2 = 0 then (if q1 = 0 then NaN else Infinity (s1 \<noteq> s2))
      else rnd (s1 \<noteq> s2) (q1 / q2))"
| "js_div (Infinity s1) (Infinity s2) = NaN"
| "js_div (Infinity s1) (Finite s2 q2) = Infinity (s1 \<noteq> s2)"
| "js_div (Finite s1 q1) (Infinity s2) = Finite (s1 \<noteq> s2) 0"
| "js_div NaN b = NaN"
| "js_div a NaN = NaN"

text \<open>The relational operators: every comparison with \<open>NaN\<close> is false, the zeros are equal.\<close>

fun js_lt :: "number \<Rightarrow> number \<Rightarrow> bool" where
  "js_lt (Finite s1 q1) (Finite s2 q2) = (signed s1 q1 < signed s2 q2)"
| "js_lt (Finite s1 q1) (Infinity s2) = (\<not> s2)"
| "js_lt (Infinity s1) (Finite s2 q2) = s1"
| "js_lt (Infinity s1) (Infinity s2) = (s1 \<and> \<not> s2)"
| "js_lt NaN b = False"
| "js_lt a NaN = False"

definition js_gt :: "number \<Rightarrow> number \<Rightarrow> bool" where
  "js_gt a b = js_lt b a"

definition js_le :: "number \<Rightarrow> number \<Rightarrow> bool" where
  "js_le a b = (a \<noteq> NaN \<and> b \<noteq> NaN \<and> \<not> js_lt b a)"

definition js_ge :: "number \<Rightarrow> number \<Rightarrow> bool" where
  "js_ge a b = (a \<noteq> NaN \<and> b \<noteq> NaN \<and> \<not> js_lt a b)"

text \<open>Strict equality \<^verbatim>\<open>===\<close> on numbers.\<close>

definition js_eq :: "number \<Rightarrow> number \<Rightarrow> bool" where
  "js_eq a b = (a \<noteq> NaN \<and> b \<noteq> NaN \<and> \<not> js_lt a b \<and> \<not> js_lt b a)"

text \<open>\<^verbatim>\<open>Math.min\<close> of two numbers: \<open>NaN\<close> if either is; \<open>-0\<close> is below \<open>+0\<close>.\<close>

fun is_negative :: "number \<Rightarrow> bool" where
  "is_negative (Finite s q) = s"
| "is_negative (Infinity s) = s"
| "is_negative NaN = False"

definition js_min :: "number \<Rightarrow> number \<Rightarrow> number" where
  "js_min a b =
     (if a = NaN \<or> b = NaN then NaN
      else if js_lt a b then a
      else if js_lt b a then b
      else if is_negative a then a else b)"

definition num :: "real \<Rightarrow> number" where
  "num q = Finite (q < 0) \<bar>q\<bar>"

text \<open>
  The real number a finite value stands for (0 is returned for the others, where it is not
  used), and the test that a computed value is finite and stands for a given real number.
  An operation has not rounded when its result passes this test for the exact result over
  the reals.
\<close>

fun val :: "number \<Rightarrow> real" where
  "val (Finite s q) = signed s q"
| "val (Infinity s) = 0"
| "val NaN = 0"

definition exact :: "number \<Rightarrow> real \<Rightarrow> bool" where
  "exact r v = (is_finite r \<and> val r = v)"

text \<open>The values a field of this program holds: \<^verbatim>\<open>undefined\<close>, \<^verbatim>\<open>null\<close> or a number.\<close>

datatype jsval = Undefined | Null | Num number

fun ToNumber :: "jsval \<Rightarrow> number" where
  "ToNumber Undefined = NaN"
| "ToNumber Null = Finite False 0"
| "ToNumber (Num n) = n"

fun truthy :: "jsval \<Rightarrow> bool" where
  "truthy Undefined = False"
| "truthy Null = False"
| "truthy (Num n) = (n \<noteq> NaN \<and> \<not> is_zero n)"

text \<open>\<^verbatim>\<open>a || b\<close>\<close>

definition js_or :: "jsval \<Rightarrow> jsval \<Rightarrow> jsval" where
  "js_or a b = (if truthy a then a else b)"

section \<open>Entities and the store\<close>

text \<open>
  Modelled from the spec: the element type of the live entity list \<^verbatim>\<open>ideas\<close>, which is
  declared outside \<^verbatim>\<open>media.js\<close>. An entity has the required numbers \<open>x\<close> and \<open>y\<close>, the
  optional \<open>vx\<close>, \<open>vy\<close> and \<open>radius\<close> (\<open>Undefined\<close> when the entity has none), and
  descriptive fields that are copied and never interpreted, for which \<open>title\<close> stands.
\<close>

record entity =
  x :: number
  y :: number
  vx :: jsval
  vy :: jsval
  radius :: jsval
  title :: string

text \<open>
  Objects and arrays live in a store and are named by addresses, so that two references
  to one array differ from two equal arrays. \<open>objCount\<close> and \<open>arrCount\<close> are the next
  free addresses.
\<close>

record heap =
  objs :: "nat \<Rightarrow> entity"
  arrs :: "nat \<Rightarrow> nat list"
  objCount :: nat
  arrCount :: nat

definition new_obj :: "entity \<Rightarrow> heap \<Rightarrow> nat \<times> heap" where
  "new_obj e h = (objCount h, h\<lparr>objs := (objs h)(objCount h := e), objCount := Suc (objCount h)\<rparr>)"

definition new_arr :: "nat list \<Rightarrow> heap \<Rightarrow> nat \<times> heap" where
  "new_arr rs h = (arrCount h, h\<lparr>arrs := (arrs h)(arrCount h := rs), arrCount := Suc (arrCount h)\<rparr>)"

definition upd_obj :: "nat \<Rightarrow> (entity \<Rightarrow> entity) \<Rightarrow> heap \<Rightarrow> heap" where
  "upd_obj r f h = h\<lparr>objs := (objs h)(r := f (objs h r))\<rparr>"

section \<open>The animation state\<close>

text \<open>
  A keyframe holds its time and a reference to its snapshot array. The keyframe objects
  themselves are reachable from the \<^verbatim>\<open>keyframes\<close> array only, which is kept as a list.
\<close>

record keyframe =
  time :: number
  positions :: nat

datatype marker_type = MarkIn | MarkOut | MarkKeyframe

record marker =
  mtype :: marker_type
  mtime :: jsval
  mposition :: number

text \<open>\<^verbatim>\<open>AnimationState.data\<close>\<close>

record anim_data =
  inPoint :: jsval
  outPoint :: jsval
  keyframes :: "keyframe list"
  duration :: number
  isRecording :: bool
  isPlaying :: bool
  currentTime :: number
  startTime :: number

text \<open>\<^verbatim>\<open>AnimationState\<close>\<close>

record animation_state =
  data :: anim_data
  timelineMarkers :: "marker list"
  playbackStartTime :: number
  playbackDuration :: number
  currentPlaybackTime :: number

text \<open>The variables a scheduled \<^verbatim>\<open>animate\<close> callback has captured in \<^verbatim>\<open>animateBubbles\<close>.\<close>

record tick_env =
  env_duration :: number
  env_inPoint :: jsval
  env_outPoint :: jsval
  env_durationSeconds :: number

text \<open>The saved document, as the value \<^verbatim>\<open>JSON.parse\<close> yields for it.\<close>

record doc_entity =
  doc_x :: jsval
  doc_y :: jsval
  doc_vx :: jsval
  doc_vy :: jsval
  doc_radius :: jsval
  doc_title :: string

record doc_keyframe =
  doc_time :: jsval
  doc_positions :: "doc_entity list"

record document =
  doc_inPoint :: jsval
  doc_outPoint :: jsval
  doc_keyframes :: "doc_keyframe list option"
  doc_duration :: jsval
  doc_isRecording :: bool
  doc_isPlaying :: bool
  doc_currentTime :: jsval
  doc_startTime :: jsval
  doc_timestamp :: jsval
  doc_name :: string

text \<open>The object \<^verbatim>\<open>loadAnimation\<close> builds from a document.\<close>

record loaded_animation =
  ld_inPoint :: jsval
  ld_outPoint :: jsval
  ld_keyframes :: "doc_keyframe list"
  ld_duration :: jsval
  ld_isRecording :: bool
  ld_isPlaying :: bool
  ld_currentTime :: number
  ld_startTime :: number

text \<open>
  Everything the animation code reads or writes: the state object, the live entity list
  and the store, the two controls (the scrubber and the duration selector, by the number
  their value parses to), the notifications shown, the scheduled frame callbacks, the
  documents offered for download, and the two global variables \<^verbatim>\<open>animationData\<close> and
  \<^verbatim>\<open>timelineMarkers\<close> that \<^verbatim>\<open>loadAnimation\<close> assigns. Drawing the markers and the time
  display writes to the page only; of the drawing, the error it can raise is kept (see
  \<open>updateTimelineDisplay_throws\<close>). The scrubber is taken to hold the progress that
  \<^verbatim>\<open>animate\<close> assigns to it.
\<close>

record world =
  AnimationState :: animation_state
  ideas :: "nat list"
  heap :: heap
  sliderValue :: number
  durationSelectValue :: number
  speedMultiplier :: jsval
  pauseToggles :: nat
  alerts :: "string list"
  frameRequests :: "tick_env list"
  downloads :: "document list"
  animationData :: "loaded_animation option"
  timelineMarkersVar :: "marker list option"

definition ANIMATION_CONFIG_defaultDuration :: number where
  "ANIMATION_CONFIG_defaultDuration = num 10000"

definition initial_AnimationState :: animation_state where
  "initial_AnimationState =
     \<lparr>data = \<lparr>inPoint = Null, outPoint = Null, keyframes = [],
              duration = ANIMATION_CONFIG_defaultDuration,
              isRecording = False, isPlaying = False, currentTime = num 0, startTime = num 0\<rparr>,
      timelineMarkers = [], playbackStartTime = num 0, playbackDuration = num 0,
      currentPlaybackTime = num 0\<rparr>"

definition alert :: "string \<Rightarrow> world \<Rightarrow> world" where
  "alert msg w = w\<lparr>alerts := alerts w @ [msg]\<rparr>"

text \<open>\<^verbatim>\<open>AnimationState.reset()\<close>\<close>

definition reset :: "animation_state \<Rightarrow> animation_state" where
  "reset st =
     st\<lparr>data := (data st)\<lparr>keyframes := [], isRecording := False, isPlaying := False\<rparr>,
        timelineMarkers := []\<rparr>"

text \<open>\<^verbatim>\<open>AnimationState.updateDuration(duration)\<close>\<close>

definition updateDuration :: "number \<Rightarrow> animation_state \<Rightarrow> animation_state" where
  "updateDuration d st = st\<lparr>data := (data st)\<lparr>duration := d\<rparr>\<rparr>"

section \<open>Position capture\<close>

text \<open>\<^verbatim>\<open>ideas.map(idea => ({ ...idea }))\<close>: a new object for each entity, then a new array.\<close>

fun copy_each :: "nat list \<Rightarrow> heap \<Rightarrow> nat list \<times> heap" where
  "copy_each [] h = ([], h)"
| "copy_each (r # rs) h =
     (let (a, h1) = new_obj (objs h r) h;
          (as, h2) = copy_each rs h1
      in (a # as, h2))"

definition deepCopyIdeas :: "world \<Rightarrow> nat \<times> world" where
  "deepCopyIdeas w =
     (let (refs, h1) = copy_each (ideas w) (heap w);
          (a, h2) = new_arr refs h1
      in (a, w\<lparr>heap := h2\<rparr>))"

definition captureBubblePositions :: "world \<Rightarrow> nat \<times> world" where
  "captureBubblePositions w = deepCopyIdeas w"

section \<open>Timeline markers\<close>

definition addTimelineMarker :: "marker_type \<Rightarrow> jsval \<Rightarrow> animation_state \<Rightarrow> animation_state" where
  "addTimelineMarker ty t st =
     (let m = \<lparr>mtype = ty, mtime = t,
               mposition = js_mul (js_div (ToNumber t) (js_div (duration (data st)) (num 1000)))
                                  (num 100)\<rparr>
      in st\<lparr>timelineMarkers := filter (\<lambda>k. mtype k \<noteq> ty) (timelineMarkers st) @ [m]\<rparr>)"

text \<open>
  \<^verbatim>\<open>updateTimelineDisplay()\<close>, which \<^verbatim>\<open>addTimelineMarker\<close> calls last, redraws the markers.
  It writes to the page only, but it calls \<^verbatim>\<open>toFixed\<close> on the time of every marker, and
  that raises a \<^verbatim>\<open>TypeError\<close> when the time is \<^verbatim>\<open>null\<close> or undefined. The recorder
  passes numbers, and a marker with another time is a keyframe marker that
  \<^verbatim>\<open>loadAnimation\<close> has pushed: the recorder empties the marker list (Begin, End) or
  removes the keyframe markers (Add keyframe) before it redraws. The error is therefore
  modelled in \<^verbatim>\<open>loadAnimation\<close>, which catches it.
\<close>

definition updateTimelineDisplay_throws :: "animation_state \<Rightarrow> bool" where
  "updateTimelineDisplay_throws st =
     list_ex (\<lambda>m. case mtime m of Num n \<Rightarrow> False | _ \<Rightarrow> True) (timelineMarkers st)"

fun add_keyframe_markers :: "keyframe list \<Rightarrow> animation_state \<Rightarrow> animation_state" where
  "add_keyframe_markers [] st = st"
| "add_keyframe_markers (k # ks) st =
     add_keyframe_markers ks
       (if js_gt (time k) (num 0) \<and> js_lt (time k) (ToNumber (outPoint (data st)))
        then addTimelineMarker MarkKeyframe (Num (time k)) st else st)"

definition updateTimelineMarkers :: "animation_state \<Rightarrow> animation_state" where
  "updateTimelineMarkers st =
     (let st1 = st\<lparr>timelineMarkers := []\<rparr>;
          st2 = addTimelineMarker MarkIn (Num (num 0)) st1;
          st3 = addTimelineMarker MarkOut (outPoint (data st2)) st2
      in add_keyframe_markers (keyframes (data st3)) st3)"

section \<open>The recorder\<close>

text \<open>\<^verbatim>\<open>keyframes.findIndex(kf => kf.time === t)\<close>, \<open>None\<close> for \<open>-1\<close>.\<close>

fun findIndex_time :: "jsval \<Rightarrow> keyframe list \<Rightarrow> nat option" where
  "findIndex_time t [] = None"
| "findIndex_time t (k # ks) =
     (if (case t of Num n \<Rightarrow> js_eq (time k) n | _ \<Rightarrow> False) then Some 0
      else map_option Suc (findIndex_time t ks))"

definition stopPlayback :: "animation_state \<Rightarrow> animation_state" where
  "stopPlayback st = st\<lparr>data := (data st)\<lparr>isPlaying := False\<rparr>\<rparr>"

text \<open>
  The branch \<^verbatim>\<open>type === 'start'\<close> of \<^verbatim>\<open>recordState\<close>; \<open>dur\<close> is the parsed selector value.
  \<^verbatim>\<open>togglePauseButton\<close> is defined outside \<^verbatim>\<open>media.js\<close>; its calls are counted.
\<close>

definition record_start :: "number \<Rightarrow> world \<Rightarrow> world" where
  "record_start dur w =
     (let w1 = (if speedMultiplier w \<noteq> Undefined
                   \<and> (case speedMultiplier w of Num n \<Rightarrow> \<not> js_eq n (num 0) | _ \<Rightarrow> True)
                then w\<lparr>pauseToggles := Suc (pauseToggles w)\<rparr> else w);
          st1 = reset (AnimationState w1);
          st2 = st1\<lparr>data := (data st1)\<lparr>inPoint := Num (num 0),
                                         outPoint := Num (js_div dur (num 1000)),
                                         isRecording := True\<rparr>\<rparr>;
          (currentPositions, w2) = captureBubblePositions (w1\<lparr>AnimationState := st2\<rparr>);
          st3 = (AnimationState w2)\<lparr>data := (data (AnimationState w2))
                  \<lparr>keyframes := [\<lparr>time = num 0, positions = currentPositions\<rparr>,
                                 \<lparr>time = js_div dur (num 1000), positions = currentPositions\<rparr>]\<rparr>\<rparr>;
          st4 = addTimelineMarker MarkIn (Num (num 0)) st3;
          st5 = addTimelineMarker MarkOut (Num (js_div dur (num 1000))) st4
      in w2\<lparr>AnimationState := st5\<rparr>)"

text \<open>The branch \<^verbatim>\<open>type === 'end'\<close>.\<close>

definition record_end :: "number \<Rightarrow> world \<Rightarrow> world" where
  "record_end dur w =
     (if \<not> isRecording (data (AnimationState w))
      then alert ''Please start recording first (mark in point)'' w
      else
        let progress = sliderValue w;
            endTime = js_mul progress (js_div dur (num 1000));
            st0 = AnimationState w;
            st1 = st0\<lparr>data := (data st0)\<lparr>outPoint := Num endTime, isRecording := False\<rparr>\<rparr>;
            st2 = updateTimelineMarkers st1;
            (endPositions, w1) = captureBubblePositions (w\<lparr>AnimationState := st2\<rparr>);
            st3 = AnimationState w1;
            ks = keyframes (data st3);
            ks' = (case findIndex_time (outPoint (data st3)) ks of
                     Some i \<Rightarrow> ks[i := (ks ! i)\<lparr>positions := endPositions\<rparr>]
                   | None \<Rightarrow> ks @ [\<lparr>time = endTime, positions = endPositions\<rparr>])
        in w1\<lparr>AnimationState := st3\<lparr>data := (data st3)\<lparr>keyframes := ks'\<rparr>\<rparr>\<rparr>)"

text \<open>The branch \<^verbatim>\<open>type === 'keyframe'\<close>.\<close>

definition record_keyframe :: "number \<Rightarrow> world \<Rightarrow> world" where
  "record_keyframe dur w =
     (let w0 = (if isPlaying (data (AnimationState w))
                then w\<lparr>AnimationState := stopPlayback (AnimationState w)\<rparr> else w);
          progress = sliderValue w0;
          keyframeTime = js_mul progress (js_div dur (num 1000));
          maxTime = js_div dur (num 1000)
      in if js_le keyframeTime (num 0) \<or> js_ge keyframeTime maxTime
         then alert ''Keyframe must be between start and end of animation'' w0
         else
           let (keyframePositions, w1) = captureBubblePositions w0;
               kf = \<lparr>time = keyframeTime, positions = keyframePositions\<rparr>;
               st1 = AnimationState w1;
               st2 = (if \<not> isRecording (data st1)
                      then st1\<lparr>data := (data st1)\<lparr>isRecording := True, inPoint := Num (num 0),
                                                    outPoint := Num maxTime, keyframes := []\<rparr>\<rparr>
                      else st1);
               st3 = st2\<lparr>data := (data st2)\<lparr>keyframes := keyframes (data st2) @ [kf]\<rparr>\<rparr>
           in w1\<lparr>AnimationState := addTimelineMarker MarkKeyframe (Num keyframeTime) st3\<rparr>)"

text \<open>
  \<^verbatim>\<open>recordState(type)\<close>: the duration is read from the selector and stored before the
  type is looked at.
\<close>

definition recordState :: "string \<Rightarrow> world \<Rightarrow> world" where
  "recordState ty w =
     (let dur = durationSelectValue w;
          w1 = w\<lparr>AnimationState := updateDuration dur (AnimationState w)\<rparr>
      in if ty = ''start'' then record_start dur w1
         else if ty = ''end'' then record_end dur w1
         else if ty = ''keyframe'' then record_keyframe dur w1
         else w1)"

section \<open>The player\<close>

text \<open>
  The scan for the first adjacent pair of keyframes whose times enclose \<open>ct\<close>; without
  such a pair the first and the last keyframe are taken (the caller has checked that there
  are at least two).
\<close>

fun find_segment :: "number \<Rightarrow> keyframe list \<Rightarrow> (keyframe \<times> keyframe) option" where
  "find_segment ct (k1 # k2 # ks) =
     (if js_ge ct (time k1) \<and> js_le ct (time k2) then Some (k1, k2)
      else find_segment ct (k2 # ks))"
| "find_segment ct ks = None"

definition select_keyframes :: "number \<Rightarrow> keyframe list \<Rightarrow> keyframe \<times> keyframe" where
  "select_keyframes ct ks =
     (case find_segment ct ks of
        Some p \<Rightarrow> p
      | None \<Rightarrow> (ks ! 0, ks ! (length ks - 1)))"

text \<open>\<open>a + d * f\<close>\<close>

definition lerp :: "number \<Rightarrow> number \<Rightarrow> number \<Rightarrow> number" where
  "lerp a d f = js_add a (js_mul d f)"

text \<open>
  One round of the loop over the live entities, in the three blocks of the source: the
  position, the velocity, the radius. \<open>r\<close> is the live entity \<^verbatim>\<open>ideas[index]\<close>, \<open>s\<close> and
  \<open>e\<close> are \<^verbatim>\<open>startPos\<close> and \<^verbatim>\<open>endPos\<close>. Every read is from the store as the writes
  before it have left it.
\<close>

definition interpolate_position :: "number \<Rightarrow> nat \<Rightarrow> nat \<Rightarrow> nat \<Rightarrow> heap \<Rightarrow> heap" where
  "interpolate_position f s e r h =
     (let deltaX = js_sub (x (objs h e)) (x (objs h s));
          deltaY = js_sub (y (objs h e)) (y (objs h s));
          h1 = upd_obj r (\<lambda>i. i\<lparr>x := lerp (x (objs h s)) deltaX f\<rparr>) h
      in upd_obj r (\<lambda>i. i\<lparr>y := lerp (y (objs h1 s)) deltaY f\<rparr>) h1)"

definition interpolate_velocity :: "number \<Rightarrow> nat \<Rightarrow> nat \<Rightarrow> nat \<Rightarrow> heap \<Rightarrow> heap" where
  "interpolate_velocity f s e r h =
     (if vx (objs h s) \<noteq> Undefined \<and> vx (objs h e) \<noteq> Undefined then
        let deltaVX = js_sub (ToNumber (vx (objs h e))) (ToNumber (vx (objs h s)));
            deltaVY = js_sub (ToNumber (vy (objs h e))) (ToNumber (vy (objs h s)));
            h1 = upd_obj r (\<lambda>i. i\<lparr>vx := Num (lerp (ToNumber (vx (objs h s))) deltaVX f)\<rparr>) h
        in upd_obj r (\<lambda>i. i\<lparr>vy := Num (lerp (ToNumber (vy (objs h1 s))) deltaVY f)\<rparr>) h1
      else h)"

definition interpolate_radius :: "number \<Rightarrow> nat \<Rightarrow> nat \<Rightarrow> nat \<Rightarrow> heap \<Rightarrow> heap" where
  "interpolate_radius f s e r h =
     (if radius (objs h s) \<noteq> Undefined \<and> radius (objs h e) \<noteq> Undefined then
        let deltaRadius = js_sub (ToNumber (radius (objs h e))) (ToNumber (radius (objs h s)))
        in upd_obj r (\<lambda>i. i\<lparr>radius := Num (lerp (ToNumber (radius (objs h s))) deltaRadius f)\<rparr>) h
      else h)"

text \<open>
  \<open>sp\<close> and \<open>ep\<close> are the two snapshot arrays; an index beyond either of them reads
  \<^verbatim>\<open>undefined\<close>, and the round does nothing.
\<close>

definition interpolate_idea ::
  "number \<Rightarrow> nat list \<Rightarrow> nat list \<Rightarrow> nat \<Rightarrow> nat \<Rightarrow> heap \<Rightarrow> heap" where
  "interpolate_idea f sp ep index r h =
     (if index < length sp \<and> index < length ep then
        interpolate_radius f (sp ! index) (ep ! index) r
          (interpolate_velocity f (sp ! index) (ep ! index) r
             (interpolate_position f (sp ! index) (ep ! index) r h))
      else h)"

fun interpolate_from :: "number \<Rightarrow> nat list \<Rightarrow> nat list \<Rightarrow> nat \<Rightarrow> nat list \<Rightarrow> heap \<Rightarrow> heap" where
  "interpolate_from f sp ep index [] h = h"
| "interpolate_from f sp ep index (r # rs) h =
     interpolate_from f sp ep (Suc index) rs (interpolate_idea f sp ep index r h)"

definition segmentProgress :: "number \<Rightarrow> keyframe \<Rightarrow> keyframe \<Rightarrow> number" where
  "segmentProgress ct startKeyframe endKeyframe =
     js_div (js_sub ct (time startKeyframe)) (js_sub (time endKeyframe) (time startKeyframe))"

text \<open>
  \<^verbatim>\<open>interpolateBubblePositions(progress)\<close>. The \<open>positions\<close> of a keyframe is always an
  array here, so the test \<^verbatim>\<open>startPositions && endPositions\<close> holds.
\<close>

definition interpolateBubblePositions :: "number \<Rightarrow> world \<Rightarrow> world" where
  "interpolateBubblePositions progress w =
     (let d = data (AnimationState w) in
      if length (keyframes d) < 2 then w
      else
        let ct = js_mul progress (js_div (duration d) (num 1000));
            (startKeyframe, endKeyframe) = select_keyframes ct (keyframes d);
            f = segmentProgress ct startKeyframe endKeyframe;
            h = heap w
        in w\<lparr>heap := interpolate_from f (arrs h (positions startKeyframe))
                         (arrs h (positions endKeyframe)) 0 (ideas w) h\<rparr>)"

text \<open>The callback \<^verbatim>\<open>animate\<close>; \<open>now\<close> is what \<^verbatim>\<open>Date.now()\<close> returns in it.\<close>

definition tick_progress :: "tick_env \<Rightarrow> number \<Rightarrow> world \<Rightarrow> number" where
  "tick_progress env now w =
     js_min (js_div (js_sub now (playbackStartTime (AnimationState w))) (env_duration env)) (num 1)"

definition animate :: "tick_env \<Rightarrow> number \<Rightarrow> world \<Rightarrow> world" where
  "animate env now w =
     (if \<not> isPlaying (data (AnimationState w)) then w
      else
        let progress = tick_progress env now w;
            st1 = (AnimationState w)\<lparr>currentPlaybackTime :=
                     js_add (ToNumber (env_inPoint env))
                       (js_mul progress (js_sub (ToNumber (env_outPoint env))
                                                (ToNumber (env_inPoint env))))\<rparr>;
            w1 = w\<lparr>AnimationState := st1, sliderValue := progress\<rparr>;
            w2 = interpolateBubblePositions progress w1
        in if js_lt progress (num 1) then w2\<lparr>frameRequests := frameRequests w2 @ [env]\<rparr>
           else w2\<lparr>AnimationState := stopPlayback (AnimationState w2)\<rparr>)"

definition animateBubbles :: "number \<Rightarrow> number \<Rightarrow> world \<Rightarrow> world" where
  "animateBubbles dur now w =
     (if \<not> isPlaying (data (AnimationState w)) then w
      else animate \<lparr>env_duration = dur,
                    env_inPoint = inPoint (data (AnimationState w)),
                    env_outPoint = outPoint (data (AnimationState w)),
                    env_durationSeconds = js_div (duration (data (AnimationState w))) (num 1000)\<rparr>
             now w)"

text \<open>
  \<^verbatim>\<open>startPlayback()\<close>; \<open>now0\<close> is the clock reading stored as the start time, \<open>now1\<close> the
  reading of the first \<^verbatim>\<open>animate\<close>, which runs before \<^verbatim>\<open>startPlayback\<close> returns.
\<close>

definition startPlayback :: "number \<Rightarrow> number \<Rightarrow> world \<Rightarrow> world" where
  "startPlayback now0 now1 w =
     (let st = AnimationState w in
      if length (keyframes (data st)) < 2
      then alert ''Please set in point first to create animation (need at least 2 keyframes)'' w
      else if isPlaying (data st) then w\<lparr>AnimationState := stopPlayback st\<rparr>
      else
        let st1 = st\<lparr>data := (data st)\<lparr>isPlaying := True\<rparr>, playbackStartTime := now0\<rparr>;
            st2 = st1\<lparr>playbackDuration :=
                     js_mul (js_sub (ToNumber (outPoint (data st1))) (ToNumber (inPoint (data st1))))
                            (num 1000)\<rparr>
        in animateBubbles (playbackDuration st2) now1 (w\<lparr>AnimationState := st2\<rparr>))"

text \<open>A frame: the browser runs the oldest scheduled callback.\<close>

definition run_frame :: "number \<Rightarrow> world \<Rightarrow> world" where
  "run_frame now w =
     (case frameRequests w of
        [] \<Rightarrow> w
      | env # rest \<Rightarrow> animate env now (w\<lparr>frameRequests := rest\<rparr>))"

section \<open>Saving and loading\<close>

text \<open>
  \<^verbatim>\<open>JSON.stringify\<close> writes \<^verbatim>\<open>null\<close> for a number that is not finite, writes both zeros
  as \<^verbatim>\<open>0\<close>, and leaves an undefined field out, which reads back as undefined.
\<close>

fun json_number :: "number \<Rightarrow> jsval" where
  "json_number (Finite s q) = Num (Finite (s \<and> q \<noteq> 0) q)"
| "json_number (Infinity s) = Null"
| "json_number NaN = Null"

fun json_value :: "jsval \<Rightarrow> jsval" where
  "json_value (Num n) = json_number n"
| "json_value Null = Null"
| "json_value Undefined = Undefined"

definition json_entity :: "entity \<Rightarrow> doc_entity" where
  "json_entity e =
     \<lparr>doc_x = json_number (x e), doc_y = json_number (y e), doc_vx = json_value (vx e),
      doc_vy = json_value (vy e), doc_radius = json_value (radius e), doc_title = title e\<rparr>"

definition json_keyframe :: "heap \<Rightarrow> keyframe \<Rightarrow> doc_keyframe" where
  "json_keyframe h k =
     \<lparr>doc_time = json_number (time k),
      doc_positions = map (\<lambda>r. json_entity (objs h r)) (arrs h (positions k))\<rparr>"

text \<open>
  \<^verbatim>\<open>saveAnimation()\<close>; \<open>now\<close> is the clock reading and \<open>name\<close> the name built from the
  date.
\<close>

definition saveAnimation :: "number \<Rightarrow> string \<Rightarrow> world \<Rightarrow> world" where
  "saveAnimation now name w =
     (let d = data (AnimationState w) in
      if length (keyframes d) < 2
      then alert ''Please record an animation first (mark in and out points)'' w
      else w\<lparr>downloads := downloads w @
             [\<lparr>doc_inPoint = json_value (inPoint d), doc_outPoint = json_value (outPoint d),
               doc_keyframes = Some (map (json_keyframe (heap w)) (keyframes d)),
               doc_duration = json_number (duration d),
               doc_isRecording = isRecording d, doc_isPlaying = isPlaying d,
               doc_currentTime = json_number (currentTime d),
               doc_startTime = json_number (startTime d),
               doc_timestamp = json_number now, doc_name = name\<rparr>]\<rparr>)"

text \<open>
  The loop over the loaded keyframes: each gets a marker, and the redraw after it may raise
  the error, which ends the loop. The result says whether it did.
\<close>

fun add_loaded_markers :: "doc_keyframe list \<Rightarrow> animation_state \<Rightarrow> bool \<times> animation_state" where
  "add_loaded_markers [] st = (False, st)"
| "add_loaded_markers (k # ks) st =
     (let st1 = addTimelineMarker MarkKeyframe (doc_time k) st
      in if updateTimelineDisplay_throws st1 then (True, st1) else add_loaded_markers ks st1)"

text \<open>
  The handler of \<^verbatim>\<open>loadAnimation()\<close> for a document that has been read and parsed. The
  loaded object is assigned to the variable \<^verbatim>\<open>animationData\<close>, the empty marker list to
  the variable \<^verbatim>\<open>timelineMarkers\<close>; the markers are then added through
  \<^verbatim>\<open>addTimelineMarker\<close>, which works on \<^verbatim>\<open>AnimationState\<close>. An error raised by a redraw
  is caught: the handler shows \<^verbatim>\<open>Error loading animation file\<close> and keeps what it has
  changed by then.

  The duration selector is assigned the loaded duration. The number its value parses to
  afterwards depends on the options the page offers, which are not part of \<^verbatim>\<open>media.js\<close>;
  it is the parameter \<open>selected\<close>.
\<close>

definition loadAnimation :: "document \<Rightarrow> number \<Rightarrow> world \<Rightarrow> world" where
  "loadAnimation loadedAnimation selected w =
     (case doc_keyframes loadedAnimation of
        None \<Rightarrow> alert ''Invalid animation file: missing keyframes'' w
      | Some ks \<Rightarrow>
          if length ks < 2 then alert ''Invalid animation file: missing keyframes'' w
          else
            let loaded = \<lparr>ld_inPoint = js_or (doc_inPoint loadedAnimation) (Num (num 0)),
                          ld_outPoint = js_or (doc_outPoint loadedAnimation) (Num (num 10)),
                          ld_keyframes = ks,
                          ld_duration = js_or (doc_duration loadedAnimation) (Num (num 10000)),
                          ld_isRecording = False, ld_isPlaying = False,
                          ld_currentTime = num 0, ld_startTime = num 0\<rparr>;
                w1 = w\<lparr>animationData := Some loaded,
                       durationSelectValue := selected,
                       timelineMarkersVar := Some []\<rparr>;
                (thrown, st1) = add_loaded_markers (ld_keyframes loaded) (AnimationState w1)
            in if thrown then alert ''Error loading animation file'' (w1\<lparr>AnimationState := st1\<rparr>)
               else
                 let st2 = addTimelineMarker MarkIn (Num (num 0)) st1
                 in if updateTimelineDisplay_throws st2
                    then alert ''Error loading animation file'' (w1\<lparr>AnimationState := st2\<rparr>)
                    else
                      let st3 = addTimelineMarker MarkOut (ld_outPoint loaded) st2
                      in if updateTimelineDisplay_throws st3
                         then alert ''Error loading animation file'' (w1\<lparr>AnimationState := st3\<rparr>)
                         else w1\<lparr>AnimationState := st3\<rparr>)"

section \<open>Sample states\<close>

text \<open>
  One live entity at \<open>(10, 20)\<close>, the state as created at start-up, the duration selector
  at 10000 ms.
\<close>

definition example_entity :: entity where
  "example_entity =
     \<lparr>x = num 10, y = num 20, vx = Undefined, vy = Undefined, radius = Undefined,
      title = ''idea''\<rparr>"

definition example_world :: world where
  "example_world =
     \<lparr>AnimationState = initial_AnimationState, ideas = [0],
      heap = \<lparr>objs = (\<lambda>a. example_entity), arrs = (\<lambda>a. []), objCount = 1, arrCount = 0\<rparr>,
      sliderValue = num 0, durationSelectValue = num 10000, speedMultiplier = Undefined,
      pauseToggles = 0, alerts = [], frameRequests = [], downloads = [],
      animationData = None, timelineMarkersVar = None\<rparr>"

text \<open>The sample state after Begin, and after a following End with the scrubber at one half.\<close>

definition w_begun :: world where
  "w_begun = recordState ''start'' example_world"

definition w_ended :: world where
  "w_ended = recordState ''end'' (w_begun\<lparr>sliderValue := num (1 / 2)\<rparr>)"

text \<open>A document without a \<^verbatim>\<open>keyframes\<close> field.\<close>

definition empty_document :: document where
  "empty_document =
     \<lparr>doc_inPoint = Undefined, doc_outPoint = Undefined, doc_keyframes = None,
      doc_duration = Undefined, doc_isRecording = False, doc_isPlaying = False,
      doc_currentTime = Undefined, doc_startTime = Undefined, doc_timestamp = Undefined,
      doc_name = []\<rparr>"

text \<open>A sample state whose entity has a \<open>vx\<close> and no \<open>vy\<close>, and the state after Begin in it.\<close>

definition example_world_vx :: world where
  "example_world_vx =
     example_world\<lparr>heap := (heap example_world)\<lparr>objs := (\<lambda>a. example_entity\<lparr>vx := Num (num 1)\<rparr>)\<rparr>\<rparr>"

definition w_vx_begun :: world where
  "w_vx_begun = recordState ''start'' example_world_vx"

text \<open>
  The sample state after Begin and an End with the scrubber at the end, the state after
  playback has been started in it at clock reading 0, the callback environment of that
  playback, and the state after Begin and an End with the scrubber at 0.
\<close>

definition w_done :: world where
  "w_done = recordState ''end'' (w_begun\<lparr>sliderValue := num 1\<rparr>)"

definition w_playing :: world where
  "w_playing = startPlayback (num 0) (num 0) w_done"

definition w_zero :: world where
  "w_zero = recordState ''end'' (w_begun\<lparr>sliderValue := num 0\<rparr>)"

definition example_env :: tick_env where
  "example_env = \<lparr>env_duration = num 10000, env_inPoint = Num (num 0),
                   env_outPoint = Num (num 10), env_durationSeconds = num 10\<rparr>"

text \<open>The sample state after two keyframes added at the same scrubber position.\<close>

definition w_dup :: world where
  "w_dup = recordState ''keyframe'' (recordState ''keyframe'' (w_ended\<lparr>sliderValue := num (1 / 2)\<rparr>))"

text \<open>
  The sample state in which the entity has moved to \<open>x = 50\<close> between Begin and an End at the
  end of the timeline; and the same with an entity that starts at \<open>x = 2 ^ 54\<close> and has moved
  to \<open>x = 1\<close>.
\<close>

definition w_moved :: world where
  "w_moved = recordState ''end''
     (w_begun\<lparr>sliderValue := num 1, heap := upd_obj 0 (\<lambda>e. e\<lparr>x := num 50\<rparr>) (heap w_begun)\<rparr>)"

definition example_world_far :: world where
  "example_world_far =
     example_world\<lparr>heap := (heap example_world)
       \<lparr>objs := (\<lambda>a. example_entity\<lparr>x := num 18014398509481984\<rparr>)\<rparr>\<rparr>"

definition w_far_begun :: world where
  "w_far_begun = recordState ''start'' example_world_far"

definition w_far :: world where
  "w_far = recordState ''end''
     (w_far_begun\<lparr>sliderValue := num 1,
                  heap := upd_obj 0 (\<lambda>e. e\<lparr>x := num 1\<rparr>) (heap w_far_begun)\<rparr>)"

text \<open>
  The sample state after Begin, a keyframe added at one quarter with the entity moved to
  \<open>x = 50\<close>, and a keyframe added at three quarters with the entity moved to \<open>x = 90\<close>: the
  keyframes are stored in the order 0, 10, 2.5, 7.5.
\<close>

definition w_quarter :: world where
  "w_quarter = recordState ''keyframe''
     (w_begun\<lparr>sliderValue := num (1 / 4), heap := upd_obj 0 (\<lambda>e. e\<lparr>x := num 50\<rparr>) (heap w_begun)\<rparr>)"

definition w_unsorted :: world where
  "w_unsorted = recordState ''keyframe''
     (w_quarter\<lparr>sliderValue := num (3 / 4), heap := upd_obj 0 (\<lambda>e. e\<lparr>x := num 90\<rparr>) (heap w_quarter)\<rparr>)"

text \<open>
  The sample state in which the entity has moved from \<open>x = 0.5\<close> to \<open>x = 1.5\<close> between Begin
  and an End at the end of the timeline.
\<close>

definition example_world_half :: world where
  "example_world_half =
     example_world\<lparr>heap := (heap example_world)\<lparr>objs := (\<lambda>a. example_entity\<lparr>x := num (1 / 2)\<rparr>)\<rparr>\<rparr>"

definition w_half_begun :: world where
  "w_half_begun = recordState ''start'' example_world_half"

definition w_half :: world where
  "w_half = recordState ''end''
     (w_half_begun\<lparr>sliderValue := num 1,
                   heap := upd_obj 0 (\<lambda>e. e\<lparr>x := num (3 / 2)\<rparr>) (heap w_half_begun)\<rparr>)"

text \<open>The document saved from the sample state after Begin and End.\<close>

definition saved_document :: document where
  "saved_document = last (downloads (saveAnimation (num 0) ''Animation'' w_done))"

section \<open>Rounding\<close>

lemma ilog2_bounds:
  assumes "0 < q"
  shows "2 powi (ilog2 q) \<le> q" and "q < 2 powi (ilog2 q + 1)"
proof -
  have "2 powi (ilog2 q) \<le> q \<and> q < 2 powi (ilog2 q + 1)"
  proof (cases "1 \<le> q")
    case True
    define n where "n = \<lfloor>q\<rfloor>"
    have n: "0 < n" using True by (simp add: n_def)
    have b: "1 \<le> bitlen n" using n by (simp add: bitlen_alt_def)
    from bitlen_bounds[OF n] have lo: "2 ^ nat (bitlen n - 1) \<le> n" and hi: "n < 2 ^ nat (bitlen n)"
      by auto
    have il: "ilog2 q = bitlen n - 1" using True by (simp add: ilog2_def n_def)
    have "(2::real) powi (bitlen n - 1) = 2 ^ nat (bitlen n - 1)"
      using b by (simp add: power_int_def)
    also have "\<dots> = of_int (2 ^ nat (bitlen n - 1))" by simp
    also have "\<dots> \<le> of_int n" using lo by (simp only: of_int_le_iff)
    also have "\<dots> \<le> q" by (simp add: n_def)
    finally have 1: "2 powi (ilog2 q) \<le> q" by (simp add: il)
    have "n + 1 \<le> 2 ^ nat (bitlen n)" using hi by simp
    then have "real_of_int (n + 1) \<le> of_int (2 ^ nat (bitlen n))" by (simp only: of_int_le_iff)
    moreover have "q < of_int (n + 1)" by (simp add: n_def)
    ultimately have "q < 2 ^ nat (bitlen n)" by simp
    also have "\<dots> = 2 powi (bitlen n)" using b by (simp add: power_int_def)
    finally have 2: "q < 2 powi (ilog2 q + 1)" by (simp add: il)
    from 1 2 show ?thesis by simp
  next
    case False
    define m where "m = \<lceil>1 / q\<rceil>"
    have r: "1 < 1 / q" using False assms by simp
    have m2: "2 \<le> m" using r by (simp add: m_def le_ceiling_iff)
    then have m1: "0 < m - 1" by simp
    define k where "k = bitlen (m - 1)"
    have b: "1 \<le> k" using m1 by (simp add: bitlen_alt_def k_def)
    from bitlen_bounds[OF m1] have lo: "2 ^ nat (k - 1) \<le> m - 1" and hi: "m - 1 < 2 ^ nat k"
      by (auto simp: k_def)
    have il: "ilog2 q = - k" using False by (simp add: ilog2_def m_def k_def)
    have "1 / q \<le> of_int m" by (simp add: m_def)
    also have "of_int m \<le> real_of_int (2 ^ nat k)"
    proof -
      have "m \<le> 2 ^ nat k" using hi by simp
      then show ?thesis by (simp only: of_int_le_iff)
    qed
    finally have "1 / q \<le> 2 ^ nat k" by simp
    then have "1 \<le> 2 ^ nat k * q" using assms by (simp add: field_simps)
    then have "1 / 2 ^ nat k \<le> q" by (simp add: field_simps)
    moreover have "(2::real) powi (- k) = 1 / 2 ^ nat k" using b by (simp add: power_int_def field_simps)
    ultimately have 1: "2 powi (ilog2 q) \<le> q" by (simp add: il)
    have "real_of_int (2 ^ nat (k - 1)) \<le> of_int (m - 1)" using lo by (simp only: of_int_le_iff)
    moreover have "of_int (m - 1) < 1 / q" by (simp add: m_def) linarith
    ultimately have "2 ^ nat (k - 1) < 1 / q" by simp
    then have "q * 2 ^ nat (k - 1) < 1" using assms by (simp add: field_simps)
    then have "q < 1 / 2 ^ nat (k - 1)" by (simp add: field_simps)
    moreover have "(2::real) powi (- k + 1) = 1 / 2 ^ nat (k - 1)"
    proof (cases "k = 1")
      case True then show ?thesis by simp
    next
      case False
      then have "- k + 1 < 0" using b by simp
      then show ?thesis by (simp add: power_int_def field_simps)
    qed
    ultimately have 2: "q < 2 powi (ilog2 q + 1)" by (simp add: il)
    from 1 2 show ?thesis by simp
  qed
  then show "2 powi (ilog2 q) \<le> q" and "q < 2 powi (ilog2 q + 1)" by simp_all
qed

lemma ilog2_unique:
  assumes "0 < q" "2 powi k \<le> q" "q < 2 powi (k + 1)"
  shows "ilog2 q = k"
proof (rule ccontr)
  assume ne: "ilog2 q \<noteq> k"
  note b = ilog2_bounds[OF assms(1)]
  show False
  proof (cases "ilog2 q < k")
    case True
    then have "ilog2 q + 1 \<le> k" by simp
    then have "(2::real) powi (ilog2 q + 1) \<le> 2 powi k" by (intro power_int_increasing) simp_all
    with b(2) assms(2) show False by simp
  next
    case False
    with ne have "k + 1 \<le> ilog2 q" by simp
    then have "(2::real) powi (k + 1) \<le> 2 powi (ilog2 q)" by (intro power_int_increasing) simp_all
    with b(1) assms(3) show False by simp
  qed
qed

lemma round_half_even_of_int: "round_half_even (of_int n) = n"
  by (simp add: round_half_even_def)

lemma int_less_pow_real: "(m::int) < 2 ^ k \<Longrightarrow> real_of_int m < 2 ^ k"
proof -
  assume "m < 2 ^ k"
  then have "real_of_int m < real_of_int (2 ^ k)" by (simp only: of_int_less_iff)
  then show ?thesis by simp
qed

lemma powi2_less_iff: "(2::real) powi a < 2 powi b \<longleftrightarrow> a < b"
proof
  assume l: "(2::real) powi a < 2 powi b"
  show "a < b"
  proof (rule ccontr)
    assume "\<not> a < b"
    then have "b \<le> a" by simp
    then have "(2::real) powi b \<le> 2 powi a" by (rule power_int_increasing) simp
    with l show False by simp
  qed
next
  assume "a < b"
  then show "(2::real) powi a < 2 powi b" by (rule power_int_strict_increasing) simp
qed

lemma powi2_le_iff: "(2::real) powi a \<le> 2 powi b \<longleftrightarrow> a \<le> b"
  using powi2_less_iff[of b a] by (simp only: not_less[symmetric])

lemma rnd_exact:
  assumes q: "0 < q" and rep: "q = of_int m * 2 powi e" and m: "m < 2 ^ 53"
    and e: "- 1074 \<le> e" and ov: "q < 2 ^ 1024"
  shows "rnd s q = Finite s q"
proof -
  define c where "c = max (ilog2 q) (- 1022) - 52"
  have p: "(0::real) < 2 powi e" by simp
  have "2 powi (ilog2 q) \<le> q" by (rule ilog2_bounds[OF q])
  also have "q < 2 ^ 53 * 2 powi e"
    unfolding rep using int_less_pow_real[OF m] p by (rule mult_strict_right_mono)
  also have "\<dots> = 2 powi (e + 53)"
  proof -
    have "(2::real) powi (e + 53) = 2 powi e * 2 powi 53" by (rule power_int_add) simp
    moreover have "(2::real) powi 53 = 2 ^ 53" by (rule power_int_numeral)
    ultimately show ?thesis by (simp only: mult.commute)
  qed
  finally have "(2::real) powi (ilog2 q) < 2 powi (e + 53)" .
  then have "ilog2 q < e + 53" by (simp only: powi2_less_iff)
  then have ce: "c \<le> e" using e by (simp add: c_def)
  have d: "(2::real) powi (e - c) = 2 ^ nat (e - c)" using ce by (simp add: power_int_def)
  have "q / 2 powi c = of_int m * 2 powi (e - c)" by (simp add: rep power_int_diff)
  also have "\<dots> = of_int (m * 2 ^ nat (e - c))" by (simp only: d) simp
  finally have "round_half_even (q / 2 powi c) = m * 2 ^ nat (e - c)"
    by (simp only: round_half_even_of_int)
  then have "real_of_int (round_half_even (q / 2 powi c)) * 2 powi c = of_int m * 2 powi (e - c) * 2 powi c"
    by (simp only: d) simp
  also have "\<dots> = q" by (simp add: rep power_int_diff)
  finally have r: "of_int (round_half_even (q / 2 powi c)) * 2 powi c = q" .
  have q0: "(q = 0) = False" using q by simp
  have ov': "(2 ^ 1024 \<le> q) = False" using ov by (simp only: not_le[symmetric] simp_thms)
  show ?thesis
    unfolding rnd_def Let_def c_def[symmetric] r by (simp only: q0 ov' if_False)
qed


lemma rnd_nat: "n < 2 ^ 53 \<Longrightarrow> rnd s (real n) = Finite s (real n)"
proof (cases "n = 0")
  case True then show ?thesis by (simp add: rnd_def)
next
  case False
  assume n: "n < 2 ^ 53"
  have i: "int n < 2 ^ 53" using n by (metis of_nat_less_iff of_nat_numeral of_nat_power)
  then have "real n < 2 ^ 53" using int_less_pow_real[OF i] by simp
  also have "\<dots> < (2::real) ^ 1024" by (rule power_strict_increasing) simp_all
  finally have ov: "real n < 2 ^ 1024" .
  have r: "real n = of_int (int n) * 2 powi 0" by simp
  show ?thesis
    by (rule rnd_exact[OF _ r i _ ov]) (use False in simp_all)
qed

section \<open>Capture and the store\<close>

lemma copy_each_frame:
  "arrs (snd (copy_each rs h)) = arrs h \<and> arrCount (snd (copy_each rs h)) = arrCount h
   \<and> objCount (snd (copy_each rs h)) = objCount h + length rs
   \<and> fst (copy_each rs h) = [objCount h..<objCount h + length rs]
   \<and> (\<forall>a<objCount h. objs (snd (copy_each rs h)) a = objs h a)"
proof (induction rs arbitrary: h)
  case Nil
  show ?case by simp
next
  case (Cons r rs)
  define h1 where "h1 = snd (new_obj (objs h r) h)"
  have h1: "arrs h1 = arrs h" "arrCount h1 = arrCount h" "objCount h1 = Suc (objCount h)"
    "\<And>a. a < objCount h \<Longrightarrow> objs h1 a = objs h a"
    by (simp_all add: h1_def new_obj_def)
  have c: "copy_each (r # rs) h = (objCount h # fst (copy_each rs h1), snd (copy_each rs h1))"
    by (simp add: h1_def new_obj_def split_beta Let_def)
  have u: "[objCount h..<objCount h + length (r # rs)] = objCount h # [objCount h1..<objCount h1 + length rs]"
    by (subst upt_conv_Cons) (simp_all add: h1)
  from Cons.IH[of h1] show ?case
    unfolding c u by (simp add: h1)
qed

lemma copy_each_values:
  assumes "\<forall>r\<in>set rs. r < objCount h"
  shows "map (objs (snd (copy_each rs h))) (fst (copy_each rs h)) = map (objs h) rs"
  using assms
proof (induction rs arbitrary: h)
  case Nil
  show ?case by simp
next
  case (Cons r rs)
  define h1 where "h1 = snd (new_obj (objs h r) h)"
  have h1: "objCount h1 = Suc (objCount h)" "objs h1 (objCount h) = objs h r"
    "\<And>a. a < objCount h \<Longrightarrow> objs h1 a = objs h a"
    by (simp_all add: h1_def new_obj_def)
  have c: "copy_each (r # rs) h = (objCount h # fst (copy_each rs h1), snd (copy_each rs h1))"
    by (simp add: h1_def new_obj_def split_beta Let_def)
  have wf1: "\<forall>r\<in>set rs. r < objCount h1" using Cons.prems by (auto simp: h1)
  have keep: "objs (snd (copy_each rs h1)) (objCount h) = objs h1 (objCount h)"
    using copy_each_frame[of rs h1] by (simp add: h1)
  have "map (objs h1) rs = map (objs h) rs" using Cons.prems by (auto simp: h1)
  with Cons.IH[OF wf1] keep show ?case
    unfolding c by (simp add: h1)
qed

lemma capture_result:
  "captureBubblePositions w =
     (arrCount (heap w),
      w\<lparr>heap := (snd (copy_each (ideas w) (heap w)))
           \<lparr>arrs := (arrs (heap w))(arrCount (heap w) := [objCount (heap w)..<objCount (heap w) + length (ideas w)]),
            arrCount := Suc (arrCount (heap w))\<rparr>\<rparr>)"
  using copy_each_frame[of "ideas w" "heap w"]
  by (simp add: captureBubblePositions_def deepCopyIdeas_def split_beta new_arr_def Let_def)

lemma record_start_keyframes:
  "keyframes (data (AnimationState (recordState ''start'' w))) =
     [\<lparr>time = num 0, positions = arrCount (heap w)\<rparr>,
      \<lparr>time = js_div (durationSelectValue w) (num 1000), positions = arrCount (heap w)\<rparr>]"
  by (simp add: recordState_def record_start_def capture_result split_beta Let_def
      addTimelineMarker_def)

section \<open>The recorder: Begin\<close>

text \<open>
  C2 (as the code has it). After Begin with the selector at duration \<open>D\<close> there are exactly
  two keyframes, the first at time 0 and the second at time \<open>D / 1000\<close>, and both refer to
  one and the same snapshot array: the two snapshots are the same object, not two equal
  ones.
\<close>

theorem begin_invariant:
  "length (keyframes (data (AnimationState (recordState ''start'' w)))) = 2
   \<and> time (keyframes (data (AnimationState (recordState ''start'' w))) ! 0) = num 0
   \<and> time (keyframes (data (AnimationState (recordState ''start'' w))) ! 1)
       = js_div (durationSelectValue w) (num 1000)
   \<and> positions (keyframes (data (AnimationState (recordState ''start'' w))) ! 0)
       = positions (keyframes (data (AnimationState (recordState ''start'' w))) ! 1)"
  by (simp add: record_start_keyframes)

text \<open>
  C2 as stated fails: in the sample state the two snapshots of Begin are not
  pointer-distinct.
\<close>

theorem begin_snapshots_not_distinct:
  "\<not> (length (keyframes (data (AnimationState (recordState ''start'' example_world)))) = 2
      \<and> time (keyframes (data (AnimationState (recordState ''start'' example_world))) ! 0) = num 0
      \<and> time (keyframes (data (AnimationState (recordState ''start'' example_world))) ! 1)
          = js_div (num 10000) (num 1000)
      \<and> positions (keyframes (data (AnimationState (recordState ''start'' example_world))) ! 0)
          \<noteq> positions (keyframes (data (AnimationState (recordState ''start'' example_world))) ! 1))"
  by (simp add: record_start_keyframes)

section \<open>Evaluation of the samples\<close>

lemma rnd_numeral:
  "(numeral k :: nat) < 2 ^ 53 \<Longrightarrow> rnd s (numeral k) = Finite s (numeral k)"
  using rnd_nat[of "numeral k" s] by simp

lemma ev1: "js_div (num 10000) (num 1000) = num 10"
  by (simp add: num_def rnd_numeral)

lemma ev2: "js_mul (num (1 / 2)) (num 10) = num 5"
  by (simp add: num_def rnd_numeral)

lemma num_simps:
  "js_lt (num a) (num b) = (a < b)"
  "js_gt (num a) (num b) = (b < a)"
  "js_le (num a) (num b) = (a \<le> b)"
  "js_ge (num a) (num b) = (b \<le> a)"
  "js_eq (num a) (num b) = (a = b)"
  "(num a = num b) = (a = b)"
  "num a \<noteq> NaN"
  "NaN \<noteq> num a"
  "is_zero (num a) = (a = 0)"
  "is_finite (num a)"
  by (auto simp: num_def signed_def js_gt_def js_le_def js_ge_def js_eq_def)

lemma begun_eval:
  "keyframes (data (AnimationState w_begun)) = [\<lparr>time = num 0, positions = 0\<rparr>, \<lparr>time = num 10, positions = 0\<rparr>]"
  "outPoint (data (AnimationState w_begun)) = Num (num 10)"
  "isRecording (data (AnimationState w_begun))"
  "durationSelectValue w_begun = num 10000"
  "arrCount (heap w_begun) = 1"
  by (simp_all add: w_begun_def recordState_def record_start_def capture_result split_beta Let_def
      addTimelineMarker_def example_world_def ev1 reset_def updateDuration_def initial_AnimationState_def)

lemma rnd_dyadic:
  assumes m: "m < 2 ^ 53" and k: "k \<le> 1074"
  shows "rnd s (real m / 2 ^ k) = Finite s (real m / 2 ^ k)"
proof (cases "m = 0")
  case True then show ?thesis by (simp add: rnd_def)
next
  case False
  have i: "int m < 2 ^ 53" using m by (metis of_nat_less_iff of_nat_numeral of_nat_power)
  have "real m / 2 ^ k \<le> real m" by (simp add: field_simps mult_le_cancel_left1)
  also have "real m < 2 ^ 53" using int_less_pow_real[OF i] by simp
  also have "\<dots> < (2::real) ^ 1024" by (rule power_strict_increasing) simp_all
  finally have ov: "real m / 2 ^ k < 2 ^ 1024" .
  have r: "real m / 2 ^ k = of_int (int m) * 2 powi (- int k)"
    by (simp add: power_int_minus field_simps)
  show ?thesis
    by (rule rnd_exact[OF _ r i _ ov]) (use False k in simp_all)
qed

lemma ev3: "js_mul (num (3 / 4)) (num 10) = num (15 / 2)"
  using rnd_dyadic[of 15 1 False] by (simp add: num_def)

lemma ev0: "js_mul (num 0) (num 10) = num 0"
  by (simp add: num_def rnd_def)

lemma ended_eval:
  "keyframes (data (AnimationState w_ended))
     = [\<lparr>time = num 0, positions = 0\<rparr>, \<lparr>time = num 10, positions = 0\<rparr>,
        \<lparr>time = num 5, positions = 1\<rparr>]"
  "outPoint (data (AnimationState w_ended)) = Num (num 5)"
  "isRecording (data (AnimationState w_ended)) = False"
  "isPlaying (data (AnimationState w_ended)) = False"
  "durationSelectValue w_ended = num 10000"
  "arrCount (heap w_ended) = 2"
  "alerts w_ended = []"
  by (simp_all add: w_ended_def recordState_def record_end_def capture_result split_beta Let_def begun_eval
      updateDuration_def updateTimelineMarkers_def addTimelineMarker_def ev1 ev2
      num_simps w_begun_def record_start_def example_world_def reset_def initial_AnimationState_def)

lemma keyframe_rejected:
  assumes "js_le (js_mul (sliderValue w) (js_div (durationSelectValue w) (num 1000))) (num 0)
         \<or> js_ge (js_mul (sliderValue w) (js_div (durationSelectValue w) (num 1000)))
                  (js_div (durationSelectValue w) (num 1000))"
  shows "recordState ''keyframe'' w =
           w\<lparr>AnimationState := (AnimationState w)\<lparr>data := (data (AnimationState w))
                 \<lparr>duration := durationSelectValue w, isPlaying := False\<rparr>\<rparr>,
             alerts := alerts w @ [''Keyframe must be between start and end of animation'']\<rparr>"
proof -
  obtain d st where st: "AnimationState w = st" and d: "data st = d" by simp
  show ?thesis
    using assms
    by (cases d) (auto simp: recordState_def record_keyframe_def Let_def updateDuration_def
        stopPlayback_def alert_def st d)
qed

section \<open>Capture fidelity\<close>

lemma capture_snapshot:
  assumes wf: "\<forall>r\<in>set (ideas w). r < objCount (heap w)"
  shows "arrs (heap (snd (captureBubblePositions w))) (fst (captureBubblePositions w))
           = [objCount (heap w)..<objCount (heap w) + length (ideas w)]"
    and "map (objs (heap (snd (captureBubblePositions w))))
           [objCount (heap w)..<objCount (heap w) + length (ideas w)]
           = map (objs (heap w)) (ideas w)"
    and "\<forall>a<objCount (heap w). objs (heap (snd (captureBubblePositions w))) a = objs (heap w) a"
proof -
  show "arrs (heap (snd (captureBubblePositions w))) (fst (captureBubblePositions w))
           = [objCount (heap w)..<objCount (heap w) + length (ideas w)]"
    by (simp add: capture_result)
  show "map (objs (heap (snd (captureBubblePositions w))))
           [objCount (heap w)..<objCount (heap w) + length (ideas w)]
           = map (objs (heap w)) (ideas w)"
    using copy_each_values[OF wf] copy_each_frame[of "ideas w" "heap w"]
    by (simp add: capture_result)
  show "\<forall>a<objCount (heap w). objs (heap (snd (captureBubblePositions w))) a = objs (heap w) a"
    using copy_each_frame[of "ideas w" "heap w"] by (simp add: capture_result)
qed

text \<open>
  C8. In a store without dangling references, capturing the live entities returns an
  array that did not exist before, of the length of the entity list, whose elements are
  objects equal to the entities field by field, none of them one of the live entities;
  and whatever is written to a live entity afterwards, the snapshot still holds the
  captured values.
\<close>

theorem capture_fidelity:
  assumes wf: "\<forall>r\<in>set (ideas w). r < objCount (heap w)"
  shows "arrCount (heap w) \<le> fst (captureBubblePositions w)
    \<and> length (arrs (heap (snd (captureBubblePositions w))) (fst (captureBubblePositions w)))
        = length (ideas w)
    \<and> map (objs (heap (snd (captureBubblePositions w))))
          (arrs (heap (snd (captureBubblePositions w))) (fst (captureBubblePositions w)))
        = map (objs (heap w)) (ideas w)
    \<and> set (arrs (heap (snd (captureBubblePositions w))) (fst (captureBubblePositions w)))
          \<inter> set (ideas w) = {}
    \<and> (\<forall>r\<in>set (ideas w). \<forall>f.
          map (objs (upd_obj r f (heap (snd (captureBubblePositions w)))))
            (arrs (upd_obj r f (heap (snd (captureBubblePositions w))))
               (fst (captureBubblePositions w)))
          = map (objs (heap w)) (ideas w))"
proof -
  note s = capture_snapshot[OF wf]
  have d: "set [objCount (heap w)..<objCount (heap w) + length (ideas w)] \<inter> set (ideas w) = {}"
    using wf by auto
  have i: "map (objs (upd_obj r f (heap (snd (captureBubblePositions w)))))
            [objCount (heap w)..<objCount (heap w) + length (ideas w)]
          = map (objs (heap w)) (ideas w)" if "r \<in> set (ideas w)" for r f
  proof -
    have "r < objCount (heap w)" using wf that by simp
    then have "map (objs (upd_obj r f (heap (snd (captureBubblePositions w)))))
            [objCount (heap w)..<objCount (heap w) + length (ideas w)]
         = map (objs (heap (snd (captureBubblePositions w))))
            [objCount (heap w)..<objCount (heap w) + length (ideas w)]"
      by (simp add: upd_obj_def)
    then show ?thesis by (simp only: s(2))
  qed
  have a: "\<And>r f. arrs (upd_obj r f (heap (snd (captureBubblePositions w)))) = arrs (heap (snd (captureBubblePositions w)))"
    by (simp add: upd_obj_def)
  show ?thesis
    unfolding a s(1) using s(2) d i by (simp add: capture_result)
qed

text \<open>The sample state has one entity; its snapshot has one element, equal to it.\<close>

theorem capture_fidelity_witness:
  "ideas example_world = [0] \<and> 0 < objCount (heap example_world)
   \<and> length (arrs (heap (snd (captureBubblePositions example_world)))
        (fst (captureBubblePositions example_world))) = 1
   \<and> map (objs (heap (snd (captureBubblePositions example_world))))
          (arrs (heap (snd (captureBubblePositions example_world)))
             (fst (captureBubblePositions example_world)))
        = [example_entity]
   \<and> set (arrs (heap (snd (captureBubblePositions example_world)))
          (fst (captureBubblePositions example_world))) \<inter> {0} = {}"
proof -
  have h: "\<forall>r\<in>set (ideas example_world). r < objCount (heap example_world)"
    by (simp add: example_world_def)
  show ?thesis
    using capture_fidelity[OF h] by (simp add: example_world_def)
qed

section \<open>The recorder: End\<close>

text \<open>
  C3 at the sample state: Begin with the selector at 10000 ms, then End with the scrubber
  at one half. End stores the new out point 5 before it looks for the out keyframe, finds
  no keyframe at time 5 and appends one; the keyframe at the old out point 10 keeps the
  snapshot of Begin (array 0), the fresh snapshot (array 1) is in the third keyframe.
\<close>

theorem end_keeps_old_out_keyframe:
  "keyframes (data (AnimationState (recordState ''end'' (w_begun\<lparr>sliderValue := num (1 / 2)\<rparr>))))
     = [\<lparr>time = num 0, positions = 0\<rparr>, \<lparr>time = num 10, positions = 0\<rparr>,
        \<lparr>time = num 5, positions = 1\<rparr>]"
  by (simp add: recordState_def record_end_def capture_result split_beta Let_def begun_eval
      updateDuration_def updateTimelineMarkers_def addTimelineMarker_def ev1 ev2
      num_simps)

section \<open>The recorder: Add keyframe\<close>

text \<open>
  C4 (as the code has it). The bound is the timeline length \<open>duration / 1000\<close> read from the
  selector, not the out point. When the keyframe time is at or below 0 or at or above that
  length, the operation shows the error; what it has changed by then is the stored
  duration, set to the selector's value, and \<open>isPlaying\<close>, which is cleared; the
  keyframes, the in and out points, the markers, the entities and the store are as before.
\<close>

theorem add_keyframe_bounds:
  assumes "js_le (js_mul (sliderValue w) (js_div (durationSelectValue w) (num 1000))) (num 0)
         \<or> js_ge (js_mul (sliderValue w) (js_div (durationSelectValue w) (num 1000)))
                  (js_div (durationSelectValue w) (num 1000))"
  shows "recordState ''keyframe'' w =
           w\<lparr>AnimationState := (AnimationState w)\<lparr>data := (data (AnimationState w))
                 \<lparr>duration := durationSelectValue w, isPlaying := False\<rparr>\<rparr>,
             alerts := alerts w @ [''Keyframe must be between start and end of animation'']\<rparr>"
  using assms by (rule keyframe_rejected)

text \<open>In the sample state the scrubber is at 0: the keyframe time is 0 and is refused.\<close>

theorem add_keyframe_bounds_witness:
  "js_le (js_mul (sliderValue example_world) (js_div (durationSelectValue example_world) (num 1000)))
         (num 0)
   \<and> alerts (recordState ''keyframe'' example_world)
       = [''Keyframe must be between start and end of animation'']
   \<and> keyframes (data (AnimationState (recordState ''keyframe'' example_world))) = []"
proof -
  have h: "js_le (js_mul (sliderValue example_world)
                   (js_div (durationSelectValue example_world) (num 1000))) (num 0)"
    by (simp add: example_world_def ev1 ev0 num_simps)
  then have "js_le (js_mul (sliderValue example_world)
                   (js_div (durationSelectValue example_world) (num 1000))) (num 0)
         \<or> js_ge (js_mul (sliderValue example_world)
                   (js_div (durationSelectValue example_world) (num 1000)))
                  (js_div (durationSelectValue example_world) (num 1000))" by (rule disjI1)
  from add_keyframe_bounds[OF this] h show ?thesis
    by (simp add: example_world_def initial_AnimationState_def)
qed

text \<open>
  C4 as stated fails: after Begin and an End at one half the out point is 5; a keyframe
  at time 7.5 is above it, yet no error is shown and the keyframe list is replaced.
\<close>

theorem keyframe_above_outPoint_accepted:
  "js_ge (js_mul (num (3 / 4)) (js_div (durationSelectValue w_ended) (num 1000)))
         (ToNumber (outPoint (data (AnimationState w_ended))))
   \<and> alerts (recordState ''keyframe'' (w_ended\<lparr>sliderValue := num (3 / 4)\<rparr>)) = []
   \<and> keyframes (data (AnimationState (recordState ''keyframe'' (w_ended\<lparr>sliderValue := num (3 / 4)\<rparr>))))
       = [\<lparr>time = num (15 / 2), positions = 2\<rparr>]"
  by (simp add: recordState_def record_keyframe_def capture_result split_beta Let_def ended_eval
      updateDuration_def addTimelineMarker_def ev1 ev3 num_simps alert_def)

section \<open>Precondition violations\<close>

text \<open>
  C5 (as the code has it). Each violated precondition shows a notification and ends the
  operation. Playback start and save with fewer than two keyframes, and a load of a
  document whose keyframes are missing or fewer than two, change nothing else. End
  without a recording and Add keyframe out of bounds run inside \<^verbatim>\<open>recordState\<close>, which
  has stored the selector's duration by then (and Add keyframe has stopped a running
  playback); nothing else is changed.
\<close>

theorem precondition_violations:
  "(\<not> isRecording (data (AnimationState w)) \<longrightarrow>
      recordState ''end'' w =
        w\<lparr>AnimationState := (AnimationState w)\<lparr>data := (data (AnimationState w))
              \<lparr>duration := durationSelectValue w\<rparr>\<rparr>,
          alerts := alerts w @ [''Please start recording first (mark in point)'']\<rparr>)
   \<and> (length (keyframes (data (AnimationState w))) < 2 \<longrightarrow>
        startPlayback now0 now1 w =
          w\<lparr>alerts := alerts w @
             [''Please set in point first to create animation (need at least 2 keyframes)'']\<rparr>)
   \<and> (length (keyframes (data (AnimationState w))) < 2 \<longrightarrow>
        saveAnimation now name w =
          w\<lparr>alerts := alerts w @ [''Please record an animation first (mark in and out points)'']\<rparr>)
   \<and> (js_le (js_mul (sliderValue w) (js_div (durationSelectValue w) (num 1000))) (num 0)
        \<or> js_ge (js_mul (sliderValue w) (js_div (durationSelectValue w) (num 1000)))
                 (js_div (durationSelectValue w) (num 1000)) \<longrightarrow>
        recordState ''keyframe'' w =
          w\<lparr>AnimationState := (AnimationState w)\<lparr>data := (data (AnimationState w))
                \<lparr>duration := durationSelectValue w, isPlaying := False\<rparr>\<rparr>,
            alerts := alerts w @ [''Keyframe must be between start and end of animation'']\<rparr>)
   \<and> (doc_keyframes doc = None \<or> (\<exists>ks. doc_keyframes doc = Some ks \<and> length ks < 2) \<longrightarrow>
        loadAnimation doc selected w =
          w\<lparr>alerts := alerts w @ [''Invalid animation file: missing keyframes'']\<rparr>)"
proof (intro conjI impI)
  assume "\<not> isRecording (data (AnimationState w))"
  then show "recordState ''end'' w =
        w\<lparr>AnimationState := (AnimationState w)\<lparr>data := (data (AnimationState w))
              \<lparr>duration := durationSelectValue w\<rparr>\<rparr>,
          alerts := alerts w @ [''Please start recording first (mark in point)'']\<rparr>"
    by (simp add: recordState_def record_end_def Let_def updateDuration_def alert_def)
next
  assume "length (keyframes (data (AnimationState w))) < 2"
  then show "startPlayback now0 now1 w =
          w\<lparr>alerts := alerts w @
             [''Please set in point first to create animation (need at least 2 keyframes)'']\<rparr>"
    by (simp add: startPlayback_def Let_def alert_def)
next
  assume "length (keyframes (data (AnimationState w))) < 2"
  then show "saveAnimation now name w =
          w\<lparr>alerts := alerts w @ [''Please record an animation first (mark in and out points)'']\<rparr>"
    by (simp add: saveAnimation_def Let_def alert_def)
next
  assume "js_le (js_mul (sliderValue w) (js_div (durationSelectValue w) (num 1000))) (num 0)
        \<or> js_ge (js_mul (sliderValue w) (js_div (durationSelectValue w) (num 1000)))
                 (js_div (durationSelectValue w) (num 1000))"
  then show "recordState ''keyframe'' w =
          w\<lparr>AnimationState := (AnimationState w)\<lparr>data := (data (AnimationState w))
                \<lparr>duration := durationSelectValue w, isPlaying := False\<rparr>\<rparr>,
            alerts := alerts w @ [''Keyframe must be between start and end of animation'']\<rparr>"
    by (rule keyframe_rejected)
next
  assume "doc_keyframes doc = None \<or> (\<exists>ks. doc_keyframes doc = Some ks \<and> length ks < 2)"
  then show "loadAnimation doc selected w =
          w\<lparr>alerts := alerts w @ [''Invalid animation file: missing keyframes'']\<rparr>"
    by (auto simp: loadAnimation_def alert_def)
qed

text \<open>The sample state violates all of them at once.\<close>

theorem precondition_violations_witness:
  "\<not> isRecording (data (AnimationState example_world))
   \<and> length (keyframes (data (AnimationState example_world))) < 2
   \<and> js_le (js_mul (sliderValue example_world)
              (js_div (durationSelectValue example_world) (num 1000))) (num 0)
   \<and> doc_keyframes empty_document = None
   \<and> AnimationState (recordState ''end'' example_world) = AnimationState example_world
   \<and> alerts (recordState ''end'' example_world) = [''Please start recording first (mark in point)'']
   \<and> startPlayback (num 0) (num 0) example_world =
        example_world\<lparr>alerts :=
          [''Please set in point first to create animation (need at least 2 keyframes)'']\<rparr>
   \<and> saveAnimation (num 0) ''a'' example_world =
        example_world\<lparr>alerts := [''Please record an animation first (mark in and out points)'']\<rparr>
   \<and> AnimationState (recordState ''keyframe'' example_world) = AnimationState example_world
   \<and> loadAnimation empty_document (num 10000) example_world =
        example_world\<lparr>alerts := [''Invalid animation file: missing keyframes'']\<rparr>"
proof -
  have h1: "\<not> isRecording (data (AnimationState example_world))"
    and h2: "length (keyframes (data (AnimationState example_world))) < 2"
    and h3: "js_le (js_mul (sliderValue example_world)
              (js_div (durationSelectValue example_world) (num 1000))) (num 0)"
    and h4: "doc_keyframes empty_document = None"
    by (simp_all add: example_world_def initial_AnimationState_def ev1 ev0 num_simps
        empty_document_def)
  from precondition_violations[where w = example_world and ?now0.0 = "num 0" and ?now1.0 = "num 0"
      and now = "num 0" and name = "''a''" and doc = empty_document and selected = "num 10000"]
    h1 h2 h3 h4
  show ?thesis
    by (simp add: example_world_def initial_AnimationState_def ANIMATION_CONFIG_defaultDuration_def)
qed

text \<open>
  C5 as stated fails: with the selector at 5000 ms and the stored duration 10000 ms, End
  without a recording shows its error and has changed the stored duration.
\<close>

theorem end_without_recording_changes_duration:
  "\<not> isRecording (data (AnimationState (example_world\<lparr>durationSelectValue := num 5000\<rparr>)))
   \<and> alerts (recordState ''end'' (example_world\<lparr>durationSelectValue := num 5000\<rparr>))
       = [''Please start recording first (mark in point)'']
   \<and> duration (data (AnimationState (example_world\<lparr>durationSelectValue := num 5000\<rparr>))) = num 10000
   \<and> duration (data (AnimationState (recordState ''end''
         (example_world\<lparr>durationSelectValue := num 5000\<rparr>)))) = num 5000"
  by (simp add: recordState_def record_end_def Let_def updateDuration_def alert_def
      example_world_def initial_AnimationState_def ANIMATION_CONFIG_defaultDuration_def)

section \<open>The interpolation step\<close>

lemma interpolate_blocks_frame:
  "arrs (interpolate_position f s e r h) = arrs h"
  "objCount (interpolate_position f s e r h) = objCount h"
  "arrCount (interpolate_position f s e r h) = arrCount h"
  "a \<noteq> r \<Longrightarrow> objs (interpolate_position f s e r h) a = objs h a"
  "arrs (interpolate_velocity f s e r h) = arrs h"
  "objCount (interpolate_velocity f s e r h) = objCount h"
  "arrCount (interpolate_velocity f s e r h) = arrCount h"
  "a \<noteq> r \<Longrightarrow> objs (interpolate_velocity f s e r h) a = objs h a"
  "arrs (interpolate_radius f s e r h) = arrs h"
  "objCount (interpolate_radius f s e r h) = objCount h"
  "arrCount (interpolate_radius f s e r h) = arrCount h"
  "a \<noteq> r \<Longrightarrow> objs (interpolate_radius f s e r h) a = objs h a"
  by (simp_all add: interpolate_position_def interpolate_velocity_def interpolate_radius_def
      upd_obj_def Let_def)

lemma interpolate_idea_frame:
  "arrs (interpolate_idea f sp ep index r h) = arrs h"
  "objCount (interpolate_idea f sp ep index r h) = objCount h"
  "arrCount (interpolate_idea f sp ep index r h) = arrCount h"
  "a \<noteq> r \<Longrightarrow> objs (interpolate_idea f sp ep index r h) a = objs h a"
  by (simp_all add: interpolate_idea_def interpolate_blocks_frame)

lemma interpolate_idea_out_of_range:
  "\<not> (index < length sp \<and> index < length ep) \<Longrightarrow> interpolate_idea f sp ep index r h = h"
  unfolding interpolate_idea_def by (rule if_not_P)

lemma interpolate_position_written:
  assumes "r \<noteq> s" "r \<noteq> e"
  shows "objs (interpolate_position f s e r h) r =
    (objs h r)\<lparr>x := lerp (x (objs h s)) (js_sub (x (objs h e)) (x (objs h s))) f,
               y := lerp (y (objs h s)) (js_sub (y (objs h e)) (y (objs h s))) f\<rparr>"
  using assms by (simp add: interpolate_position_def upd_obj_def Let_def)

lemma interpolate_velocity_written:
  assumes "r \<noteq> s" "r \<noteq> e"
  shows "objs (interpolate_velocity f s e r h) r =
    (objs h r)\<lparr>
       vx := (if vx (objs h s) \<noteq> Undefined \<and> vx (objs h e) \<noteq> Undefined
              then Num (lerp (ToNumber (vx (objs h s)))
                        (js_sub (ToNumber (vx (objs h e))) (ToNumber (vx (objs h s)))) f)
              else vx (objs h r)),
       vy := (if vx (objs h s) \<noteq> Undefined \<and> vx (objs h e) \<noteq> Undefined
              then Num (lerp (ToNumber (vy (objs h s)))
                        (js_sub (ToNumber (vy (objs h e))) (ToNumber (vy (objs h s)))) f)
              else vy (objs h r))\<rparr>"
  using assms by (simp add: interpolate_velocity_def upd_obj_def Let_def)

lemma interpolate_radius_written:
  assumes "r \<noteq> s" "r \<noteq> e"
  shows "objs (interpolate_radius f s e r h) r =
    (objs h r)\<lparr>
       radius := (if radius (objs h s) \<noteq> Undefined \<and> radius (objs h e) \<noteq> Undefined
                  then Num (lerp (ToNumber (radius (objs h s)))
                            (js_sub (ToNumber (radius (objs h e))) (ToNumber (radius (objs h s)))) f)
                  else radius (objs h r))\<rparr>"
  using assms by (simp add: interpolate_radius_def upd_obj_def Let_def)

lemma interpolate_idea_written:
  assumes "index < length sp" "index < length ep" "r \<noteq> sp ! index" "r \<noteq> ep ! index"
  shows "objs (interpolate_idea f sp ep index r h) r =
    (objs h r)
      \<lparr>x := lerp (x (objs h (sp ! index)))
                (js_sub (x (objs h (ep ! index))) (x (objs h (sp ! index)))) f,
       y := lerp (y (objs h (sp ! index)))
                (js_sub (y (objs h (ep ! index))) (y (objs h (sp ! index)))) f,
       vx := (if vx (objs h (sp ! index)) \<noteq> Undefined \<and> vx (objs h (ep ! index)) \<noteq> Undefined
              then Num (lerp (ToNumber (vx (objs h (sp ! index))))
                        (js_sub (ToNumber (vx (objs h (ep ! index))))
                                (ToNumber (vx (objs h (sp ! index))))) f)
              else vx (objs h r)),
       vy := (if vx (objs h (sp ! index)) \<noteq> Undefined \<and> vx (objs h (ep ! index)) \<noteq> Undefined
              then Num (lerp (ToNumber (vy (objs h (sp ! index))))
                        (js_sub (ToNumber (vy (objs h (ep ! index))))
                                (ToNumber (vy (objs h (sp ! index))))) f)
              else vy (objs h r)),
       radius := (if radius (objs h (sp ! index)) \<noteq> Undefined
                     \<and> radius (objs h (ep ! index)) \<noteq> Undefined
                  then Num (lerp (ToNumber (radius (objs h (sp ! index))))
                            (js_sub (ToNumber (radius (objs h (ep ! index))))
                                    (ToNumber (radius (objs h (sp ! index))))) f)
                  else radius (objs h r))\<rparr>"
proof -
  define s where "s = sp ! index"
  define e where "e = ep ! index"
  note s_e_def = s_def e_def
  have ne: "r \<noteq> s" "r \<noteq> e" "s \<noteq> r" "e \<noteq> r" using assms by (auto simp: s_e_def)
  have "interpolate_idea f sp ep index r h =
          interpolate_radius f s e r (interpolate_velocity f s e r (interpolate_position f s e r h))"
    using assms(1,2) by (simp add: interpolate_idea_def s_e_def)
  then show ?thesis
    unfolding s_e_def[symmetric]
    by (simp add: interpolate_radius_written[OF ne(1,2)] interpolate_velocity_written[OF ne(1,2)]
        interpolate_position_written[OF ne(1,2)] interpolate_blocks_frame ne)
qed

lemma interpolate_idea_cong:
  assumes "objs h1 r = objs h2 r"
    and "index < length sp \<Longrightarrow> objs h1 (sp ! index) = objs h2 (sp ! index)"
    and "index < length ep \<Longrightarrow> objs h1 (ep ! index) = objs h2 (ep ! index)"
    and "index < length sp \<Longrightarrow> r \<noteq> sp ! index"
    and "index < length ep \<Longrightarrow> r \<noteq> ep ! index"
  shows "objs (interpolate_idea f sp ep index r h1) r = objs (interpolate_idea f sp ep index r h2) r"
proof (cases "index < length sp \<and> index < length ep")
  case True
  then show ?thesis
    using assms by (simp add: interpolate_idea_written)
next
  case False
  then show ?thesis using assms(1) by (simp add: interpolate_idea_out_of_range)
qed

lemma interpolate_from_frame:
  "arrs (interpolate_from f sp ep index rs h) = arrs h"
  "objCount (interpolate_from f sp ep index rs h) = objCount h"
  "arrCount (interpolate_from f sp ep index rs h) = arrCount h"
  "a \<notin> set rs \<Longrightarrow> objs (interpolate_from f sp ep index rs h) a = objs h a"
  by (induction rs arbitrary: index h) (simp_all add: interpolate_idea_frame)

lemma interpolate_from_nth:
  assumes "distinct rs" "set rs \<inter> (set sp \<union> set ep) = {}" "j < length rs"
  shows "objs (interpolate_from f sp ep index rs h) (rs ! j)
       = objs (interpolate_idea f sp ep (index + j) (rs ! j) h) (rs ! j)"
  using assms
proof (induction rs arbitrary: index h j)
  case Nil
  then show ?case by simp
next
  case (Cons r rs)
  define h1 where "h1 = interpolate_idea f sp ep index r h"
  show ?case
  proof (cases j)
    case 0
    have "r \<notin> set rs" using Cons.prems(1) by simp
    then show ?thesis using 0 by (simp add: interpolate_from_frame)
  next
    case (Suc j')
    have j': "j' < length rs" using Cons.prems(3) Suc by simp
    have d: "distinct rs" "set rs \<inter> (set sp \<union> set ep) = {}" using Cons.prems by auto
    have ne: "rs ! j' \<noteq> r" using Cons.prems(1) j' by auto
    have rsp: "r \<notin> set sp" "r \<notin> set ep" using Cons.prems(2) by auto
    have jsp: "rs ! j' \<notin> set sp" "rs ! j' \<notin> set ep" using d(2) j' by (auto dest: nth_mem)
    have "objs (interpolate_from f sp ep (Suc index) rs h1) (rs ! j')
        = objs (interpolate_idea f sp ep (Suc index + j') (rs ! j') h1) (rs ! j')"
      by (rule Cons.IH[OF d j'])
    also have "\<dots> = objs (interpolate_idea f sp ep (Suc index + j') (rs ! j') h) (rs ! j')"
    proof (rule interpolate_idea_cong)
      show "objs h1 (rs ! j') = objs h (rs ! j')"
        using ne by (simp add: h1_def interpolate_idea_frame)
      show "objs h1 (sp ! (Suc index + j')) = objs h (sp ! (Suc index + j'))"
        if "Suc index + j' < length sp"
        using rsp(1) nth_mem[OF that] by (metis h1_def interpolate_idea_frame(4))
      show "objs h1 (ep ! (Suc index + j')) = objs h (ep ! (Suc index + j'))"
        if "Suc index + j' < length ep"
        using rsp(2) nth_mem[OF that] by (metis h1_def interpolate_idea_frame(4))
      show "rs ! j' \<noteq> sp ! (Suc index + j')" if "Suc index + j' < length sp"
        using jsp(1) nth_mem[OF that] by metis
      show "rs ! j' \<noteq> ep ! (Suc index + j')" if "Suc index + j' < length ep"
        using jsp(2) nth_mem[OF that] by metis
    qed
    finally show ?thesis using Suc by (simp add: h1_def)
  qed
qed

lemma interpolate_world:
  assumes "2 \<le> length (keyframes (data (AnimationState w)))"
  shows "interpolateBubblePositions progress w =
    w\<lparr>heap := interpolate_from
        (segmentProgress (js_mul progress (js_div (duration (data (AnimationState w))) (num 1000)))
           (fst (select_keyframes (js_mul progress (js_div (duration (data (AnimationState w))) (num 1000)))
                  (keyframes (data (AnimationState w)))))
           (snd (select_keyframes (js_mul progress (js_div (duration (data (AnimationState w))) (num 1000)))
                  (keyframes (data (AnimationState w))))))
        (arrs (heap w) (positions (fst (select_keyframes
             (js_mul progress (js_div (duration (data (AnimationState w))) (num 1000)))
             (keyframes (data (AnimationState w)))))))
        (arrs (heap w) (positions (snd (select_keyframes
             (js_mul progress (js_div (duration (data (AnimationState w))) (num 1000)))
             (keyframes (data (AnimationState w)))))))
        0 (ideas w) (heap w)\<rparr>"
  using assms by (simp add: interpolateBubblePositions_def Let_def split_beta)

lemma interpolate_world_frame:
  "AnimationState (interpolateBubblePositions progress w) = AnimationState w"
  "ideas (interpolateBubblePositions progress w) = ideas w"
  "sliderValue (interpolateBubblePositions progress w) = sliderValue w"
  "durationSelectValue (interpolateBubblePositions progress w) = durationSelectValue w"
  "alerts (interpolateBubblePositions progress w) = alerts w"
  "frameRequests (interpolateBubblePositions progress w) = frameRequests w"
  "downloads (interpolateBubblePositions progress w) = downloads w"
  by (simp_all add: interpolateBubblePositions_def Let_def split_beta)

lemma interpolate_entity:
  assumes len: "2 \<le> length (keyframes (data (AnimationState w)))"
    and sel: "select_keyframes (js_mul progress (js_div (duration (data (AnimationState w))) (num 1000)))
                (keyframes (data (AnimationState w))) = (ks, ke)"
    and sp: "sp = arrs (heap w) (positions ks)" and ep: "ep = arrs (heap w) (positions ke)"
    and f: "f = segmentProgress (js_mul progress (js_div (duration (data (AnimationState w))) (num 1000))) ks ke"
    and dist: "distinct (ideas w)" and sep: "set (ideas w) \<inter> (set sp \<union> set ep) = {}"
    and i: "i < length (ideas w)"
  shows "objs (heap (interpolateBubblePositions progress w)) (ideas w ! i)
       = objs (interpolate_idea f sp ep i (ideas w ! i) (heap w)) (ideas w ! i)"
proof -
  have "heap (interpolateBubblePositions progress w) = interpolate_from f sp ep 0 (ideas w) (heap w)"
    by (simp add: interpolate_world[OF len] sel sp ep f)
  then show ?thesis
    using interpolate_from_nth[OF dist sep i, of f 0 "heap w"] by simp
qed

text \<open>
  C7 (as the code has it). Let the live entities be distinct objects, none of them an
  element of the two selected snapshots. For a live entity whose index is within both
  snapshot lists, the step writes the interpolated \<open>x\<close> and \<open>y\<close>; it writes the
  interpolated \<open>vx\<close> and \<open>vy\<close>, both, exactly when both snapshots define \<open>vx\<close> (\<open>vy\<close> is
  not looked at), and leaves them as they are otherwise; it writes the interpolated
  \<open>radius\<close> exactly when both snapshots define it; it leaves the other fields. A live
  entity whose index is out of range of either snapshot list is left as it is, and so is
  every object that is not a live entity.
\<close>

theorem interpolation_gating:
  assumes len: "2 \<le> length (keyframes (data (AnimationState w)))"
    and sel: "select_keyframes (js_mul progress (js_div (duration (data (AnimationState w))) (num 1000)))
                (keyframes (data (AnimationState w))) = (ks, ke)"
    and sp: "sp = arrs (heap w) (positions ks)" and ep: "ep = arrs (heap w) (positions ke)"
    and f: "f = segmentProgress (js_mul progress (js_div (duration (data (AnimationState w))) (num 1000))) ks ke"
    and dist: "distinct (ideas w)" and sep: "set (ideas w) \<inter> (set sp \<union> set ep) = {}"
    and i: "i < length (ideas w)"
    and s: "s = objs (heap w) (sp ! i)" and e: "e = objs (heap w) (ep ! i)"
    and old: "old = objs (heap w) (ideas w ! i)"
    and new: "new = objs (heap (interpolateBubblePositions progress w)) (ideas w ! i)"
  shows "(i < length sp \<and> i < length ep \<longrightarrow>
            x new = lerp (x s) (js_sub (x e) (x s)) f
          \<and> y new = lerp (y s) (js_sub (y e) (y s)) f
          \<and> (vx s \<noteq> Undefined \<and> vx e \<noteq> Undefined \<longrightarrow>
                vx new = Num (lerp (ToNumber (vx s)) (js_sub (ToNumber (vx e)) (ToNumber (vx s))) f)
              \<and> vy new = Num (lerp (ToNumber (vy s)) (js_sub (ToNumber (vy e)) (ToNumber (vy s))) f))
          \<and> (vx s = Undefined \<or> vx e = Undefined \<longrightarrow> vx new = vx old \<and> vy new = vy old)
          \<and> (radius s \<noteq> Undefined \<and> radius e \<noteq> Undefined \<longrightarrow>
                radius new = Num (lerp (ToNumber (radius s))
                                   (js_sub (ToNumber (radius e)) (ToNumber (radius s))) f))
          \<and> (radius s = Undefined \<or> radius e = Undefined \<longrightarrow> radius new = radius old)
          \<and> title new = title old)
       \<and> (\<not> (i < length sp \<and> i < length ep) \<longrightarrow> new = old)
       \<and> (\<forall>a. a \<notin> set (ideas w) \<longrightarrow> objs (heap (interpolateBubblePositions progress w)) a = objs (heap w) a)"
proof -
  note n = interpolate_entity[OF len sel sp ep f dist sep i]
  have fr: "\<forall>a. a \<notin> set (ideas w) \<longrightarrow> objs (heap (interpolateBubblePositions progress w)) a = objs (heap w) a"
    by (simp add: interpolate_world[OF len] interpolate_from_frame)
  show ?thesis
  proof (cases "i < length sp \<and> i < length ep")
    case False
    have "new = old"
      using n by (simp only: interpolate_idea_out_of_range[OF False] new old)
    then show ?thesis using False fr by blast
  next
    case True
    have r1: "ideas w ! i \<noteq> sp ! i" using sep i True by (metis IntI UnI1 empty_iff nth_mem)
    have r2: "ideas w ! i \<noteq> ep ! i" using sep i True by (metis IntI UnI2 empty_iff nth_mem)
    have "new = (objs (interpolate_idea f sp ep i (ideas w ! i) (heap w)) (ideas w ! i))"
      using n new by simp
    then show ?thesis
      using True fr unfolding interpolate_idea_written[OF conjunct1[OF True] conjunct2[OF True] r1 r2]
      by (simp add: s e old)
  qed
qed

lemma js_add_num:
  "rnd (a + b < 0) \<bar>a + b\<bar> = Finite (a + b < 0) \<bar>a + b\<bar> \<Longrightarrow> js_add (num a) (num b) = num (a + b)"
  by (auto simp: num_def signed_def Let_def)

lemma js_sub_num:
  "rnd (a - b < 0) \<bar>a - b\<bar> = Finite (a - b < 0) \<bar>a - b\<bar> \<Longrightarrow> js_sub (num a) (num b) = num (a - b)"
  by (auto simp: js_sub_def num_def signed_def Let_def)

lemma js_mul_num:
  assumes "rnd (a * b < 0) \<bar>a * b\<bar> = Finite (a * b < 0) \<bar>a * b\<bar>"
    and "a * b \<noteq> 0 \<or> (0 \<le> a \<and> 0 \<le> b)"
  shows "js_mul (num a) (num b) = num (a * b)"
proof -
  have sg: "((a < 0) \<noteq> (b < 0)) = (a * b < 0)"
    using assms(2) by (auto simp: mult_less_0_iff)
  have "js_mul (num a) (num b) = rnd ((a < 0) \<noteq> (b < 0)) (\<bar>a\<bar> * \<bar>b\<bar>)" by (simp add: num_def)
  also have "\<dots> = rnd (a * b < 0) \<bar>a * b\<bar>" by (simp only: sg abs_mult)
  finally show ?thesis using assms(1) by (simp add: num_def)
qed

lemma js_div_num:
  assumes "rnd (a / b < 0) \<bar>a / b\<bar> = Finite (a / b < 0) \<bar>a / b\<bar>"
    and "b \<noteq> 0" and "a \<noteq> 0 \<or> 0 < b"
  shows "js_div (num a) (num b) = num (a / b)"
proof -
  have sg: "((a < 0) \<noteq> (b < 0)) = (a / b < 0)"
    using assms(2,3) by (auto simp: divide_less_0_iff)
  have "js_div (num a) (num b) = rnd ((a < 0) \<noteq> (b < 0)) (\<bar>a\<bar> / \<bar>b\<bar>)"
    using assms(2) by (simp add: num_def)
  also have "\<dots> = rnd (a / b < 0) \<bar>a / b\<bar>" by (simp only: sg abs_divide)
  finally show ?thesis using assms(1) by (simp add: num_def)
qed

lemma rnd_zero: "rnd s 0 = Finite s 0"
  by (simp add: rnd_def)

lemma rnd_half: "rnd s (1 / 2) = Finite s (1 / 2)"
  using rnd_dyadic[of 1 1 s] by simp

lemma rnd_one: "rnd s 1 = Finite s 1"
  using rnd_nat[of 1 s] by simp

lemmas num_arith = js_add_num js_sub_num js_mul_num js_div_num rnd_numeral rnd_zero rnd_one rnd_half

lemma vx_begun_eval:
  "keyframes (data (AnimationState w_vx_begun))
     = [\<lparr>time = num 0, positions = 0\<rparr>, \<lparr>time = num 10, positions = 0\<rparr>]"
  "duration (data (AnimationState w_vx_begun)) = num 10000"
  "ideas w_vx_begun = [0]"
  "arrs (heap w_vx_begun) 0 = [1]"
  "objs (heap w_vx_begun) 0 = example_entity\<lparr>vx := Num (num 1)\<rparr>"
  "objs (heap w_vx_begun) (Suc 0) = example_entity\<lparr>vx := Num (num 1)\<rparr>"
  by (simp_all add: w_vx_begun_def example_world_vx_def recordState_def record_start_def
      capture_result split_beta Let_def addTimelineMarker_def example_world_def ev1 reset_def
      updateDuration_def initial_AnimationState_def new_obj_def)

lemma vx_select:
  "select_keyframes (js_mul (num 0) (js_div (duration (data (AnimationState w_vx_begun))) (num 1000)))
     (keyframes (data (AnimationState w_vx_begun)))
   = (\<lparr>time = num 0, positions = 0\<rparr>, \<lparr>time = num 10, positions = 0\<rparr>)"
  by (simp add: vx_begun_eval select_keyframes_def num_arith num_simps)

text \<open>
  After Begin in the sample state with a \<open>vx\<close>, interpolating at progress 0 writes the
  captured position and velocity back.
\<close>

theorem interpolation_gating_witness:
  "x (objs (heap (interpolateBubblePositions (num 0) w_vx_begun)) 0) = num 10
   \<and> y (objs (heap (interpolateBubblePositions (num 0) w_vx_begun)) 0) = num 20
   \<and> vx (objs (heap (interpolateBubblePositions (num 0) w_vx_begun)) 0) = Num (num 1)
   \<and> radius (objs (heap (interpolateBubblePositions (num 0) w_vx_begun)) 0) = Undefined
   \<and> title (objs (heap (interpolateBubblePositions (num 0) w_vx_begun)) 0) = ''idea''"
proof -
  have len: "2 \<le> length (keyframes (data (AnimationState w_vx_begun)))"
    by (simp add: vx_begun_eval)
  have dist: "distinct (ideas w_vx_begun)" by (simp add: vx_begun_eval)
  have sep: "set (ideas w_vx_begun) \<inter> (set [1] \<union> set [1]) = {}" by (simp add: vx_begun_eval)
  have i: "0 < length (ideas w_vx_begun)" by (simp add: vx_begun_eval)
  have sp: "[1] = arrs (heap w_vx_begun) (positions \<lparr>time = num 0, positions = 0\<rparr>)"
    and ep: "[1] = arrs (heap w_vx_begun) (positions \<lparr>time = num 10, positions = 0\<rparr>)"
    by (simp_all add: vx_begun_eval)
  have f: "num 0 = segmentProgress (js_mul (num 0) (js_div (duration (data (AnimationState w_vx_begun))) (num 1000)))
                     \<lparr>time = num 0, positions = 0\<rparr> \<lparr>time = num 10, positions = 0\<rparr>"
    by (simp add: segmentProgress_def vx_begun_eval num_arith)
  from interpolation_gating[OF len vx_select sp ep f dist sep i refl refl refl refl]
  show ?thesis
    by (simp add: vx_begun_eval example_entity_def lerp_def num_arith)
qed

text \<open>
  C7 as stated fails: in that state neither snapshot defines \<open>vy\<close>, and the step writes
  \<open>vy\<close>, the number \<open>NaN\<close>, onto the live entity, which had none.
\<close>

theorem vy_written_without_vy:
  "vy (objs (heap w_vx_begun) (arrs (heap w_vx_begun) 0 ! 0)) = Undefined
   \<and> vy (objs (heap w_vx_begun) 0) = Undefined
   \<and> vy (objs (heap (interpolateBubblePositions (num 0) w_vx_begun)) 0) = Num NaN"
proof -
  have len: "2 \<le> length (keyframes (data (AnimationState w_vx_begun)))"
    by (simp add: vx_begun_eval)
  have dist: "distinct (ideas w_vx_begun)" by (simp add: vx_begun_eval)
  have sep: "set (ideas w_vx_begun) \<inter> (set [1] \<union> set [1]) = {}" by (simp add: vx_begun_eval)
  have i: "0 < length (ideas w_vx_begun)" by (simp add: vx_begun_eval)
  have sp: "[1] = arrs (heap w_vx_begun) (positions \<lparr>time = num 0, positions = 0\<rparr>)"
    and ep: "[1] = arrs (heap w_vx_begun) (positions \<lparr>time = num 10, positions = 0\<rparr>)"
    by (simp_all add: vx_begun_eval)
  have "objs (heap (interpolateBubblePositions (num 0) w_vx_begun)) (ideas w_vx_begun ! 0)
       = objs (interpolate_idea
           (segmentProgress (js_mul (num 0) (js_div (duration (data (AnimationState w_vx_begun))) (num 1000)))
                     \<lparr>time = num 0, positions = 0\<rparr> \<lparr>time = num 10, positions = 0\<rparr>)
           [1] [1] 0 (ideas w_vx_begun ! 0) (heap w_vx_begun)) (ideas w_vx_begun ! 0)"
    by (rule interpolate_entity[OF len vx_select sp ep refl dist sep i])
  then show ?thesis
    by (simp add: vx_begun_eval interpolate_idea_written example_entity_def lerp_def js_sub_def)
qed

section \<open>Doubles are closed under the operators\<close>

lemma round_half_even_bounds: "\<lfloor>r\<rfloor> \<le> round_half_even r" "round_half_even r \<le> \<lfloor>r\<rfloor> + 1"
  by (simp_all add: round_half_even_def Let_def)

lemma round_half_even_ge:
  assumes "of_int n \<le> r"
  shows "n \<le> round_half_even r"
proof -
  have "n \<le> \<lfloor>r\<rfloor>" using assms by (simp add: le_floor_iff)
  with round_half_even_bounds(1)[of r] show ?thesis by simp
qed

lemma round_half_even_le:
  assumes "r \<le> of_int n"
  shows "round_half_even r \<le> n"
proof (cases "r = of_int n")
  case True
  then show ?thesis by (simp add: round_half_even_of_int)
next
  case False
  with assms have "r < of_int n" by simp
  then have "\<lfloor>r\<rfloor> < n" by (simp add: floor_less_iff)
  with round_half_even_bounds(2)[of r] show ?thesis by simp
qed

text \<open>The unit in the last place used for rounding \<open>q\<close>, and what rounding yields.\<close>

lemma rnd_cases:
  assumes q: "0 < q"
  obtains (overflow) "rnd s q = Infinity s"
  | (finite) n c where "rnd s q = Finite s (of_int n * 2 powi c)" "0 \<le> n" "n \<le> 2 ^ 53"
      "- 1074 \<le> c" "c = max (ilog2 q) (- 1022) - 52" "n = round_half_even (q / 2 powi c)"
      "of_int n * 2 powi c < (2::real) ^ 1024"
proof -
  define c where "c = max (ilog2 q) (- 1022) - 52"
  define n where "n = round_half_even (q / 2 powi c)"
  have u: "(0::real) < 2 powi c" by simp
  have "0 \<le> q / 2 powi c" using q by simp
  then have n0: "0 \<le> n" unfolding n_def using round_half_even_ge[of 0 "q / 2 powi c"] by simp
  have "q < 2 powi (ilog2 q + 1)" by (rule ilog2_bounds[OF q])
  also have "\<dots> \<le> 2 powi (c + 53)" by (simp only: powi2_le_iff) (simp add: c_def)
  also have "\<dots> = 2 powi c * 2 powi 53" by (rule power_int_add) simp
  finally have "q / 2 powi c < 2 powi 53" by (simp add: field_simps)
  then have "q / 2 powi c \<le> of_int (2 ^ 53)" by simp
  then have n53: "n \<le> 2 ^ 53" unfolding n_def by (rule round_half_even_le)
  have c: "- 1074 \<le> c" by (simp add: c_def)
  have q0: "(q = 0) = False" using q by simp
  have r: "rnd s q = (if (2::real) ^ 1024 \<le> of_int n * 2 powi c then Infinity s
                      else Finite s (of_int n * 2 powi c))"
    unfolding rnd_def Let_def c_def[symmetric] n_def[symmetric] by (simp only: q0 if_False)
  show thesis
  proof (cases "(2::real) ^ 1024 \<le> of_int n * 2 powi c")
    case True
    then have "rnd s q = Infinity s" using r by (simp only: if_True)
    then show thesis by (rule overflow)
  next
    case False
    then have "of_int n * 2 powi c < (2::real) ^ 1024" by (simp only: not_le)
    moreover have "rnd s q = Finite s (of_int n * 2 powi c)" using r False by (simp only: if_False)
    ultimately show thesis using finite[of n c] n0 n53 c c_def n_def by blast
  qed
qed

lemma rnd_is_double:
  assumes "0 \<le> q"
  shows "is_double (rnd s q)"
proof (cases "q = 0")
  case True
  then show ?thesis by (simp add: rnd_def)
next
  case False
  with assms have q: "0 < q" by simp
  from q show ?thesis
  proof (cases rule: rnd_cases[where s = s])
    case overflow
    then show ?thesis by simp
  next
    case (finite n c)
    define r where "r = real_of_int n * 2 powi c"
    have r0: "0 \<le> r" using finite(2) by (simp add: r_def)
    have "rnd s r = Finite s r"
    proof (cases "n = 0")
      case True
      then show ?thesis by (simp add: r_def rnd_def)
    next
      case n0: False
      then have rpos: "0 < r" using finite(2) by (simp add: r_def)
      show ?thesis
      proof (cases "n = 2 ^ 53")
        case True
        have e1: "r = of_int (2 ^ 52) * 2 powi (c + 1)"
          by (simp add: r_def True power_int_add)
        have e2: "(2::int) ^ 52 < 2 ^ 53" by simp
        have e3: "- 1074 \<le> c + 1" using finite(4) by simp
        have ov: "r < 2 ^ 1024" using finite(7) by (simp only: r_def)
        show ?thesis by (rule rnd_exact[OF rpos e1 e2 e3 ov])
      next
        case False
        with finite(3) have e2: "n < 2 ^ 53" by simp
        have ov: "r < 2 ^ 1024" using finite(7) by (simp only: r_def)
        show ?thesis by (rule rnd_exact[OF rpos r_def e2 finite(4) ov])
      qed
    qed
    then show ?thesis using finite(1) r0 by (simp add: r_def)
  qed
qed

lemma is_double_ops:
  assumes "is_double a" "is_double b"
  shows "is_double (js_add a b)" "is_double (js_sub a b)" "is_double (js_mul a b)"
    "is_double (js_div a b)" "is_double (js_neg a)"
proof -
  have neg: "is_double (js_neg c)" if "is_double c" for c
  proof (cases c)
    case (Finite s q)
    with that have "0 \<le> q" "rnd s q = Finite s q" by simp_all
    then have "rnd (\<not> s) q = Finite (\<not> s) q"
      by (cases "q = 0") (auto simp: rnd_def Let_def split: if_splits)
    then show ?thesis using Finite \<open>0 \<le> q\<close> by simp
  qed simp_all
  have add: "is_double (js_add c d)" if "is_double c" "is_double d" for c d
    using that by (cases c; cases d) (auto simp: Let_def rnd_zero intro: rnd_is_double)
  show "is_double (js_add a b)" using assms by (rule add)
  show "is_double (js_neg a)" using assms(1) by (rule neg)
  show "is_double (js_sub a b)" unfolding js_sub_def using assms(1) neg[OF assms(2)] by (rule add)
  show "is_double (js_mul a b)"
    using assms by (cases a; cases b) (auto intro: rnd_is_double)
  show "is_double (js_div a b)"
    using assms by (cases a; cases b) (auto simp: rnd_zero intro: rnd_is_double)
qed

lemma rnd_ge_one:
  assumes "1 \<le> q"
  shows "rnd s q = Infinity s \<or> (\<exists>r. 1 \<le> r \<and> rnd s q = Finite s r)"
proof -
  have q: "0 < q" using assms by simp
  from q show ?thesis
  proof (cases rule: rnd_cases[where s = s])
    case overflow
    then show ?thesis by simp
  next
    case (finite n c)
    have "(1::real) \<le> q" by (rule assms)
    also have "q < 2 powi (ilog2 q + 1)" by (rule ilog2_bounds[OF q])
    finally have "(2::real) powi 0 < 2 powi (ilog2 q + 1)" by simp
    then have "0 < ilog2 q + 1" by (simp only: powi2_less_iff)
    then have k0: "0 \<le> ilog2 q" by simp
    then have c: "c = ilog2 q - 52" using finite(5) by simp
    have "2 powi (c + 52) \<le> q" using ilog2_bounds(1)[OF q] by (simp add: c)
    moreover have "(2::real) powi (c + 52) = 2 powi c * 2 powi 52" by (rule power_int_add) simp
    ultimately have "of_int (2 ^ 52) \<le> q / 2 powi c" by (simp add: field_simps)
    then have "2 ^ 52 \<le> n" unfolding finite(6) by (rule round_half_even_ge)
    then have "real_of_int (2 ^ 52) \<le> of_int n" by (simp only: of_int_le_iff)
    then have "real_of_int (2 ^ 52) * 2 powi c \<le> of_int n * (2::real) powi c"
      by (rule mult_right_mono) simp
    then have "2 powi 52 * 2 powi c \<le> of_int n * (2::real) powi c" by simp
    moreover have "(2::real) powi 52 * 2 powi c = 2 powi (ilog2 q)"
      by (simp add: c power_int_diff)
    moreover have "(1::real) \<le> 2 powi (ilog2 q)" using k0 by (simp add: one_le_power_int)
    ultimately have "1 \<le> real_of_int n * 2 powi c" by linarith
    then show ?thesis using finite(1) by blast
  qed
qed

lemma double_on_grid:
  assumes "is_double (Finite s q)"
  shows "\<exists>z::int. q * 2 ^ 1074 = of_int z"
proof (cases "q = 0")
  case True
  then show ?thesis by (intro exI[of _ 0]) simp
next
  case False
  with assms have q: "0 < q" and fx: "rnd s q = Finite s q" by simp_all
  from q show ?thesis
  proof (cases rule: rnd_cases[where s = s])
    case overflow
    with fx show ?thesis by simp
  next
    case (finite n c)
    with fx have "q = of_int n * 2 powi c" by simp
    moreover have "(2::real) powi c * 2 ^ 1074 = 2 ^ nat (c + 1074)"
    proof -
      have "(2::real) powi (c + 1074) = 2 powi c * 2 powi 1074" by (rule power_int_add) simp
      moreover have "(2::real) powi (c + 1074) = 2 ^ nat (c + 1074)"
        using finite(4) by (simp add: power_int_def)
      ultimately show ?thesis by simp
    qed
    ultimately have "q * 2 ^ 1074 = of_int (n * 2 ^ nat (c + 1074))" by simp
    then show ?thesis by blast
  qed
qed

lemma rnd_nonzero:
  assumes q: "0 < q" and grid: "q * 2 ^ 1074 = real_of_int z"
  shows "\<exists>r. 0 < r \<and> (rnd s q = Finite s r \<or> rnd s q = Infinity s)"
  using q
proof (cases rule: rnd_cases[where s = s])
  case overflow
  then show ?thesis by (intro exI[of _ 1]) simp
next
  case (finite n c)
  have "1 \<le> q / 2 powi c"
  proof (cases "- 1022 \<le> ilog2 q")
    case True
    then have c: "c = ilog2 q - 52" using finite(5) by simp
    have "2 powi (c + 52) \<le> q" using ilog2_bounds(1)[OF q] by (simp add: c)
    moreover have "(2::real) powi (c + 52) = 2 powi c * 2 powi 52" by (rule power_int_add) simp
    ultimately have "2 powi 52 \<le> q / 2 powi c" by (simp add: field_simps)
    moreover have "(1::real) \<le> 2 powi 52" by simp
    ultimately show ?thesis by linarith
  next
    case False
    then have c: "c = - 1074" using finite(5) by simp
    have "0 < real_of_int z" using q grid by (metis zero_less_mult_iff zero_less_numeral zero_less_power)
    then have "1 \<le> z" by simp
    then have "1 \<le> real_of_int z" by simp
    moreover have "q / 2 powi c = q * 2 ^ 1074" by (simp add: c power_int_minus field_simps)
    ultimately show ?thesis using grid by simp
  qed
  then have "of_int 1 \<le> q / 2 powi c" by simp
  then have "1 \<le> n" unfolding finite(6) by (rule round_half_even_ge)
  then have "0 < real_of_int n * 2 powi c" by simp
  then show ?thesis using finite(1) by blast
qed

section \<open>The player: ticks\<close>

lemma js_div_ge_one:
  assumes da: "is_double a" and db: "is_double b" and fb: "is_finite b"
    and pos: "js_lt (num 0) b" and ge: "js_ge a b"
  shows "js_min (js_div a b) (num 1) = num 1"
proof -
  obtain s2 q2 where b: "b = Finite s2 q2" using fb by (cases b) simp_all
  have q2: "0 \<le> q2" using db b by simp
  have s2: "\<not> s2" "0 < q2" using pos q2 by (auto simp: b num_def signed_def split: if_splits)
  show ?thesis
  proof (cases a)
    case NaN
    with ge show ?thesis by (simp add: js_ge_def)
  next
    case (Infinity s1)
    with ge b have "\<not> s1" by (simp add: js_ge_def)
    then show ?thesis using Infinity b s2 by (simp add: js_min_def num_def)
  next
    case (Finite s1 q1)
    have q1: "0 \<le> q1" using da Finite by simp
    have "signed s2 q2 \<le> signed s1 q1" using ge by (simp add: js_ge_def Finite b)
    then have s1: "\<not> s1 \<or> q1 = 0" "q2 \<le> q1" using s2 q1 by (auto simp: signed_def split: if_splits)
    then have "\<not> s1" using s2 by auto
    have "1 \<le> q1 / q2" using s1(2) s2(2) by simp
    from rnd_ge_one[OF this, of False]
    have "js_div a b = Infinity False \<or> (\<exists>r. 1 \<le> r \<and> js_div a b = Finite False r)"
      using Finite b s2 \<open>\<not> s1\<close> by simp
    then show ?thesis by (auto simp: js_min_def num_def signed_def)
  qed
qed

lemma animate_playing:
  assumes "isPlaying (data (AnimationState w))"
  shows "js_lt (tick_progress env now w) (num 1) \<Longrightarrow>
           frameRequests (animate env now w) = frameRequests w @ [env]
           \<and> isPlaying (data (AnimationState (animate env now w)))"
    and "\<not> js_lt (tick_progress env now w) (num 1) \<Longrightarrow>
           frameRequests (animate env now w) = frameRequests w
           \<and> \<not> isPlaying (data (AnimationState (animate env now w)))"
    and "sliderValue (animate env now w) = tick_progress env now w"
  using assms
  by (simp_all add: animate_def Let_def interpolate_world_frame stopPlayback_def)

text \<open>
  C9 (as the code has it). For a tick that finds playback running: when the elapsed time
  reaches or exceeds a playback duration that is positive and finite, the computed
  progress is 1, \<open>isPlaying\<close> becomes false and no callback is scheduled; when the computed
  progress is below 1, exactly one callback is scheduled and playback stays on; whenever
  the progress is not below 1, playback stops and nothing is scheduled.
\<close>

theorem playback_termination:
  assumes playing: "isPlaying (data (AnimationState w))"
    and elapsed: "elapsed = js_sub now (playbackStartTime (AnimationState w))"
    and dur: "dur = env_duration env"
    and progress: "progress = tick_progress env now w"
  shows "(is_double now \<and> is_double (playbackStartTime (AnimationState w)) \<and> is_double dur
          \<and> is_finite dur \<and> js_lt (num 0) dur \<and> js_ge elapsed dur \<longrightarrow>
            progress = num 1
          \<and> \<not> isPlaying (data (AnimationState (animate env now w)))
          \<and> frameRequests (animate env now w) = frameRequests w)
       \<and> (js_lt progress (num 1) \<longrightarrow>
            isPlaying (data (AnimationState (animate env now w)))
          \<and> frameRequests (animate env now w) = frameRequests w @ [env])
       \<and> (\<not> js_lt progress (num 1) \<longrightarrow>
            \<not> isPlaying (data (AnimationState (animate env now w)))
          \<and> frameRequests (animate env now w) = frameRequests w)"
proof (intro conjI impI)
  assume h: "is_double now \<and> is_double (playbackStartTime (AnimationState w)) \<and> is_double dur
          \<and> is_finite dur \<and> js_lt (num 0) dur \<and> js_ge elapsed dur"
  then have "is_double elapsed" unfolding elapsed by (intro is_double_ops) simp_all
  with h have p: "progress = num 1"
    unfolding progress tick_progress_def elapsed[symmetric] dur[symmetric]
    by (intro js_div_ge_one) simp_all
  then show "progress = num 1" .
  have n: "\<not> js_lt (tick_progress env now w) (num 1)"
    using p by (simp add: progress[symmetric] num_simps)
  from animate_playing(2)[OF playing n]
  show "\<not> isPlaying (data (AnimationState (animate env now w)))"
    and "frameRequests (animate env now w) = frameRequests w" by simp_all
next
  assume "js_lt progress (num 1)"
  then have l: "js_lt (tick_progress env now w) (num 1)" by (simp add: progress)
  from animate_playing(1)[OF playing l]
  show "isPlaying (data (AnimationState (animate env now w)))"
    and "frameRequests (animate env now w) = frameRequests w @ [env]" by simp_all
next
  assume "\<not> js_lt progress (num 1)"
  then have n: "\<not> js_lt (tick_progress env now w) (num 1)" by (simp add: progress)
  from animate_playing(2)[OF playing n]
  show "\<not> isPlaying (data (AnimationState (animate env now w)))"
    and "frameRequests (animate env now w) = frameRequests w" by simp_all
qed

lemma js_min_num: "js_min (num a) (num b) = num (min a b)"
  by (auto simp: js_min_def num_simps min_def)

lemma done_eval:
  "keyframes (data (AnimationState w_done))
     = [\<lparr>time = num 0, positions = 0\<rparr>, \<lparr>time = num 10, positions = 1\<rparr>]"
  "inPoint (data (AnimationState w_done)) = Num (num 0)"
  "outPoint (data (AnimationState w_done)) = Num (num 10)"
  "duration (data (AnimationState w_done)) = num 10000"
  "isPlaying (data (AnimationState w_done)) = False"
  "frameRequests w_done = []"
  by (simp_all add: w_done_def recordState_def record_end_def capture_result split_beta Let_def
      begun_eval updateDuration_def updateTimelineMarkers_def addTimelineMarker_def num_arith
      num_simps w_begun_def record_start_def example_world_def reset_def
      initial_AnimationState_def)

lemma playing_eval:
  "isPlaying (data (AnimationState w_playing))"
  "playbackStartTime (AnimationState w_playing) = num 0"
  "playbackDuration (AnimationState w_playing) = num 10000"
  "frameRequests w_playing = [example_env]"
  by (simp_all add: w_playing_def startPlayback_def animateBubbles_def animate_def
      tick_progress_def Let_def interpolate_world_frame done_eval num_arith num_simps js_min_num
      example_env_def)

text \<open>
  In the sample playback of 10000 ms started at clock reading 0, the frame at 10000 ms
  computes progress 1 and stops; the frame at 5000 ms schedules one further callback.
\<close>

theorem playback_termination_witness:
  "isPlaying (data (AnimationState w_playing))
   \<and> frameRequests w_playing = [example_env]
   \<and> js_ge (js_sub (num 10000) (playbackStartTime (AnimationState w_playing)))
            (env_duration example_env)
   \<and> tick_progress example_env (num 10000) (w_playing\<lparr>frameRequests := []\<rparr>) = num 1
   \<and> \<not> isPlaying (data (AnimationState (run_frame (num 10000) w_playing)))
   \<and> frameRequests (run_frame (num 10000) w_playing) = []
   \<and> js_lt (tick_progress example_env (num 5000) (w_playing\<lparr>frameRequests := []\<rparr>)) (num 1)
   \<and> isPlaying (data (AnimationState (run_frame (num 5000) w_playing)))
   \<and> frameRequests (run_frame (num 5000) w_playing) = [example_env]"
proof -
  have p: "isPlaying (data (AnimationState (w_playing\<lparr>frameRequests := []\<rparr>)))"
    by (simp add: playing_eval)
  have h1: "is_double (num 10000) \<and> is_double (playbackStartTime (AnimationState (w_playing\<lparr>frameRequests := []\<rparr>)))
      \<and> is_double (env_duration example_env) \<and> is_finite (env_duration example_env)
      \<and> js_lt (num 0) (env_duration example_env)
      \<and> js_ge (js_sub (num 10000) (playbackStartTime (AnimationState (w_playing\<lparr>frameRequests := []\<rparr>))))
               (env_duration example_env)"
    by (simp add: playing_eval example_env_def num_arith num_simps) (simp add: num_def rnd_numeral rnd_zero)
  have h2: "js_lt (tick_progress example_env (num 5000) (w_playing\<lparr>frameRequests := []\<rparr>)) (num 1)"
    by (simp add: tick_progress_def playing_eval example_env_def num_arith num_simps js_min_num)
  have r: "\<And>t. run_frame t w_playing = animate example_env t (w_playing\<lparr>frameRequests := []\<rparr>)"
    by (simp add: run_frame_def playing_eval)
  from playback_termination[where now = "num 10000" and env = example_env, OF p refl refl refl] h1
       playback_termination[where now = "num 5000" and env = example_env, OF p refl refl refl] h2
  show ?thesis
    by (simp add: r playing_eval)
qed

lemma zero_eval:
  "keyframes (data (AnimationState w_zero))
     = [\<lparr>time = num 0, positions = 1\<rparr>, \<lparr>time = num 10, positions = 0\<rparr>]"
  "inPoint (data (AnimationState w_zero)) = Num (num 0)"
  "outPoint (data (AnimationState w_zero)) = Num (num 0)"
  "duration (data (AnimationState w_zero)) = num 10000"
  "isPlaying (data (AnimationState w_zero)) = False"
  "frameRequests w_zero = []"
  by (simp_all add: w_zero_def recordState_def record_end_def capture_result split_beta Let_def
      begun_eval updateDuration_def updateTimelineMarkers_def addTimelineMarker_def num_arith
      num_simps w_begun_def record_start_def example_world_def reset_def
      initial_AnimationState_def)

text \<open>
  C9 as stated fails: after Begin and an End with the scrubber at 0 the in and out points
  are both 0 and the playback duration is 0; in the first tick the elapsed time 0 reaches
  it, and the computed progress, which the tick assigns to the scrubber, is \<open>NaN\<close>, not 1.
\<close>

theorem progress_nan_at_zero_duration:
  "playbackDuration (AnimationState (startPlayback (num 5) (num 5) w_zero)) = num 0
   \<and> js_ge (js_sub (num 5) (num 5)) (num 0)
   \<and> sliderValue (startPlayback (num 5) (num 5) w_zero) = NaN
   \<and> tick_progress \<lparr>env_duration = num 0, env_inPoint = Num (num 0), env_outPoint = Num (num 0),
                     env_durationSeconds = num 10\<rparr> (num 5)
        (w_zero\<lparr>AnimationState := (AnimationState w_zero)\<lparr>playbackStartTime := num 5\<rparr>\<rparr>) = NaN"
  by (simp add: startPlayback_def animateBubbles_def animate_def tick_progress_def Let_def
      interpolate_world_frame zero_eval num_arith num_simps js_min_def stopPlayback_def)
    (simp add: num_def)

section \<open>The segment fraction\<close>

lemma js_sub_distinct:
  assumes da: "is_double a" and db: "is_double b" and fa: "is_finite a" and fb: "is_finite b"
    and ne: "\<not> js_eq a b"
  shows "js_sub b a \<noteq> NaN \<and> \<not> is_zero (js_sub b a)"
proof -
  obtain s1 q1 where a: "a = Finite s1 q1" using fa by (cases a) simp_all
  obtain s2 q2 where b: "b = Finite s2 q2" using fb by (cases b) simp_all
  define r where "r = signed s2 q2 + signed (\<not> s1) q1"
  have "signed s1 q1 \<noteq> signed s2 q2" using ne by (auto simp: js_eq_def a b)
  then have r0: "r \<noteq> 0" by (auto simp: r_def signed_def split: if_splits)
  define G where "G = (2::real) ^ 1074"
  obtain z1 :: int where "q1 * 2 ^ 1074 = of_int z1" using double_on_grid da a by blast
  then have z1: "q1 * G = of_int z1" by (simp only: G_def)
  obtain z2 :: int where "q2 * 2 ^ 1074 = of_int z2" using double_on_grid db b by blast
  then have z2: "q2 * G = of_int z2" by (simp only: G_def)
  have G0: "0 \<le> G" by (simp add: G_def)
  have "\<exists>z::int. \<bar>r\<bar> * G = of_int z"
  proof -
    have "r * G = signed s2 (q2 * G) + signed (\<not> s1) (q1 * G)"
      by (simp add: r_def signed_def algebra_simps)
    also have "\<dots> = of_int (if s2 then - z2 else z2) + of_int (if s1 then z1 else - z1)"
      by (simp add: z1 z2 signed_def)
    finally have "r * G = of_int ((if s2 then - z2 else z2) + (if s1 then z1 else - z1))"
      by simp
    then have "\<bar>r * G\<bar> = of_int \<bar>(if s2 then - z2 else z2) + (if s1 then z1 else - z1)\<bar>"
      by (simp only: of_int_abs)
    moreover have "\<bar>r * G\<bar> = \<bar>r\<bar> * G" using G0 by (simp add: abs_mult)
    ultimately show ?thesis by metis
  qed
  then obtain z :: int where "\<bar>r\<bar> * G = of_int z" by blast
  then have z: "\<bar>r\<bar> * 2 ^ 1074 = of_int z" by (simp only: G_def)
  have pos: "0 < \<bar>r\<bar>" using r0 by simp
  from rnd_nonzero[OF pos z, of "r < 0"]
  obtain v where "0 < v" "rnd (r < 0) \<bar>r\<bar> = Finite (r < 0) v \<or> rnd (r < 0) \<bar>r\<bar> = Infinity (r < 0)"
    by blast
  moreover have "js_sub b a = rnd (r < 0) \<bar>r\<bar>"
    using r0 by (simp add: js_sub_def a b r_def Let_def)
  ultimately show ?thesis by auto
qed

lemma js_sub_equal:
  assumes fa: "is_finite a" and fb: "is_finite b" and eq: "js_eq a b"
  shows "is_zero (js_sub b a)"
proof -
  obtain s1 q1 where a: "a = Finite s1 q1" using fa by (cases a) simp_all
  obtain s2 q2 where b: "b = Finite s2 q2" using fb by (cases b) simp_all
  have "signed s1 q1 = signed s2 q2" using eq by (auto simp: js_eq_def a b)
  then have "signed s2 q2 + signed (\<not> s1) q1 = 0" by (auto simp: signed_def split: if_splits)
  then show ?thesis by (simp add: js_sub_def a b Let_def)
qed

lemma js_div_by_zero: "is_zero d \<Longrightarrow> \<not> is_finite (js_div n d)"
  by (cases n; cases d) auto

lemma lerp_not_finite: "\<not> is_finite f \<Longrightarrow> \<not> is_finite (lerp a d f)"
proof -
  assume f: "\<not> is_finite f"
  have "\<not> is_finite (js_mul d f)" using f by (cases d; cases f) auto
  then show ?thesis unfolding lerp_def by (cases a; cases "js_mul d f") auto
qed

lemma rnd_not_nan: "rnd s q \<noteq> NaN"
  by (simp add: rnd_def Let_def)

lemma js_sub_not_nan:
  assumes "ct \<noteq> NaN" "is_finite t"
  shows "js_sub ct t \<noteq> NaN"
proof -
  obtain s q where t: "t = Finite s q" using assms(2) by (cases t) simp_all
  show ?thesis using assms(1) by (cases ct) (simp_all add: js_sub_def t Let_def rnd_not_nan)
qed

lemma js_div_not_nan:
  assumes "n \<noteq> NaN" "is_finite d" "\<not> is_zero d"
  shows "js_div n d \<noteq> NaN"
proof -
  obtain s q where d: "d = Finite s q" using assms(2) by (cases d) simp_all
  show ?thesis using assms(1,3) by (cases n) (simp_all add: d rnd_not_nan)
qed

text \<open>
  What the step writes to the \<open>i\<close>-th live entity, when the live entities are distinct
  objects, none of them an element of the two snapshots, and \<open>i\<close> is within both
  snapshots: \<open>s\<close> and \<open>e\<close> are the entity's copies in the snapshots of the two selected
  keyframes, \<open>f\<close> is the segment fraction.
\<close>

lemma interpolate_written:
  assumes len: "2 \<le> length (keyframes (data (AnimationState w)))"
    and ct: "ct = js_mul progress (js_div (duration (data (AnimationState w))) (num 1000))"
    and sel: "select_keyframes ct (keyframes (data (AnimationState w))) = (ks, ke)"
    and sp: "sp = arrs (heap w) (positions ks)" and ep: "ep = arrs (heap w) (positions ke)"
    and dist: "distinct (ideas w)" and sep: "set (ideas w) \<inter> (set sp \<union> set ep) = {}"
    and i: "i < length (ideas w)" "i < length sp" "i < length ep"
    and s: "s = objs (heap w) (sp ! i)" and e: "e = objs (heap w) (ep ! i)"
    and new: "new = objs (heap (interpolateBubblePositions progress w)) (ideas w ! i)"
    and f: "f = js_div (js_sub ct (time ks)) (js_sub (time ke) (time ks))"
  shows "x new = js_add (x s) (js_mul (js_sub (x e) (x s)) f)"
    "y new = js_add (y s) (js_mul (js_sub (y e) (y s)) f)"
proof -
  have r1: "ideas w ! i \<noteq> sp ! i" using sep i by (metis IntI UnI1 empty_iff nth_mem)
  have r2: "ideas w ! i \<noteq> ep ! i" using sep i by (metis IntI UnI2 empty_iff nth_mem)
  have fs: "f = segmentProgress ct ks ke" by (simp add: f segmentProgress_def)
  have "new = objs (interpolate_idea f sp ep i (ideas w ! i) (heap w)) (ideas w ! i)"
    unfolding new fs ct
    by (rule interpolate_entity[OF len sel[unfolded ct] sp ep refl dist sep i(1)])
  then have xy: "x new = lerp (x s) (js_sub (x e) (x s)) f" "y new = lerp (y s) (js_sub (y e) (y s)) f"
    by (simp_all add: interpolate_idea_written[OF i(2,3) r1 r2] s e)
  then show "x new = js_add (x s) (js_mul (js_sub (x e) (x s)) f)"
    "y new = js_add (y s) (js_mul (js_sub (y e) (y s)) f)"
    by (simp_all only: lerp_def)
qed

text \<open>
  C10. The step computes the segment fraction as
  \<open>(currentTime - startKeyframe.time) / (endKeyframe.time - startKeyframe.time)\<close>, with no
  guard on the divisor, and writes \<open>x0 + (x1 - x0) * fraction\<close>, and \<open>y\<close> likewise, to every
  live entity within both snapshots. For two selected keyframes whose times are finite
  doubles: when the times differ, the divisor is a number other than zero, and the
  fraction is a number (not \<open>NaN\<close>) whenever \<open>currentTime\<close> is one and the divisor has not
  overflowed; when the times are equal, the divisor is zero, the fraction is \<open>NaN\<close> or an
  infinity, and the \<open>x\<close> and \<open>y\<close> written are not finite.
\<close>

theorem segment_fraction_divisor:
  assumes len: "2 \<le> length (keyframes (data (AnimationState w)))"
    and ct: "ct = js_mul progress (js_div (duration (data (AnimationState w))) (num 1000))"
    and sel: "select_keyframes ct (keyframes (data (AnimationState w))) = (ks, ke)"
    and sp: "sp = arrs (heap w) (positions ks)" and ep: "ep = arrs (heap w) (positions ke)"
    and dist: "distinct (ideas w)" and sep: "set (ideas w) \<inter> (set sp \<union> set ep) = {}"
    and i: "i < length (ideas w)" "i < length sp" "i < length ep"
    and s: "s = objs (heap w) (sp ! i)" and e: "e = objs (heap w) (ep ! i)"
    and new: "new = objs (heap (interpolateBubblePositions progress w)) (ideas w ! i)"
    and dbl: "is_double (time ks)" "is_double (time ke)"
    and fin: "is_finite (time ks)" "is_finite (time ke)"
    and f: "f = js_div (js_sub ct (time ks)) (js_sub (time ke) (time ks))"
  shows "x new = js_add (x s) (js_mul (js_sub (x e) (x s)) f)
       \<and> y new = js_add (y s) (js_mul (js_sub (y e) (y s)) f)
       \<and> (\<not> js_eq (time ks) (time ke) \<longrightarrow>
            js_sub (time ke) (time ks) \<noteq> NaN \<and> \<not> is_zero (js_sub (time ke) (time ks))
            \<and> (ct \<noteq> NaN \<and> is_finite (js_sub (time ke) (time ks)) \<longrightarrow> f \<noteq> NaN))
       \<and> (js_eq (time ks) (time ke) \<longrightarrow>
            is_zero (js_sub (time ke) (time ks)) \<and> \<not> is_finite f
            \<and> \<not> is_finite (x new) \<and> \<not> is_finite (y new))"
proof -
  have xy: "x new = js_add (x s) (js_mul (js_sub (x e) (x s)) f)"
    "y new = js_add (y s) (js_mul (js_sub (y e) (y s)) f)"
    by (rule interpolate_written[OF len ct sel sp ep dist sep i s e new f])+
  have c: "js_sub (time ke) (time ks) \<noteq> NaN \<and> \<not> is_zero (js_sub (time ke) (time ks))
            \<and> (ct \<noteq> NaN \<and> is_finite (js_sub (time ke) (time ks)) \<longrightarrow> f \<noteq> NaN)"
    if ne: "\<not> js_eq (time ks) (time ke)"
  proof -
    have d: "js_sub (time ke) (time ks) \<noteq> NaN \<and> \<not> is_zero (js_sub (time ke) (time ks))"
      using ne by (rule js_sub_distinct[OF dbl fin])
    have "f \<noteq> NaN" if "ct \<noteq> NaN" "is_finite (js_sub (time ke) (time ks))"
      unfolding f using js_sub_not_nan[OF that(1) fin(1)] that(2) d by (intro js_div_not_nan) simp_all
    with d show ?thesis by simp
  qed
  have d: "is_zero (js_sub (time ke) (time ks)) \<and> \<not> is_finite f
            \<and> \<not> is_finite (x new) \<and> \<not> is_finite (y new)"
    if eq: "js_eq (time ks) (time ke)"
  proof -
    have z: "is_zero (js_sub (time ke) (time ks))" by (rule js_sub_equal[OF fin eq])
    then have nf: "\<not> is_finite f" unfolding f by (rule js_div_by_zero)
    show ?thesis using z nf lerp_not_finite[OF nf] by (simp add: xy lerp_def)
  qed
  from xy c d show ?thesis by (intro conjI impI) simp_all
qed

lemma is_double_num:
  "is_double (num 0)" "is_double (num 1)" "(numeral k :: nat) < 2 ^ 53 \<Longrightarrow> is_double (num (numeral k))"
  by (simp_all add: num_def rnd_zero rnd_one rnd_numeral)

lemma ended_heap:
  "ideas w_ended = [0]"
  "objCount (heap w_ended) = 3"
  "objs (heap w_ended) 0 = example_entity"
  by (simp_all add: w_ended_def recordState_def record_end_def capture_result split_beta Let_def
      begun_eval updateDuration_def updateTimelineMarkers_def addTimelineMarker_def num_arith
      num_simps w_begun_def record_start_def example_world_def reset_def
      initial_AnimationState_def new_obj_def)

lemma dup_eval:
  "keyframes (data (AnimationState w_dup))
     = [\<lparr>time = num 5, positions = 2\<rparr>, \<lparr>time = num 5, positions = 3\<rparr>]"
  "duration (data (AnimationState w_dup)) = num 10000"
  "ideas w_dup = [0]"
  "arrs (heap w_dup) 2 = [3]"
  "arrs (heap w_dup) 3 = [4]"
  "arrs (heap w_dup) (Suc (Suc 0)) = [3]"
  by (simp_all add: w_dup_def recordState_def record_keyframe_def capture_result split_beta Let_def
      ended_eval ended_heap updateDuration_def addTimelineMarker_def num_arith num_simps alert_def
      new_obj_def)

lemma begun_heap:
  "ideas w_begun = [0]"
  "objCount (heap w_begun) = 2"
  "objs (heap w_begun) 0 = example_entity"
  "objs (heap w_begun) (Suc 0) = example_entity"
  "arrs (heap w_begun) 0 = [1]"
  by (simp_all add: w_begun_def recordState_def record_start_def capture_result split_beta Let_def
      addTimelineMarker_def example_world_def reset_def updateDuration_def
      initial_AnimationState_def new_obj_def)

lemma moved_eval:
  "keyframes (data (AnimationState w_moved))
     = [\<lparr>time = num 0, positions = 0\<rparr>, \<lparr>time = num 10, positions = 1\<rparr>]"
  "duration (data (AnimationState w_moved)) = num 10000"
  "ideas w_moved = [0]"
  "arrs (heap w_moved) 0 = [1]"
  "arrs (heap w_moved) (Suc 0) = [2]"
  "objs (heap w_moved) (Suc 0) = example_entity"
  "objs (heap w_moved) 2 = example_entity\<lparr>x := num 50\<rparr>"
  by (simp_all add: w_moved_def recordState_def record_end_def capture_result split_beta Let_def
      begun_eval begun_heap updateDuration_def updateTimelineMarkers_def addTimelineMarker_def
      num_arith num_simps new_obj_def upd_obj_def)

text \<open>
  The keyframes of Begin and End are at times 0 and 10: the divisor is 10, at
  \<open>currentTime = 5\<close> the fraction is one half, and the entity captured at \<open>x = 10\<close> and at
  \<open>x = 50\<close> is written to \<open>x = 30\<close>. Two keyframes added at time 5 give the divisor 0, a
  fraction that is not finite, and a position that is not finite.
\<close>

theorem segment_fraction_divisor_witness:
  "\<not> js_eq (num 0) (num 10)
   \<and> js_sub (num 10) (num 0) = num 10
   \<and> js_div (js_sub (num 5) (num 0)) (js_sub (num 10) (num 0)) = num (1 / 2)
   \<and> x (objs (heap (interpolateBubblePositions (num (1 / 2)) w_moved)) 0) = num 30
   \<and> y (objs (heap (interpolateBubblePositions (num (1 / 2)) w_moved)) 0) = num 20
   \<and> js_eq (num 5) (num 5)
   \<and> is_zero (js_sub (num 5) (num 5))
   \<and> \<not> is_finite (js_div (js_sub (num 5) (num 5)) (js_sub (num 5) (num 5)))
   \<and> \<not> is_finite (x (objs (heap (interpolateBubblePositions (num (1 / 2)) w_dup)) 0))
   \<and> \<not> is_finite (y (objs (heap (interpolateBubblePositions (num (1 / 2)) w_dup)) 0))"
proof -
  let ?k0 = "\<lparr>time = num 0, positions = 0\<rparr>" and ?k1 = "\<lparr>time = num 10, positions = 1\<rparr>"
  have len: "2 \<le> length (keyframes (data (AnimationState w_moved)))"
    and ct: "num 5 = js_mul (num (1 / 2)) (js_div (duration (data (AnimationState w_moved))) (num 1000))"
    and sel: "select_keyframes (num 5) (keyframes (data (AnimationState w_moved))) = (?k0, ?k1)"
    by (simp_all add: moved_eval select_keyframes_def num_arith num_simps)
  have d: "distinct (ideas w_moved)"
    and s: "set (ideas w_moved) \<inter> (set (arrs (heap w_moved) (positions ?k0))
              \<union> set (arrs (heap w_moved) (positions ?k1))) = {}"
    and i: "0 < length (ideas w_moved)"
      "0 < length (arrs (heap w_moved) (positions ?k0))"
      "0 < length (arrs (heap w_moved) (positions ?k1))"
    and t: "is_double (time ?k0)" "is_double (time ?k1)" "is_finite (time ?k0)" "is_finite (time ?k1)"
    by (simp_all add: moved_eval is_double_num num_simps)
  have a: "\<not> js_eq (num 0) (num 10)
      \<and> js_sub (num 10) (num 0) = num 10
      \<and> js_div (js_sub (num 5) (num 0)) (js_sub (num 10) (num 0)) = num (1 / 2)
      \<and> x (objs (heap (interpolateBubblePositions (num (1 / 2)) w_moved)) 0) = num 30
      \<and> y (objs (heap (interpolateBubblePositions (num (1 / 2)) w_moved)) 0) = num 20"
    using segment_fraction_divisor[OF len ct sel refl refl d s i refl refl refl t refl]
    by (simp add: moved_eval example_entity_def num_simps num_arith)
  let ?d0 = "\<lparr>time = num 5, positions = 2\<rparr>" and ?d1 = "\<lparr>time = num 5, positions = 3\<rparr>"
  have len2: "2 \<le> length (keyframes (data (AnimationState w_dup)))"
    and ct2: "num 5 = js_mul (num (1 / 2)) (js_div (duration (data (AnimationState w_dup))) (num 1000))"
    and sel2: "select_keyframes (num 5) (keyframes (data (AnimationState w_dup))) = (?d0, ?d1)"
    by (simp_all add: dup_eval select_keyframes_def num_arith num_simps)
  have d2: "distinct (ideas w_dup)"
    and s2: "set (ideas w_dup) \<inter> (set (arrs (heap w_dup) (positions ?d0))
              \<union> set (arrs (heap w_dup) (positions ?d1))) = {}"
    and i2: "0 < length (ideas w_dup)"
      "0 < length (arrs (heap w_dup) (positions ?d0))"
      "0 < length (arrs (heap w_dup) (positions ?d1))"
    and t2: "is_double (time ?d0)" "is_double (time ?d1)" "is_finite (time ?d0)" "is_finite (time ?d1)"
    by (simp_all add: dup_eval is_double_num num_simps)
  have b: "js_eq (num 5) (num 5) \<and> is_zero (js_sub (num 5) (num 5))
      \<and> \<not> is_finite (js_div (js_sub (num 5) (num 5)) (js_sub (num 5) (num 5)))
      \<and> \<not> is_finite (x (objs (heap (interpolateBubblePositions (num (1 / 2)) w_dup)) 0))
      \<and> \<not> is_finite (y (objs (heap (interpolateBubblePositions (num (1 / 2)) w_dup)) 0))"
    using segment_fraction_divisor[OF len2 ct2 sel2 refl refl d2 s2 i2 refl refl refl t2 refl,
        THEN conjunct2, THEN conjunct2]
    by (simp add: dup_eval num_simps)
  from a b show ?thesis by blast
qed

section \<open>The interpolation boundary\<close>

lemma js_eq_finite: "js_eq a b \<Longrightarrow> is_finite b \<Longrightarrow> is_finite a"
  by (cases a; cases b) (auto simp: js_eq_def)

lemma js_eq_sym: "js_eq a b \<Longrightarrow> js_eq b a"
  by (auto simp: js_eq_def)

lemma js_lt_not_eq: "js_lt a b \<Longrightarrow> \<not> js_eq a b"
  by (auto simp: js_eq_def)

lemma zero_div: "is_zero n \<Longrightarrow> d \<noteq> NaN \<Longrightarrow> \<not> is_zero d \<Longrightarrow> is_zero (js_div n d)"
  by (cases n; cases d) (auto simp: rnd_zero)

lemma lerp_at_zero:
  assumes da: "is_double a" and fa: "is_finite a" and fd: "is_finite d" and z: "is_zero f"
  shows "js_eq (lerp a d f) a"
proof -
  obtain s q where a: "a = Finite s q" using fa by (cases a) simp_all
  obtain sd qd where d: "d = Finite sd qd" using fd by (cases d) simp_all
  obtain sf where f: "f = Finite sf 0" using z by (cases f) simp_all
  have q: "0 \<le> q" "rnd s q = Finite s q" using da a by simp_all
  have m: "js_mul d f = Finite (sd \<noteq> sf) 0" by (simp add: d f rnd_zero)
  show ?thesis
  proof (cases "q = 0")
    case True
    then show ?thesis by (simp add: lerp_def m a signed_def js_eq_def)
  next
    case False
    with q have "0 < q" by simp
    then have "js_add a (Finite (sd \<noteq> sf) 0) = rnd s q"
      by (cases s) (simp_all add: a signed_def Let_def)
    then show ?thesis using \<open>0 < q\<close> by (simp add: lerp_def m q a js_eq_def)
  qed
qed

lemma fraction_at_start:
  assumes dbl: "is_double t0" "is_double t1" and fin: "is_finite t0" "is_finite t1"
    and lt: "js_lt t0 t1" and eq: "js_eq ct t0"
  shows "is_zero (js_div (js_sub ct t0) (js_sub t1 t0))"
proof -
  have "is_finite ct" using eq fin(1) by (rule js_eq_finite)
  then have "is_zero (js_sub ct t0)" using js_sub_equal[OF fin(1) _ js_eq_sym[OF eq]] by simp
  moreover have "js_sub t1 t0 \<noteq> NaN \<and> \<not> is_zero (js_sub t1 t0)"
    using js_sub_distinct[OF dbl fin js_lt_not_eq[OF lt]] .
  ultimately show ?thesis by (simp add: zero_div)
qed

lemma fraction_at_end:
  assumes dbl: "is_double t0" "is_double t1" and fin: "is_finite t0" "is_finite t1"
    and lt: "js_lt t0 t1" and eq: "js_eq ct t1" and fd: "is_finite (js_sub t1 t0)"
  shows "js_div (js_sub ct t0) (js_sub t1 t0) = num 1"
proof -
  have fc: "is_finite ct" using eq fin(2) by (rule js_eq_finite)
  obtain sc qc where c: "ct = Finite sc qc" using fc by (cases ct) simp_all
  obtain s0 q0 where t0: "t0 = Finite s0 q0" using fin(1) by (cases t0) simp_all
  obtain s1 q1 where t1: "t1 = Finite s1 q1" using fin(2) by (cases t1) simp_all
  have "signed sc qc = signed s1 q1" using eq by (auto simp: js_eq_def c t1)
  moreover have "signed s1 q1 + signed (\<not> s0) q0 \<noteq> 0"
    using lt by (auto simp: t0 t1 signed_def split: if_splits)
  ultimately have same: "js_sub ct t0 = js_sub t1 t0" by (simp add: js_sub_def c t0 t1 Let_def)
  obtain sd qd where d: "js_sub t1 t0 = Finite sd qd" using fd by (cases "js_sub t1 t0") simp_all
  have "\<not> is_zero (js_sub t1 t0)" using js_sub_distinct[OF dbl fin js_lt_not_eq[OF lt]] by simp
  then have "qd \<noteq> 0" by (simp add: d)
  then show ?thesis by (simp add: same d rnd_one num_def)
qed

lemma exact_int:
  assumes "v = real_of_int z" "\<bar>z\<bar> < 2 ^ 53"
  shows "rnd s \<bar>v\<bar> = Finite s \<bar>v\<bar>"
proof -
  have "nat \<bar>z\<bar> < 2 ^ 53" using assms(2) by (simp add: nat_less_iff)
  from rnd_nat[OF this, of s] show ?thesis by (simp add: assms(1))
qed

lemma exact_half:
  assumes "v = real_of_int z / 2" "\<bar>z\<bar> < 2 ^ 53"
  shows "rnd s \<bar>v\<bar> = Finite s \<bar>v\<bar>"
proof -
  have "nat \<bar>z\<bar> < 2 ^ 53" using assms(2) by (simp add: nat_less_iff)
  from rnd_dyadic[OF this, of 1 s] show ?thesis by (simp add: assms(1))
qed

lemma val_num: "val (num v) = v"
  by (simp add: num_def signed_def)

lemma exact_num: "exact (num v) u = (v = u)"
  by (simp add: exact_def val_num num_simps)

lemma js_eq_val: "is_finite a \<Longrightarrow> is_finite b \<Longrightarrow> js_eq a b = (val a = val b)"
  by (cases a; cases b) (auto simp: js_eq_def)

lemma js_lt_val: "is_finite a \<Longrightarrow> is_finite b \<Longrightarrow> js_lt a b = (val a < val b)"
  by (cases a; cases b) auto

lemma mul_one: "is_double d \<Longrightarrow> js_mul d (num 1) = d"
  by (cases d) (simp_all add: num_def)

lemma fraction_half:
  assumes dn: "is_double n" and dd: "is_double d" and fn: "is_finite n" and fd: "is_finite d"
    and half: "val n * 2 = val d" and pos: "0 < val d"
  shows "js_div n d = num (1 / 2)"
proof -
  obtain sn qn where n: "n = Finite sn qn" using fn by (cases n) simp_all
  obtain sd qd where d: "d = Finite sd qd" using fd by (cases d) simp_all
  have q: "0 \<le> qn" "0 \<le> qd" using dn dd by (simp_all add: n d)
  have sd: "\<not> sd" "0 < qd" using pos q by (auto simp: d signed_def split: if_splits)
  have sn: "\<not> sn" "qn = qd / 2" using half q sd by (auto simp: n d signed_def split: if_splits)
  have r: "qn / qd = 1 / 2" using sd sn by simp
  have "js_div n d = rnd False (qn / qd)" using sd sn by (simp add: n d)
  then show ?thesis by (simp only: r rnd_half num_def) simp
qed

lemma lerp_end_exact:
  assumes da: "is_double a" and db: "is_double b" and fa: "is_finite a" and fb: "is_finite b"
    and e1: "exact (js_sub b a) (val b - val a)"
    and e2: "exact (js_add a (js_sub b a)) (val a + val (js_sub b a))"
  shows "js_eq (js_add a (js_mul (js_sub b a) (num 1))) b"
proof -
  have "is_double (js_sub b a)" using db da by (rule is_double_ops)
  then have m: "js_mul (js_sub b a) (num 1) = js_sub b a" by (rule mul_one)
  have "is_finite (js_add a (js_sub b a))" "val (js_add a (js_sub b a)) = val b"
    using e1 e2 by (simp_all add: exact_def)
  then show ?thesis using fb by (simp add: m js_eq_val)
qed

lemma lerp_mid_exact:
  assumes e1: "exact (js_sub b a) (val b - val a)"
    and e2: "exact (js_mul (js_sub b a) (num (1 / 2))) (val (js_sub b a) / 2)"
    and e3: "exact (js_add a (js_mul (js_sub b a) (num (1 / 2))))
               (val a + val (js_mul (js_sub b a) (num (1 / 2))))"
  shows "exact (js_add a (js_mul (js_sub b a) (num (1 / 2)))) ((val a + val b) / 2)"
proof -
  have "val a + val (js_mul (js_sub b a) (num (1 / 2))) = val a + (val b - val a) / 2"
    using e1 e2 by (simp add: exact_def)
  also have "\<dots> = (val a + val b) / 2" by (simp add: field_simps)
  finally show ?thesis using e3 by (simp add: exact_def)
qed

lemma int_exact:
  assumes "\<bar>a\<bar> < 2 ^ 51" "\<bar>b\<bar> < 2 ^ 51" and A: "A = real_of_int a" and B: "B = real_of_int b"
  shows "js_sub (num B) (num A) = num (B - A)"
    "js_add (num A) (num (B - A)) = num B"
    "js_mul (num (B - A)) (num (1 / 2)) = num ((B - A) / 2)"
    "js_add (num A) (num ((B - A) / 2)) = num ((A + B) / 2)"
proof -
  have ab: "\<bar>b - a\<bar> < 2 ^ 53" "\<bar>b\<bar> < 2 ^ 53" "\<bar>a + b\<bar> < 2 ^ 53" using assms(1,2) by simp_all
  have d: "B - A = real_of_int (b - a)" by (simp add: A B)
  show "js_sub (num B) (num A) = num (B - A)"
    by (rule js_sub_num) (rule exact_int[OF d ab(1)])
  have s: "A + (B - A) = real_of_int b" by (simp add: B)
  have "js_add (num A) (num (B - A)) = num (A + (B - A))"
    by (rule js_add_num) (rule exact_int[OF s ab(2)])
  also have "A + (B - A) = B" by simp
  finally show "js_add (num A) (num (B - A)) = num B" .
  have h: "(B - A) / 2 = real_of_int (b - a) / 2" by (simp only: d)
  have "js_mul (num (B - A)) (num (1 / 2)) = rnd (B - A < 0) (\<bar>B - A\<bar> / 2)" by (simp add: num_def)
  also have "\<dots> = rnd ((B - A) / 2 < 0) \<bar>(B - A) / 2\<bar>" by simp
  also have "\<dots> = num ((B - A) / 2)" by (simp only: exact_half[OF h ab(1)] num_def)
  finally show "js_mul (num (B - A)) (num (1 / 2)) = num ((B - A) / 2)" .
  have s: "A + (B - A) / 2 = real_of_int (a + b) / 2" by (simp add: A B field_simps)
  have "js_add (num A) (num ((B - A) / 2)) = num (A + (B - A) / 2)"
    by (rule js_add_num) (rule exact_half[OF s ab(3)])
  also have "A + (B - A) / 2 = (A + B) / 2" by (simp add: field_simps)
  finally show "js_add (num A) (num ((B - A) / 2)) = num ((A + B) / 2)" .
qed

lemma int_coordinates_exact:
  assumes a: "a = num (of_int m)" and b: "b = num (of_int n)"
    and m: "\<bar>m\<bar> < 2 ^ 51" and n: "\<bar>n\<bar> < 2 ^ 51"
  shows "exact (js_sub b a) (val b - val a)"
    "exact (js_add a (js_sub b a)) (val a + val (js_sub b a))"
    "exact (js_mul (js_sub b a) (num (1 / 2))) (val (js_sub b a) / 2)"
    "exact (js_add a (js_mul (js_sub b a) (num (1 / 2))))
       (val a + val (js_mul (js_sub b a) (num (1 / 2))))"
proof -
  define A where "A = real_of_int m"
  define B where "B = real_of_int n"
  note ie = int_exact[OF m n A_def B_def]
  have ab: "a = num A" "b = num B" by (simp_all add: a b A_def B_def)
  show "exact (js_sub b a) (val b - val a)"
    by (simp only: ab ie exact_num val_num)
  show "exact (js_add a (js_sub b a)) (val a + val (js_sub b a))"
    by (simp only: ab ie exact_num val_num)
  show "exact (js_mul (js_sub b a) (num (1 / 2))) (val (js_sub b a) / 2)"
    by (simp only: ab ie exact_num val_num)
  show "exact (js_add a (js_mul (js_sub b a) (num (1 / 2))))
       (val a + val (js_mul (js_sub b a) (num (1 / 2))))"
    by (simp only: ab ie exact_num val_num) (simp add: field_simps)
qed

lemma int_times_exact:
  assumes t0: "t0 = num (of_int p)" and t1: "t1 = num (of_int q)"
    and p: "\<bar>p\<bar> < 2 ^ 51" and q: "\<bar>q\<bar> < 2 ^ 51"
    and c: "ct = num ((of_int p + of_int q) / 2)"
  shows "is_double ct" "is_finite ct" "val ct * 2 = val t0 + val t1"
    "exact (js_sub ct t0) (val ct - val t0)"
    "exact (js_sub t1 t0) (val t1 - val t0)"
proof -
  define P where "P = real_of_int p"
  define Q where "Q = real_of_int q"
  have pq: "\<bar>q - p\<bar> < 2 ^ 53" "\<bar>p + q\<bar> < 2 ^ 53" using p q by simp_all
  have t: "t0 = num P" "t1 = num Q" "ct = num ((P + Q) / 2)" by (simp_all add: t0 t1 c P_def Q_def)
  have m: "(P + Q) / 2 = real_of_int (p + q) / 2" by (simp add: P_def Q_def)
  show "is_double ct" unfolding t num_def using exact_half[OF m pq(2)] by simp
  show "is_finite ct" by (simp add: t num_simps)
  show "val ct * 2 = val t0 + val t1" by (simp add: t val_num)
  have d: "Q - P = real_of_int (q - p)" by (simp add: P_def Q_def)
  have h: "(P + Q) / 2 - P = real_of_int (q - p) / 2" by (simp add: P_def Q_def field_simps)
  have "js_sub (num ((P + Q) / 2)) (num P) = num ((P + Q) / 2 - P)"
    by (rule js_sub_num) (rule exact_half[OF h pq(1)])
  then show "exact (js_sub ct t0) (val ct - val t0)"
    by (simp only: t exact_num val_num)
  have "js_sub (num Q) (num P) = num (Q - P)"
    by (rule js_sub_num) (rule exact_int[OF d pq(1)])
  then show "exact (js_sub t1 t0) (val t1 - val t0)"
    by (simp only: t exact_num val_num)
qed

lemma fraction_at_midpoint:
  assumes dbl: "is_double t0" "is_double t1" "is_double ct"
    and fin: "is_finite t0" "is_finite t1" "is_finite ct"
    and lt: "js_lt t0 t1"
    and mid: "val ct * 2 = val t0 + val t1"
    and e1: "exact (js_sub ct t0) (val ct - val t0)"
    and e2: "exact (js_sub t1 t0) (val t1 - val t0)"
  shows "js_div (js_sub ct t0) (js_sub t1 t0) = num (1 / 2)"
proof (rule fraction_half)
  show "is_double (js_sub ct t0)" using dbl(3,1) by (rule is_double_ops)
  show "is_double (js_sub t1 t0)" using dbl(2,1) by (rule is_double_ops)
  show "is_finite (js_sub ct t0)" "is_finite (js_sub t1 t0)" using e1 e2 by (simp_all add: exact_def)
  have "val (js_sub ct t0) * 2 = val ct * 2 - val t0 * 2" using e1 by (simp add: exact_def)
  also have "\<dots> = val t1 - val t0" by (simp add: mid)
  finally show "val (js_sub ct t0) * 2 = val (js_sub t1 t0)" using e2 by (simp add: exact_def)
  have "val t0 < val t1" using lt fin by (simp add: js_lt_val)
  then show "0 < val (js_sub t1 t0)" using e2 by (simp add: exact_def)
qed

text \<open>
  C6 (as the code has it). Let \<open>ks\<close> and \<open>ke\<close> be the two keyframes the step selects for
  \<open>currentTime\<close> (the first pair adjacent in storage order whose times enclose it, else the
  first and the last keyframe), with times \<open>t0 < t1\<close>, finite doubles; let the live entities
  be distinct objects, none of them an element of the two snapshots. For a live entity
  within both snapshots, with snapshot positions \<open>(x0, y0)\<close> and \<open>(x1, y1)\<close>, all doubles,
  and \<open>f = (currentTime - t0) / (t1 - t0)\<close>:

  \<^item> the step writes \<open>x0 + (x1 - x0) * f\<close> and \<open>y0 + (y1 - y0) * f\<close> in double arithmetic,
    each operation rounded;
  \<^item> at \<open>currentTime = t0\<close>, \<open>f\<close> is zero and the step writes \<open>x0\<close>, equal under \<^verbatim>\<open>===\<close>,
    whenever \<open>x0\<close> and \<open>x1 - x0\<close> are finite; likewise for \<open>y\<close>;
  \<^item> at \<open>currentTime = t1\<close>, with \<open>t1 - t0\<close> finite, \<open>f\<close> is 1 and the step writes
    \<open>x0 + (x1 - x0)\<close>, the product by 1 being exact; that is \<open>x1\<close>, equal under \<^verbatim>\<open>===\<close>,
    whenever \<open>x0\<close> and \<open>x1\<close> are finite and neither the subtraction \<open>x1 - x0\<close> nor the
    addition \<open>x0 + (x1 - x0)\<close> rounds; likewise for \<open>y\<close>;
  \<^item> at the midpoint, that is when \<open>currentTime\<close> is a finite double with
    \<open>2 * currentTime = t0 + t1\<close> and neither \<open>currentTime - t0\<close> nor \<open>t1 - t0\<close> rounds, \<open>f\<close> is
    one half and the step writes the arithmetic mean \<open>(x0 + x1) / 2\<close> whenever none of the
    subtraction \<open>x1 - x0\<close>, the halving and the addition rounds; likewise for \<open>y\<close>;
  \<^item> none of these operations rounds when the two coordinates are integers of magnitude
    below \<open>2 ^ 51\<close>, and the midpoint conditions hold when the two times are such integers
    and \<open>currentTime\<close> is their mean.
\<close>

theorem interpolation_boundary:
  assumes len: "2 \<le> length (keyframes (data (AnimationState w)))"
    and ct: "ct = js_mul progress (js_div (duration (data (AnimationState w))) (num 1000))"
    and sel: "select_keyframes ct (keyframes (data (AnimationState w))) = (ks, ke)"
    and sp: "sp = arrs (heap w) (positions ks)" and ep: "ep = arrs (heap w) (positions ke)"
    and dist: "distinct (ideas w)" and sep: "set (ideas w) \<inter> (set sp \<union> set ep) = {}"
    and i: "i < length (ideas w)" "i < length sp" "i < length ep"
    and s: "s = objs (heap w) (sp ! i)" and e: "e = objs (heap w) (ep ! i)"
    and new: "new = objs (heap (interpolateBubblePositions progress w)) (ideas w ! i)"
    and f: "f = js_div (js_sub ct (time ks)) (js_sub (time ke) (time ks))"
    and dx: "dx = js_sub (x e) (x s)" and dy: "dy = js_sub (y e) (y s)"
    and dbl: "is_double (time ks)" "is_double (time ke)"
    and fin: "is_finite (time ks)" "is_finite (time ke)"
    and lt: "js_lt (time ks) (time ke)"
    and cd: "is_double (x s)" "is_double (x e)" "is_double (y s)" "is_double (y e)"
  shows "x new = js_add (x s) (js_mul dx f) \<and> y new = js_add (y s) (js_mul dy f)
       \<and> (js_eq ct (time ks) \<longrightarrow> is_zero f
            \<and> (is_finite (x s) \<and> is_finite dx \<longrightarrow> js_eq (x new) (x s))
            \<and> (is_finite (y s) \<and> is_finite dy \<longrightarrow> js_eq (y new) (y s)))
       \<and> (js_eq ct (time ke) \<and> is_finite (js_sub (time ke) (time ks)) \<longrightarrow> f = num 1
            \<and> x new = js_add (x s) dx \<and> y new = js_add (y s) dy
            \<and> (is_finite (x s) \<and> is_finite (x e) \<and> exact dx (val (x e) - val (x s))
                \<and> exact (js_add (x s) dx) (val (x s) + val dx) \<longrightarrow> js_eq (x new) (x e))
            \<and> (is_finite (y s) \<and> is_finite (y e) \<and> exact dy (val (y e) - val (y s))
                \<and> exact (js_add (y s) dy) (val (y s) + val dy) \<longrightarrow> js_eq (y new) (y e)))
       \<and> (is_double ct \<and> is_finite ct \<and> val ct * 2 = val (time ks) + val (time ke)
            \<and> exact (js_sub ct (time ks)) (val ct - val (time ks))
            \<and> exact (js_sub (time ke) (time ks)) (val (time ke) - val (time ks)) \<longrightarrow> f = num (1 / 2)
            \<and> (exact dx (val (x e) - val (x s)) \<and> exact (js_mul dx (num (1 / 2))) (val dx / 2)
                \<and> exact (js_add (x s) (js_mul dx (num (1 / 2)))) (val (x s) + val (js_mul dx (num (1 / 2))))
                \<longrightarrow> exact (x new) ((val (x s) + val (x e)) / 2))
            \<and> (exact dy (val (y e) - val (y s)) \<and> exact (js_mul dy (num (1 / 2))) (val dy / 2)
                \<and> exact (js_add (y s) (js_mul dy (num (1 / 2)))) (val (y s) + val (js_mul dy (num (1 / 2))))
                \<longrightarrow> exact (y new) ((val (y s) + val (y e)) / 2)))
       \<and> (x s = num (of_int a) \<and> x e = num (of_int b) \<and> \<bar>a\<bar> < 2 ^ 51 \<and> \<bar>b\<bar> < 2 ^ 51 \<longrightarrow>
            exact dx (val (x e) - val (x s)) \<and> exact (js_add (x s) dx) (val (x s) + val dx)
            \<and> exact (js_mul dx (num (1 / 2))) (val dx / 2)
            \<and> exact (js_add (x s) (js_mul dx (num (1 / 2)))) (val (x s) + val (js_mul dx (num (1 / 2)))))
       \<and> (y s = num (of_int c) \<and> y e = num (of_int d) \<and> \<bar>c\<bar> < 2 ^ 51 \<and> \<bar>d\<bar> < 2 ^ 51 \<longrightarrow>
            exact dy (val (y e) - val (y s)) \<and> exact (js_add (y s) dy) (val (y s) + val dy)
            \<and> exact (js_mul dy (num (1 / 2))) (val dy / 2)
            \<and> exact (js_add (y s) (js_mul dy (num (1 / 2)))) (val (y s) + val (js_mul dy (num (1 / 2)))))
       \<and> (time ks = num (of_int p) \<and> time ke = num (of_int q) \<and> \<bar>p\<bar> < 2 ^ 51 \<and> \<bar>q\<bar> < 2 ^ 51
            \<and> ct = num ((of_int p + of_int q) / 2) \<longrightarrow>
            is_double ct \<and> is_finite ct \<and> val ct * 2 = val (time ks) + val (time ke)
            \<and> exact (js_sub ct (time ks)) (val ct - val (time ks))
            \<and> exact (js_sub (time ke) (time ks)) (val (time ke) - val (time ks)))"
proof -
  have xy: "x new = js_add (x s) (js_mul dx f)" "y new = js_add (y s) (js_mul dy f)"
    unfolding dx dy by (rule interpolate_written[OF len ct sel sp ep dist sep i s e new f])+
  have t0: "is_zero f \<and> (is_finite (x s) \<and> is_finite dx \<longrightarrow> js_eq (x new) (x s))
              \<and> (is_finite (y s) \<and> is_finite dy \<longrightarrow> js_eq (y new) (y s))"
    if eq: "js_eq ct (time ks)"
  proof -
    have z: "is_zero f" unfolding f using eq by (intro fraction_at_start[OF dbl fin lt])
    have "js_eq (x new) (x s)" if "is_finite (x s)" "is_finite dx"
      using lerp_at_zero[OF cd(1) that z] by (simp add: xy lerp_def)
    moreover have "js_eq (y new) (y s)" if "is_finite (y s)" "is_finite dy"
      using lerp_at_zero[OF cd(3) that z] by (simp add: xy lerp_def)
    ultimately show ?thesis using z by simp
  qed
  have t1: "f = num 1
            \<and> x new = js_add (x s) dx \<and> y new = js_add (y s) dy
            \<and> (is_finite (x s) \<and> is_finite (x e) \<and> exact dx (val (x e) - val (x s))
                \<and> exact (js_add (x s) dx) (val (x s) + val dx) \<longrightarrow> js_eq (x new) (x e))
            \<and> (is_finite (y s) \<and> is_finite (y e) \<and> exact dy (val (y e) - val (y s))
                \<and> exact (js_add (y s) dy) (val (y s) + val dy) \<longrightarrow> js_eq (y new) (y e))"
    if h: "js_eq ct (time ke) \<and> is_finite (js_sub (time ke) (time ks))"
  proof -
    have one: "f = num 1" unfolding f using h by (intro fraction_at_end[OF dbl fin lt]) simp_all
    have "is_double dx" "is_double dy" unfolding dx dy using cd by (simp_all add: is_double_ops)
    then have w: "x new = js_add (x s) dx" "y new = js_add (y s) dy"
      by (simp_all add: xy one mul_one)
    have "js_eq (x new) (x e)"
      if "is_finite (x s)" "is_finite (x e)" "exact dx (val (x e) - val (x s))"
        "exact (js_add (x s) dx) (val (x s) + val dx)"
      unfolding xy one dx using that by (intro lerp_end_exact cd) (simp_all add: dx)
    moreover have "js_eq (y new) (y e)"
      if "is_finite (y s)" "is_finite (y e)" "exact dy (val (y e) - val (y s))"
        "exact (js_add (y s) dy) (val (y s) + val dy)"
      unfolding xy one dy using that by (intro lerp_end_exact cd) (simp_all add: dy)
    ultimately show ?thesis using one w by simp
  qed
  have mid: "f = num (1 / 2)
            \<and> (exact dx (val (x e) - val (x s)) \<and> exact (js_mul dx (num (1 / 2))) (val dx / 2)
                \<and> exact (js_add (x s) (js_mul dx (num (1 / 2)))) (val (x s) + val (js_mul dx (num (1 / 2))))
                \<longrightarrow> exact (x new) ((val (x s) + val (x e)) / 2))
            \<and> (exact dy (val (y e) - val (y s)) \<and> exact (js_mul dy (num (1 / 2))) (val dy / 2)
                \<and> exact (js_add (y s) (js_mul dy (num (1 / 2)))) (val (y s) + val (js_mul dy (num (1 / 2))))
                \<longrightarrow> exact (y new) ((val (y s) + val (y e)) / 2))"
    if h: "is_double ct \<and> is_finite ct \<and> val ct * 2 = val (time ks) + val (time ke)
            \<and> exact (js_sub ct (time ks)) (val ct - val (time ks))
            \<and> exact (js_sub (time ke) (time ks)) (val (time ke) - val (time ks))"
  proof -
    have half: "f = num (1 / 2)" unfolding f using h
      by (intro fraction_at_midpoint dbl fin lt) simp_all
    have "exact (x new) ((val (x s) + val (x e)) / 2)"
      if "exact dx (val (x e) - val (x s))" "exact (js_mul dx (num (1 / 2))) (val dx / 2)"
        "exact (js_add (x s) (js_mul dx (num (1 / 2)))) (val (x s) + val (js_mul dx (num (1 / 2))))"
      unfolding xy half dx using that by (intro lerp_mid_exact) (simp_all add: dx)
    moreover have "exact (y new) ((val (y s) + val (y e)) / 2)"
      if "exact dy (val (y e) - val (y s))" "exact (js_mul dy (num (1 / 2))) (val dy / 2)"
        "exact (js_add (y s) (js_mul dy (num (1 / 2)))) (val (y s) + val (js_mul dy (num (1 / 2))))"
      unfolding xy half dy using that by (intro lerp_mid_exact) (simp_all add: dy)
    ultimately show ?thesis using half by simp
  qed
  have ix: "exact dx (val (x e) - val (x s)) \<and> exact (js_add (x s) dx) (val (x s) + val dx)
            \<and> exact (js_mul dx (num (1 / 2))) (val dx / 2)
            \<and> exact (js_add (x s) (js_mul dx (num (1 / 2)))) (val (x s) + val (js_mul dx (num (1 / 2))))"
    if h: "x s = num (of_int a) \<and> x e = num (of_int b) \<and> \<bar>a\<bar> < 2 ^ 51 \<and> \<bar>b\<bar> < 2 ^ 51"
    unfolding dx using h by (intro conjI int_coordinates_exact[where m = a and n = b]) simp_all
  have iy: "exact dy (val (y e) - val (y s)) \<and> exact (js_add (y s) dy) (val (y s) + val dy)
            \<and> exact (js_mul dy (num (1 / 2))) (val dy / 2)
            \<and> exact (js_add (y s) (js_mul dy (num (1 / 2)))) (val (y s) + val (js_mul dy (num (1 / 2))))"
    if h: "y s = num (of_int c) \<and> y e = num (of_int d) \<and> \<bar>c\<bar> < 2 ^ 51 \<and> \<bar>d\<bar> < 2 ^ 51"
    unfolding dy using h by (intro conjI int_coordinates_exact[where m = c and n = d]) simp_all
  have it: "is_double ct \<and> is_finite ct \<and> val ct * 2 = val (time ks) + val (time ke)
            \<and> exact (js_sub ct (time ks)) (val ct - val (time ks))
            \<and> exact (js_sub (time ke) (time ks)) (val (time ke) - val (time ks))"
    if h: "time ks = num (of_int p) \<and> time ke = num (of_int q) \<and> \<bar>p\<bar> < 2 ^ 51 \<and> \<bar>q\<bar> < 2 ^ 51
            \<and> ct = num ((of_int p + of_int q) / 2)"
    using h by (intro conjI int_times_exact[where p = p and q = q]) simp_all
  show ?thesis
    apply (intro conjI)
           apply (rule xy(1))
          apply (rule xy(2))
         apply (rule impI, erule t0)
        apply (rule impI, erule t1)
       apply (rule impI, erule mid)
      apply (rule impI, erule ix)
     apply (rule impI, erule iy)
    apply (rule impI, erule it)
    done
qed

lemma rnd_three_halves: "rnd s (3 / 2) = Finite s (3 / 2)"
  using rnd_dyadic[of 3 1 s] by simp

lemma half_begun_eval:
  "keyframes (data (AnimationState w_half_begun))
     = [\<lparr>time = num 0, positions = 0\<rparr>, \<lparr>time = num 10, positions = 0\<rparr>]"
  "outPoint (data (AnimationState w_half_begun)) = Num (num 10)"
  "isRecording (data (AnimationState w_half_begun))"
  "durationSelectValue w_half_begun = num 10000"
  "ideas w_half_begun = [0]"
  "objCount (heap w_half_begun) = 2"
  "arrCount (heap w_half_begun) = 1"
  "objs (heap w_half_begun) 0 = example_entity\<lparr>x := num (1 / 2)\<rparr>"
  "objs (heap w_half_begun) (Suc 0) = example_entity\<lparr>x := num (1 / 2)\<rparr>"
  "arrs (heap w_half_begun) 0 = [1]"
  by (simp_all add: w_half_begun_def example_world_half_def recordState_def record_start_def capture_result
      split_beta Let_def addTimelineMarker_def example_world_def ev1 reset_def updateDuration_def
      initial_AnimationState_def new_obj_def)

lemma half_eval:
  "keyframes (data (AnimationState w_half))
     = [\<lparr>time = num 0, positions = 0\<rparr>, \<lparr>time = num 10, positions = 1\<rparr>]"
  "duration (data (AnimationState w_half)) = num 10000"
  "ideas w_half = [0]"
  "arrs (heap w_half) 0 = [1]"
  "arrs (heap w_half) (Suc 0) = [2]"
  "objs (heap w_half) (Suc 0) = example_entity\<lparr>x := num (1 / 2)\<rparr>"
  "objs (heap w_half) 2 = example_entity\<lparr>x := num (3 / 2)\<rparr>"
  by (simp_all add: w_half_def recordState_def record_end_def capture_result split_beta Let_def
      half_begun_eval updateDuration_def updateTimelineMarkers_def addTimelineMarker_def
      num_arith num_simps new_obj_def upd_obj_def)

lemma is_double_halves: "is_double (num (1 / 2))" "is_double (num (3 / 2))"
  by (simp_all add: num_def rnd_half rnd_three_halves)

text \<open>
  The entity captured at \<open>(10, 20)\<close> at time 0 and at \<open>(50, 20)\<close> at time 10 is written to
  \<open>(10, 20)\<close> at progress 0, to \<open>(50, 20)\<close> at progress 1 and to \<open>(30, 20)\<close> at one half; no
  operation rounds on the way. Nor does one for the entity captured at \<open>x = 0.5\<close> and at
  \<open>x = 1.5\<close>, which is written to \<open>x = 1.5\<close> at progress 1 and to \<open>x = 1\<close> at one half.
\<close>

theorem interpolation_boundary_witness:
  "js_lt (num 0) (num 10)
   \<and> is_zero (js_div (js_sub (num 0) (num 0)) (js_sub (num 10) (num 0)))
   \<and> js_eq (x (objs (heap (interpolateBubblePositions (num 0) w_moved)) 0)) (num 10)
   \<and> js_eq (y (objs (heap (interpolateBubblePositions (num 0) w_moved)) 0)) (num 20)
   \<and> js_div (js_sub (num 10) (num 0)) (js_sub (num 10) (num 0)) = num 1
   \<and> js_eq (x (objs (heap (interpolateBubblePositions (num 1) w_moved)) 0)) (num 50)
   \<and> js_eq (y (objs (heap (interpolateBubblePositions (num 1) w_moved)) 0)) (num 20)
   \<and> js_div (js_sub (num 5) (num 0)) (js_sub (num 10) (num 0)) = num (1 / 2)
   \<and> exact (x (objs (heap (interpolateBubblePositions (num (1 / 2)) w_moved)) 0)) 30
   \<and> exact (y (objs (heap (interpolateBubblePositions (num (1 / 2)) w_moved)) 0)) 20
   \<and> exact (js_sub (num 50) (num 10)) 40
   \<and> exact (js_add (num 10) (js_sub (num 50) (num 10))) 50
   \<and> exact (js_mul (js_sub (num 50) (num 10)) (num (1 / 2))) 20
   \<and> exact (js_add (num 10) (js_mul (js_sub (num 50) (num 10)) (num (1 / 2)))) 30
   \<and> exact (js_sub (num 5) (num 0)) 5
   \<and> exact (js_sub (num 10) (num 0)) 10
   \<and> exact (js_sub (num (3 / 2)) (num (1 / 2))) 1
   \<and> exact (js_add (num (1 / 2)) (js_sub (num (3 / 2)) (num (1 / 2)))) (3 / 2)
   \<and> js_eq (x (objs (heap (interpolateBubblePositions (num 1) w_half)) 0)) (num (3 / 2))
   \<and> exact (x (objs (heap (interpolateBubblePositions (num (1 / 2)) w_half)) 0)) 1"
proof -
  let ?k0 = "\<lparr>time = num 0, positions = 0\<rparr>" and ?k1 = "\<lparr>time = num 10, positions = 1\<rparr>"
  have len: "2 \<le> length (keyframes (data (AnimationState w_moved)))"
    by (simp add: moved_eval)
  have ct: "num 0 = js_mul (num 0) (js_div (duration (data (AnimationState w_moved))) (num 1000))"
    "num 10 = js_mul (num 1) (js_div (duration (data (AnimationState w_moved))) (num 1000))"
    "num 5 = js_mul (num (1 / 2)) (js_div (duration (data (AnimationState w_moved))) (num 1000))"
    by (simp_all add: moved_eval num_arith)
  have sel: "select_keyframes (num 0) (keyframes (data (AnimationState w_moved))) = (?k0, ?k1)"
    "select_keyframes (num 10) (keyframes (data (AnimationState w_moved))) = (?k0, ?k1)"
    "select_keyframes (num 5) (keyframes (data (AnimationState w_moved))) = (?k0, ?k1)"
    by (simp_all add: moved_eval select_keyframes_def num_simps)
  have d: "distinct (ideas w_moved)"
    and sp: "set (ideas w_moved) \<inter> (set (arrs (heap w_moved) (positions ?k0))
                \<union> set (arrs (heap w_moved) (positions ?k1))) = {}"
    and i: "0 < length (ideas w_moved)"
      "0 < length (arrs (heap w_moved) (positions ?k0))"
      "0 < length (arrs (heap w_moved) (positions ?k1))"
    and t: "is_double (time ?k0)" "is_double (time ?k1)" "is_finite (time ?k0)" "is_finite (time ?k1)"
      "js_lt (time ?k0) (time ?k1)"
    and cd: "is_double (x (objs (heap w_moved) (arrs (heap w_moved) (positions ?k0) ! 0)))"
      "is_double (x (objs (heap w_moved) (arrs (heap w_moved) (positions ?k1) ! 0)))"
      "is_double (y (objs (heap w_moved) (arrs (heap w_moved) (positions ?k0) ! 0)))"
      "is_double (y (objs (heap w_moved) (arrs (heap w_moved) (positions ?k1) ! 0)))"
    by (simp_all add: moved_eval example_entity_def is_double_num num_simps)
  note at0 = interpolation_boundary[OF len ct(1) sel(1) refl refl d sp i refl refl refl refl refl refl t cd]
  note at1 = interpolation_boundary[OF len ct(2) sel(2) refl refl d sp i refl refl refl refl refl refl t cd]
  note ath = interpolation_boundary[OF len ct(3) sel(3) refl refl d sp i refl refl refl refl refl refl t cd,
      where a = 10 and b = 50 and c = 20 and d = 20 and p = 0 and q = 10]
  have a: "is_zero (js_div (js_sub (num 0) (num 0)) (js_sub (num 10) (num 0)))
         \<and> js_eq (x (objs (heap (interpolateBubblePositions (num 0) w_moved)) 0)) (num 10)
         \<and> js_eq (y (objs (heap (interpolateBubblePositions (num 0) w_moved)) 0)) (num 20)"
    using at0[THEN conjunct2, THEN conjunct2, THEN conjunct1]
    by (simp add: moved_eval example_entity_def num_simps num_arith)
  have b: "js_div (js_sub (num 10) (num 0)) (js_sub (num 10) (num 0)) = num 1
         \<and> js_eq (x (objs (heap (interpolateBubblePositions (num 1) w_moved)) 0)) (num 50)
         \<and> js_eq (y (objs (heap (interpolateBubblePositions (num 1) w_moved)) 0)) (num 20)"
    using at1[THEN conjunct2, THEN conjunct2, THEN conjunct2, THEN conjunct1]
    by (simp add: moved_eval example_entity_def num_simps num_arith exact_num val_num)
  have c: "js_div (js_sub (num 5) (num 0)) (js_sub (num 10) (num 0)) = num (1 / 2)
         \<and> exact (x (objs (heap (interpolateBubblePositions (num (1 / 2)) w_moved)) 0)) 30
         \<and> exact (y (objs (heap (interpolateBubblePositions (num (1 / 2)) w_moved)) 0)) 20"
    using ath[THEN conjunct2, THEN conjunct2, THEN conjunct2, THEN conjunct2, THEN conjunct1]
    by (simp add: moved_eval example_entity_def is_double_num num_simps num_arith exact_num val_num)
  have e: "exact (js_sub (num 50) (num 10)) 40
         \<and> exact (js_add (num 10) (js_sub (num 50) (num 10))) 50
         \<and> exact (js_mul (js_sub (num 50) (num 10)) (num (1 / 2))) 20
         \<and> exact (js_add (num 10) (js_mul (js_sub (num 50) (num 10)) (num (1 / 2)))) 30"
    using ath[THEN conjunct2, THEN conjunct2, THEN conjunct2, THEN conjunct2, THEN conjunct2,
        THEN conjunct1]
    by (simp add: moved_eval example_entity_def val_num exact_def)
  have g: "exact (js_sub (num 5) (num 0)) 5 \<and> exact (js_sub (num 10) (num 0)) 10"
    using ath[THEN conjunct2, THEN conjunct2, THEN conjunct2, THEN conjunct2, THEN conjunct2,
        THEN conjunct2, THEN conjunct2]
    by (simp add: val_num)
  have len': "2 \<le> length (keyframes (data (AnimationState w_half)))"
    by (simp add: half_eval)
  have ct': "num 10 = js_mul (num 1) (js_div (duration (data (AnimationState w_half))) (num 1000))"
    "num 5 = js_mul (num (1 / 2)) (js_div (duration (data (AnimationState w_half))) (num 1000))"
    by (simp_all add: half_eval num_arith)
  have sel': "select_keyframes (num 10) (keyframes (data (AnimationState w_half))) = (?k0, ?k1)"
    "select_keyframes (num 5) (keyframes (data (AnimationState w_half))) = (?k0, ?k1)"
    by (simp_all add: half_eval select_keyframes_def num_simps)
  have d': "distinct (ideas w_half)"
    and sp': "set (ideas w_half) \<inter> (set (arrs (heap w_half) (positions ?k0))
                \<union> set (arrs (heap w_half) (positions ?k1))) = {}"
    and i': "0 < length (ideas w_half)"
      "0 < length (arrs (heap w_half) (positions ?k0))"
      "0 < length (arrs (heap w_half) (positions ?k1))"
    and cd': "is_double (x (objs (heap w_half) (arrs (heap w_half) (positions ?k0) ! 0)))"
      "is_double (x (objs (heap w_half) (arrs (heap w_half) (positions ?k1) ! 0)))"
      "is_double (y (objs (heap w_half) (arrs (heap w_half) (positions ?k0) ! 0)))"
      "is_double (y (objs (heap w_half) (arrs (heap w_half) (positions ?k1) ! 0)))"
    by (simp_all add: half_eval example_entity_def is_double_num is_double_halves)
  note h1 = interpolation_boundary[OF len' ct'(1) sel'(1) refl refl d' sp' i' refl refl refl refl refl refl t cd']
  note hh = interpolation_boundary[OF len' ct'(2) sel'(2) refl refl d' sp' i' refl refl refl refl refl refl t cd']
  have ar: "js_sub (num (3 / 2)) (num (1 / 2)) = num 1"
    "js_add (num (1 / 2)) (num 1) = num (3 / 2)"
    "js_mul (num 1) (num (1 / 2)) = num (1 / 2)"
    "js_add (num (1 / 2)) (num (1 / 2)) = num 1"
    by (simp_all add: js_sub_def num_def signed_def rnd_one rnd_half rnd_three_halves)
  have x: "exact (js_sub (num (3 / 2)) (num (1 / 2))) 1
         \<and> exact (js_add (num (1 / 2)) (js_sub (num (3 / 2)) (num (1 / 2)))) (3 / 2)"
    by (simp add: ar exact_num)
  have y: "js_eq (x (objs (heap (interpolateBubblePositions (num 1) w_half)) 0)) (num (3 / 2))"
    using h1[THEN conjunct2, THEN conjunct2, THEN conjunct2, THEN conjunct1]
    by (simp add: half_eval example_entity_def num_simps num_arith ar exact_num val_num)
  have z: "exact (x (objs (heap (interpolateBubblePositions (num (1 / 2)) w_half)) 0)) 1"
    using hh[THEN conjunct2, THEN conjunct2, THEN conjunct2, THEN conjunct2, THEN conjunct1]
    by (simp add: half_eval example_entity_def is_double_num num_simps num_arith ar exact_num val_num)
  have l: "js_lt (num 0) (num 10)" by (simp add: num_simps)
  from l a b c e g x y z show ?thesis by blast
qed

lemma rnd_far: "rnd s 18014398509481983 = Finite s 18014398509481984"
proof -
  have il: "ilog2 18014398509481983 = 53"
    by (rule ilog2_unique) simp_all
  show ?thesis
    by (simp add: rnd_def il round_half_even_def Let_def)
qed

lemma rnd_far_exact: "rnd s 18014398509481984 = Finite s 18014398509481984"
  by (rule rnd_exact[where m = 1 and e = 54]) simp_all

lemma far_arith:
  "js_sub (num 1) (num 18014398509481984) = Finite True 18014398509481984"
  "js_mul (Finite True 18014398509481984) (num 1) = Finite True 18014398509481984"
  "js_add (num 18014398509481984) (Finite True 18014398509481984) = num 0"
  by (simp_all add: js_sub_def num_def signed_def rnd_far rnd_far_exact)

lemma far_begun_eval:
  "keyframes (data (AnimationState w_far_begun))
     = [\<lparr>time = num 0, positions = 0\<rparr>, \<lparr>time = num 10, positions = 0\<rparr>]"
  "outPoint (data (AnimationState w_far_begun)) = Num (num 10)"
  "isRecording (data (AnimationState w_far_begun))"
  "durationSelectValue w_far_begun = num 10000"
  "ideas w_far_begun = [0]"
  "objCount (heap w_far_begun) = 2"
  "arrCount (heap w_far_begun) = 1"
  "objs (heap w_far_begun) 0 = example_entity\<lparr>x := num 18014398509481984\<rparr>"
  "objs (heap w_far_begun) (Suc 0) = example_entity\<lparr>x := num 18014398509481984\<rparr>"
  "arrs (heap w_far_begun) 0 = [1]"
  by (simp_all add: w_far_begun_def example_world_far_def recordState_def record_start_def capture_result
      split_beta Let_def addTimelineMarker_def example_world_def ev1 reset_def updateDuration_def
      initial_AnimationState_def new_obj_def)

lemma far_eval:
  "keyframes (data (AnimationState w_far))
     = [\<lparr>time = num 0, positions = 0\<rparr>, \<lparr>time = num 10, positions = 1\<rparr>]"
  "duration (data (AnimationState w_far)) = num 10000"
  "ideas w_far = [0]"
  "arrs (heap w_far) 0 = [1]"
  "arrs (heap w_far) (Suc 0) = [2]"
  "objs (heap w_far) (Suc 0) = example_entity\<lparr>x := num 18014398509481984\<rparr>"
  "objs (heap w_far) 2 = example_entity\<lparr>x := num 1\<rparr>"
  by (simp_all add: w_far_def recordState_def record_end_def capture_result split_beta Let_def
      far_begun_eval updateDuration_def updateTimelineMarkers_def addTimelineMarker_def
      num_arith num_simps new_obj_def upd_obj_def)

lemma begun_idle: "\<not> isPlaying (data (AnimationState w_begun))"
  by (simp add: w_begun_def recordState_def record_start_def capture_result split_beta Let_def
      addTimelineMarker_def example_world_def reset_def updateDuration_def
      initial_AnimationState_def)

lemma rnd_quarter: "rnd s (1 / 4) = Finite s (1 / 4)"
  using rnd_dyadic[of 1 2 s] by simp

lemma ev4: "js_mul (num (1 / 4)) (num 10) = num (5 / 2)"
  using rnd_dyadic[of 5 1 False] by (simp add: num_def)

lemma ev5: "js_div (js_sub (num (5 / 2)) (num 0)) (js_sub (num 10) (num 0)) = num (1 / 4)"
proof -
  have "rnd False (5 / 2) = Finite False (5 / 2)" using rnd_dyadic[of 5 1 False] by simp
  then have "js_sub (num (5 / 2)) (num 0) = num (5 / 2)" by (simp add: js_sub_def num_def signed_def)
  moreover have "js_sub (num 10) (num 0) = num 10" by (simp add: num_arith)
  ultimately show ?thesis by (simp add: num_def rnd_quarter)
qed

lemma quarter_eval:
  "keyframes (data (AnimationState w_quarter))
     = [\<lparr>time = num 0, positions = 0\<rparr>, \<lparr>time = num 10, positions = 0\<rparr>,
        \<lparr>time = num (5 / 2), positions = 1\<rparr>]"
  "isRecording (data (AnimationState w_quarter))"
  "\<not> isPlaying (data (AnimationState w_quarter))"
  "durationSelectValue w_quarter = num 10000"
  "ideas w_quarter = [0]"
  "objCount (heap w_quarter) = 3"
  "arrCount (heap w_quarter) = 2"
  "arrs (heap w_quarter) 0 = [1]"
  "arrs (heap w_quarter) (Suc 0) = [2]"
  "objs (heap w_quarter) 0 = example_entity\<lparr>x := num 50\<rparr>"
  "objs (heap w_quarter) (Suc 0) = example_entity"
  "objs (heap w_quarter) 2 = example_entity\<lparr>x := num 50\<rparr>"
  by (simp_all add: w_quarter_def recordState_def record_keyframe_def capture_result split_beta Let_def
      begun_eval begun_heap begun_idle updateDuration_def addTimelineMarker_def ev1 ev4 num_simps
      new_obj_def upd_obj_def)

lemma unsorted_eval:
  "keyframes (data (AnimationState w_unsorted))
     = [\<lparr>time = num 0, positions = 0\<rparr>, \<lparr>time = num 10, positions = 0\<rparr>,
        \<lparr>time = num (5 / 2), positions = 1\<rparr>, \<lparr>time = num (15 / 2), positions = 2\<rparr>]"
  "duration (data (AnimationState w_unsorted)) = num 10000"
  "ideas w_unsorted = [0]"
  "arrs (heap w_unsorted) 0 = [1]"
  "arrs (heap w_unsorted) (Suc 0) = [2]"
  "arrs (heap w_unsorted) 2 = [3]"
  "objs (heap w_unsorted) (Suc 0) = example_entity"
  "objs (heap w_unsorted) 2 = example_entity\<lparr>x := num 50\<rparr>"
  "objs (heap w_unsorted) 3 = example_entity\<lparr>x := num 90\<rparr>"
  by (simp_all add: w_unsorted_def recordState_def record_keyframe_def capture_result split_beta Let_def
      quarter_eval updateDuration_def addTimelineMarker_def ev1 ev3 num_simps
      new_obj_def upd_obj_def)

text \<open>
  C6 as stated fails, in two ways.
  With \<open>x0 = 2 ^ 54\<close> at time 0 and \<open>x1 = 1\<close> at time 10, the difference \<open>x1 - x0\<close> rounds to
  \<open>- 2 ^ 54\<close>, and at \<open>currentTime = t1\<close> the step writes \<open>x = 0\<close>, not 1.
  With the keyframes stored in the order 0, 10, 2.5, 7.5, the keyframes at 2.5 and 7.5 are
  adjacent and enclose \<open>currentTime = 2.5\<close>, and the snapshot at 2.5 holds \<open>x0 = 50\<close>; the
  step selects the keyframes at 0 and 10, whose snapshots hold \<open>x = 10\<close>, and writes
  \<open>x = 10\<close>, not 50.
\<close>

theorem interpolation_boundary_refuted:
  "keyframes (data (AnimationState w_far))
     = [\<lparr>time = num 0, positions = 0\<rparr>, \<lparr>time = num 10, positions = 1\<rparr>]
   \<and> js_lt (num 0) (num 10)
   \<and> js_mul (num 1) (js_div (duration (data (AnimationState w_far))) (num 1000)) = num 10
   \<and> select_keyframes (num 10) (keyframes (data (AnimationState w_far)))
       = (\<lparr>time = num 0, positions = 0\<rparr>, \<lparr>time = num 10, positions = 1\<rparr>)
   \<and> x (objs (heap w_far) (arrs (heap w_far) 0 ! 0)) = num 18014398509481984
   \<and> x (objs (heap w_far) (arrs (heap w_far) 1 ! 0)) = num 1
   \<and> x (objs (heap (interpolateBubblePositions (num 1) w_far)) 0) = num 0
   \<and> \<not> js_eq (x (objs (heap (interpolateBubblePositions (num 1) w_far)) 0)) (num 1)
   \<and> keyframes (data (AnimationState w_unsorted))
       = [\<lparr>time = num 0, positions = 0\<rparr>, \<lparr>time = num 10, positions = 0\<rparr>,
          \<lparr>time = num (5 / 2), positions = 1\<rparr>, \<lparr>time = num (15 / 2), positions = 2\<rparr>]
   \<and> js_lt (num (5 / 2)) (num (15 / 2))
   \<and> js_mul (num (1 / 4)) (js_div (duration (data (AnimationState w_unsorted))) (num 1000)) = num (5 / 2)
   \<and> select_keyframes (num (5 / 2)) (keyframes (data (AnimationState w_unsorted)))
       = (\<lparr>time = num 0, positions = 0\<rparr>, \<lparr>time = num 10, positions = 0\<rparr>)
   \<and> x (objs (heap w_unsorted) (arrs (heap w_unsorted) 1 ! 0)) = num 50
   \<and> x (objs (heap w_unsorted) (arrs (heap w_unsorted) 2 ! 0)) = num 90
   \<and> x (objs (heap (interpolateBubblePositions (num (1 / 4)) w_unsorted)) 0) = num 10
   \<and> \<not> js_eq (x (objs (heap (interpolateBubblePositions (num (1 / 4)) w_unsorted)) 0)) (num 50)"
proof -
  let ?k0 = "\<lparr>time = num 0, positions = 0\<rparr>" and ?k1 = "\<lparr>time = num 10, positions = 1\<rparr>"
  have len: "2 \<le> length (keyframes (data (AnimationState w_far)))" by (simp add: far_eval)
  have ct: "js_mul (num 1) (js_div (duration (data (AnimationState w_far))) (num 1000)) = num 10"
    by (simp add: far_eval num_arith)
  have sel: "select_keyframes (num 10) (keyframes (data (AnimationState w_far))) = (?k0, ?k1)"
    by (simp add: far_eval select_keyframes_def num_simps)
  have d: "distinct (ideas w_far)"
    and sp: "set (ideas w_far) \<inter> (set (arrs (heap w_far) (positions ?k0))
               \<union> set (arrs (heap w_far) (positions ?k1))) = {}"
    and i: "0 < length (ideas w_far)" "0 < length (arrs (heap w_far) (positions ?k0))"
      "0 < length (arrs (heap w_far) (positions ?k1))"
    by (simp_all add: far_eval)
  have f: "js_div (js_sub (num 10) (time ?k0)) (js_sub (time ?k1) (time ?k0)) = num 1"
    by (simp add: num_arith)
  have far: "x (objs (heap (interpolateBubblePositions (num 1) w_far)) 0) = num 0"
    using interpolate_written(1)[OF len ct[symmetric] sel refl refl d sp i refl refl refl refl]
    by (simp only: f) (simp add: far_eval far_arith)
  have far_facts: "keyframes (data (AnimationState w_far)) = [?k0, ?k1]"
    "x (objs (heap w_far) (arrs (heap w_far) 0 ! 0)) = num 18014398509481984"
    "x (objs (heap w_far) (arrs (heap w_far) 1 ! 0)) = num 1"
    "js_lt (num 0) (num 10)" "\<not> js_eq (num 0) (num 1)"
    by (simp_all add: far_eval num_simps)
  let ?u0 = "\<lparr>time = num 0, positions = 0\<rparr>" and ?u1 = "\<lparr>time = num 10, positions = 0\<rparr>"
  have len2: "2 \<le> length (keyframes (data (AnimationState w_unsorted)))" by (simp add: unsorted_eval)
  have ct2: "js_mul (num (1 / 4)) (js_div (duration (data (AnimationState w_unsorted))) (num 1000))
             = num (5 / 2)"
    by (simp add: unsorted_eval ev1 ev4)
  have sel2: "select_keyframes (num (5 / 2)) (keyframes (data (AnimationState w_unsorted))) = (?u0, ?u1)"
    by (simp add: unsorted_eval select_keyframes_def num_simps)
  have d2: "distinct (ideas w_unsorted)"
    and sp2: "set (ideas w_unsorted) \<inter> (set (arrs (heap w_unsorted) (positions ?u0))
               \<union> set (arrs (heap w_unsorted) (positions ?u1))) = {}"
    and i2: "0 < length (ideas w_unsorted)" "0 < length (arrs (heap w_unsorted) (positions ?u0))"
      "0 < length (arrs (heap w_unsorted) (positions ?u1))"
    by (simp_all add: unsorted_eval)
  have f2: "js_div (js_sub (num (5 / 2)) (time ?u0)) (js_sub (time ?u1) (time ?u0)) = num (1 / 4)"
    by (simp add: ev5)
  have uns: "x (objs (heap (interpolateBubblePositions (num (1 / 4)) w_unsorted)) 0) = num 10"
    using interpolate_written(1)[OF len2 ct2[symmetric] sel2 refl refl d2 sp2 i2 refl refl refl refl]
    by (simp only: f2) (simp add: unsorted_eval example_entity_def num_arith)
  have uns_facts: "keyframes (data (AnimationState w_unsorted))
       = [?u0, ?u1, \<lparr>time = num (5 / 2), positions = 1\<rparr>, \<lparr>time = num (15 / 2), positions = 2\<rparr>]"
    "js_lt (num (5 / 2)) (num (15 / 2))"
    "x (objs (heap w_unsorted) (arrs (heap w_unsorted) 1 ! 0)) = num 50"
    "x (objs (heap w_unsorted) (arrs (heap w_unsorted) 2 ! 0)) = num 90"
    "\<not> js_eq (num 10) (num 50)"
    by (simp_all add: unsorted_eval num_simps)
  show ?thesis
    using far far_facts ct sel uns uns_facts ct2 sel2 by (simp only: simp_thms)
qed

section \<open>Save and load\<close>

lemma add_marker_data: "data (addTimelineMarker ty t st) = data st"
  by (simp add: addTimelineMarker_def Let_def)

lemma add_loaded_markers_data: "data (snd (add_loaded_markers ks st)) = data st"
  by (induction ks arbitrary: st) (simp_all add: add_marker_data Let_def)

text \<open>
  Whatever the document, \<^verbatim>\<open>loadAnimation\<close> leaves \<^verbatim>\<open>AnimationState.data\<close> as it is.
\<close>

lemma load_keeps_data:
  "data (AnimationState (loadAnimation doc selected w)) = data (AnimationState w)"
  by (simp add: loadAnimation_def alert_def Let_def split_beta add_marker_data
      add_loaded_markers_data split: option.split)

text \<open>
  The redraw after a marker with a number has been added raises no error when the markers
  of the other types have numbers. A loaded keyframe whose time is not a number ends the
  load with the error notification.
\<close>

lemma redraw_after_number:
  assumes "\<forall>m \<in> set (timelineMarkers st). mtype m \<noteq> ty \<longrightarrow> (\<exists>k. mtime m = Num k)"
  shows "\<not> updateTimelineDisplay_throws (addTimelineMarker ty (Num n) st)"
  using assms
  by (auto simp: updateTimelineDisplay_throws_def addTimelineMarker_def Let_def list_ex_iff)

lemma add_loaded_markers_thrown:
  assumes "\<exists>k \<in> set ks. \<forall>n. doc_time k \<noteq> Num n"
  shows "fst (add_loaded_markers ks st)"
  using assms
proof (induction ks arbitrary: st)
  case Nil
  then show ?case by simp
next
  case (Cons k ks)
  show ?case
  proof (cases "updateTimelineDisplay_throws (addTimelineMarker MarkKeyframe (doc_time k) st)")
    case True
    then show ?thesis by (simp add: Let_def)
  next
    case False
    then have "\<exists>n. doc_time k = Num n"
      by (cases "doc_time k")
        (simp_all add: updateTimelineDisplay_throws_def addTimelineMarker_def Let_def)
    with Cons.prems have "\<exists>k \<in> set ks. \<forall>n. doc_time k \<noteq> Num n" by auto
    from Cons.IH[OF this] False show ?thesis by (simp add: Let_def)
  qed
qed

lemma load_error:
  assumes "doc_keyframes doc = Some ks" "2 \<le> length ks"
    and "\<exists>k \<in> set ks. \<forall>n. doc_time k \<noteq> Num n"
  shows "alerts (loadAnimation doc selected w) = alerts w @ [''Error loading animation file'']"
  using assms(1,2) add_loaded_markers_thrown[OF assms(3)]
  by (simp add: loadAnimation_def alert_def Let_def split_beta)

lemma done_heap:
  "arrs (heap w_done) 0 = [1]" "arrs (heap w_done) (Suc 0) = [2]"
  "objs (heap w_done) (Suc 0) = example_entity" "objs (heap w_done) 2 = example_entity"
  by (simp_all add: w_done_def recordState_def record_end_def capture_result split_beta Let_def
      begun_eval begun_heap updateDuration_def updateTimelineMarkers_def addTimelineMarker_def
      num_arith num_simps new_obj_def)

lemma json_number_num: "json_number (num a) = Num (num a)"
  by (auto simp: num_def)

lemma saved_eval:
  "doc_keyframes saved_document =
     Some [\<lparr>doc_time = Num (num 0), doc_positions = [json_entity example_entity]\<rparr>,
           \<lparr>doc_time = Num (num 10), doc_positions = [json_entity example_entity]\<rparr>]"
  "doc_inPoint saved_document = Num (num 0)"
  "doc_outPoint saved_document = Num (num 10)"
  "doc_duration saved_document = Num (num 10000)"
  by (simp_all add: saved_document_def saveAnimation_def Let_def done_eval done_heap
      json_keyframe_def json_number_num)

text \<open>
  C1 at the sample: the state after Begin and End has two keyframes, in point 0 and out
  point 10, and so has the document saved from it. Loading that document into the state
  as created at start-up is accepted without a notification, whatever the selector holds
  afterwards, and \<^verbatim>\<open>AnimationState.data\<close> is still the start-up state: no keyframes, in
  and out point \<^verbatim>\<open>null\<close>. The loaded values are in the variable \<^verbatim>\<open>animationData\<close>.
\<close>

theorem load_leaves_state:
  "length (keyframes (data (AnimationState w_done))) = 2
   \<and> length (the (doc_keyframes saved_document)) = 2
   \<and> alerts (loadAnimation saved_document selected example_world) = []
   \<and> data (AnimationState (loadAnimation saved_document selected example_world))
       = data initial_AnimationState
   \<and> keyframes (data (AnimationState (loadAnimation saved_document selected example_world))) = []
   \<and> inPoint (data (AnimationState (loadAnimation saved_document selected example_world))) = Null
   \<and> outPoint (data (AnimationState (loadAnimation saved_document selected example_world))) = Null
   \<and> map_option ld_outPoint (animationData (loadAnimation saved_document selected example_world))
       = Some (Num (num 10))
   \<and> map_option (length \<circ> ld_keyframes) (animationData (loadAnimation saved_document selected example_world))
       = Some 2"
proof -
  have d: "data (AnimationState example_world) = data initial_AnimationState"
    by (simp add: example_world_def)
  have i: "keyframes (data initial_AnimationState) = []" "inPoint (data initial_AnimationState) = Null"
    "outPoint (data initial_AnimationState) = Null"
    by (simp_all add: initial_AnimationState_def)
  have l: "alerts (loadAnimation saved_document selected example_world) = []"
    "map_option ld_outPoint (animationData (loadAnimation saved_document selected example_world))
       = Some (Num (num 10))"
    "map_option (length \<circ> ld_keyframes) (animationData (loadAnimation saved_document selected example_world))
       = Some 2"
    by (simp_all add: loadAnimation_def saved_eval Let_def example_world_def js_or_def num_simps
        updateTimelineDisplay_throws_def addTimelineMarker_def initial_AnimationState_def)
  show ?thesis
    by (simp add: load_keeps_data d i l done_eval saved_eval)
qed

end
